(* ===== verification/Prelude.thy ===== *)
theory Prelude
  imports Main "HOL-Library.Word" "HOL-Library.List_Lexorder"
begin

text \<open>
  Shared vocabulary of the development: byte strings with the order of Go's
  \<^verbatim>\<open>bytes.Compare\<close>, the pieces of Go's standard library that the server uses on them
  (\<^verbatim>\<open>math/big\<close> bytes and decimal strings, \<^verbatim>\<open>encoding/binary\<close>, \<^verbatim>\<open>encoding/hex\<close>, the builtin
  \<^verbatim>\<open>copy\<close>), and the result type of fallible operations. Every definition here is about
  the Go language or its standard library; the program itself starts in the other theories.
\<close>

unbundle bit_operations_syntax

named_theorems go_simps \<open>rewrite rules for the Go library functions\<close>
named_theorems res_simps \<open>rewrite rules for results\<close>

section \<open>Types\<close>

type_synonym byte = "8 word"
type_synonym bytes = "byte list"
type_synonym u32 = "32 word"
type_synonym u64 = "64 word"

subsection \<open>Results of fallible operations\<close>

text \<open>
  A Go function that returns a value and an error gives \<open>Ok\<close> or \<open>Err\<close>; one that runs
  into a nil dereference, an index out of range or an explicit \<^verbatim>\<open>panic\<close> gives \<open>Panic\<close>.
\<close>

datatype ('e, 'a) res = Ok (ok_val: 'a) | Err (err_val: 'e) | Panic

fun bind_res :: "('e, 'a) res \<Rightarrow> ('a \<Rightarrow> ('e, 'b) res) \<Rightarrow> ('e, 'b) res" where
  "bind_res (Ok a) f = f a"
| "bind_res (Err e) f = Err e"
| "bind_res Panic f = Panic"

lemma bind_res_Ok_iff [res_simps]:
  "bind_res m f = Ok b \<longleftrightarrow> (\<exists>a. m = Ok a \<and> f a = Ok b)"
  by (cases m) auto

lemma bind_res_Err_iff [res_simps]:
  "bind_res m f = Err e \<longleftrightarrow> m = Err e \<or> (\<exists>a. m = Ok a \<and> f a = Err e)"
  by (cases m) auto

lemma bind_res_Panic_iff [res_simps]:
  "bind_res m f = Panic \<longleftrightarrow> m = Panic \<or> (\<exists>a. m = Ok a \<and> f a = Panic)"
  by (cases m) auto

lemma bind_res_cong [fundef_cong]:
  "m = m' \<Longrightarrow> (\<And>a. m' = Ok a \<Longrightarrow> f a = g a) \<Longrightarrow> bind_res m f = bind_res m' g"
  by (cases m') auto

text \<open>The loop that stops at the first error: \<^verbatim>\<open>for i, x := range xs { ... return err }\<close>.\<close>

fun map_res :: "('a \<Rightarrow> ('e, 'b) res) \<Rightarrow> 'a list \<Rightarrow> ('e, 'b list) res" where
  "map_res f [] = Ok []"
| "map_res f (x # xs) = bind_res (f x) (\<lambda>y. bind_res (map_res f xs) (\<lambda>ys. Ok (y # ys)))"

lemma map_res_length: "map_res f xs = Ok ys \<Longrightarrow> length ys = length xs"
  by (induction xs arbitrary: ys) (auto simp: res_simps)

lemma map_res_Ok_iff: "map_res f xs = Ok ys \<longleftrightarrow> map f xs = map Ok ys"
  by (induction xs arbitrary: ys) (auto simp: res_simps map_eq_Cons_conv Cons_eq_map_conv)

lemma map_res_cong [fundef_cong]:
  "xs = ys \<Longrightarrow> (\<And>x. x \<in> set ys \<Longrightarrow> f x = g x) \<Longrightarrow> map_res f xs = map_res g ys"
  by (induction ys arbitrary: xs) auto

section \<open>Step relations\<close>

text \<open>
  The contract of a system that moves in steps: what a step preserves holds in every state that
  is reached. When there is always a step before the end and each step decreases a measure,
  the end is reached from everywhere.
\<close>

locale step_invariant =
  fixes move :: "'s \<Rightarrow> 's \<Rightarrow> bool" and inv :: "'s \<Rightarrow> bool"
  assumes preserved: "move s t \<Longrightarrow> inv s \<Longrightarrow> inv t"
begin

lemma reached: "move\<^sup>*\<^sup>* s t \<Longrightarrow> inv s \<Longrightarrow> inv t"
  by (induction rule: rtranclp_induct) (auto intro: preserved)

end

locale ending_system = step_invariant +
  fixes ended :: "'s \<Rightarrow> bool" and left :: "'s \<Rightarrow> nat"
  assumes progress: "inv s \<Longrightarrow> \<not> ended s \<Longrightarrow> \<exists>t. move s t"
    and decreases: "move s t \<Longrightarrow> left t < left s"
begin

lemma reaches_end: "inv s \<Longrightarrow> \<exists>t. move\<^sup>*\<^sup>* s t \<and> ended t"
proof (induction "left s" arbitrary: s rule: less_induct)
  case less
  show ?case
  proof (cases "ended s")
    case False
    then obtain t where t: "move s t" using progress less.prems by blast
    then obtain u where "move\<^sup>*\<^sup>* t u" "ended u"
      using less.hyps [OF decreases] preserved less.prems by blast
    with t show ?thesis by (blast intro: converse_rtranclp_into_rtranclp)
  qed blast
qed

lemma ends: "move\<^sup>*\<^sup>* s t \<Longrightarrow> inv s \<Longrightarrow> \<exists>u. move\<^sup>*\<^sup>* t u \<and> ended u"
  by (blast intro: reached reaches_end)

end

section \<open>Lexicographic order\<close>

text \<open>\<open>List_Lexorder\<close> orders lists as \<^verbatim>\<open>bytes.Compare\<close> does: bytewise, a proper prefix first.\<close>

lemma append_less_append_same [simp]:
  fixes xs :: "'a :: order list"
  shows "ps @ xs < ps @ ys \<longleftrightarrow> xs < ys"
  by (induction ps) auto

lemma append_le_append_same [simp]:
  fixes xs :: "'a :: order list"
  shows "ps @ xs \<le> ps @ ys \<longleftrightarrow> xs \<le> ys"
  by (induction ps) auto

lemma less_append_lengthI:
  fixes xs :: "'a :: linorder list"
  assumes "length xs = length ys" and "xs < ys"
  shows "xs @ us < ys @ vs"
  using assms by (induction xs ys rule: list_induct2) auto

lemma less_append_Cons [simp]:
  fixes xs :: "'a :: order list"
  shows "xs < xs @ (y # ys)"
  by (induction xs) auto

lemma map_less_iff:
  fixes f :: "'a :: linorder \<Rightarrow> 'b :: linorder"
  assumes "\<And>a b. a \<in> set xs \<union> set ys \<Longrightarrow> b \<in> set xs \<union> set ys \<Longrightarrow> f a < f b \<longleftrightarrow> a < b"
  shows "map f xs < map f ys \<longleftrightarrow> xs < ys"
  using assms
proof (induction xs arbitrary: ys)
  case Nil
  then show ?case by (cases ys) auto
next
  case (Cons x xs)
  show ?case
  proof (cases ys)
    case Nil
    then show ?thesis by simp
  next
    case (Cons y zs)
    have "f x = f y \<longleftrightarrow> x = y"
      using Cons.prems [of x y] Cons.prems [of y x] Cons
      by (metis UnCI less_irrefl linorder_neqE list.set_intros(1))
    moreover have "f x < f y \<longleftrightarrow> x < y"
      using Cons.prems [of x y] Cons by simp
    moreover have "map f xs < map f zs \<longleftrightarrow> xs < zs"
      using Cons.prems Cons by (intro Cons.IH) auto
    ultimately show ?thesis using Cons by auto
  qed
qed

section \<open>Bytes and machine integers\<close>

lemma of_nat_byte_less_iff:
  "m < 256 \<Longrightarrow> n < 256 \<Longrightarrow> (of_nat m :: byte) < of_nat n \<longleftrightarrow> m < n"
  by (simp add: word_less_nat_alt unat_of_nat)

lemma unat_of_nat_byte [simp]: "n < 256 \<Longrightarrow> unat (of_nat n :: byte) = n"
  by (simp add: unat_of_nat)

lemma unat_of_nat_u32: "n < 4294967296 \<Longrightarrow> unat (of_nat n :: u32) = n"
  by (simp add: unat_of_nat)

lemma unat_byte_less [simp]: "unat (b :: byte) < 256"
  using unsigned_less [where ?'a = nat, of b] by simp

lemma unat_u32_less: "unat (v :: u32) < 4294967296"
  using unsigned_less [where ?'a = nat, of v] by simp

subsection \<open>\<^verbatim>\<open>big.Int.Bytes\<close> and \<^verbatim>\<open>SetBytes\<close>\<close>

text \<open>
  \<^verbatim>\<open>Bytes\<close> is the absolute value as a minimal big-endian byte slice (the sign is
  dropped, zero is the empty slice); \<^verbatim>\<open>SetBytes\<close> reads an unsigned big-endian number.
\<close>

fun be_bytes :: "nat \<Rightarrow> bytes" where
  "be_bytes n = (if n = 0 then [] else be_bytes (n div 256) @ [of_nat (n mod 256)])"

declare be_bytes.simps [simp del]

definition be_nat :: "bytes \<Rightarrow> nat" where
  "be_nat bs = foldl (\<lambda>a b. a * 256 + unat b) 0 bs"

definition big_bytes :: "int \<Rightarrow> bytes" where
  "big_bytes i = be_bytes (nat \<bar>i\<bar>)"

definition big_set_bytes :: "bytes \<Rightarrow> int" where
  "big_set_bytes bs = int (be_nat bs)"

lemma be_nat_snoc [simp]: "be_nat (bs @ [b]) = be_nat bs * 256 + unat b"
  by (simp add: be_nat_def)

lemma be_nat_Nil [simp]: "be_nat [] = 0"
  by (simp add: be_nat_def)

lemma be_bytes_0 [simp]: "be_bytes 0 = []"
  by (simp add: be_bytes.simps)

lemma be_nat_be_bytes [simp]: "be_nat (be_bytes n) = n"
proof (induction n rule: be_bytes.induct)
  case (1 n)
  then show ?case by (cases "n = 0") (simp_all add: be_bytes.simps [of n])
qed

lemma big_set_bytes_big_bytes [go_simps]: "big_set_bytes (big_bytes i) = \<bar>i\<bar>"
  by (simp add: big_set_bytes_def big_bytes_def)

lemma big_set_bytes_nonneg [simp]: "0 \<le> big_set_bytes bs"
  by (simp add: big_set_bytes_def)

lemma big_set_bytes_Nil [simp]: "big_set_bytes [] = 0"
  by (simp add: big_set_bytes_def)

lemma big_bytes_eq_iff: "0 \<le> i \<Longrightarrow> 0 \<le> j \<Longrightarrow> big_bytes i = big_bytes j \<longleftrightarrow> i = j"
  by (metis abs_of_nonneg big_set_bytes_big_bytes)

subsection \<open>\<^verbatim>\<open>binary.LittleEndian\<close>\<close>

text \<open>\<^verbatim>\<open>Uint32\<close> reads \<^verbatim>\<open>b[3]\<close> first and so panics on a slice shorter than four bytes.\<close>

definition le_put32 :: "u32 \<Rightarrow> bytes" where
  "le_put32 v = [ucast v, ucast (drop_bit 8 v), ucast (drop_bit 16 v), ucast (drop_bit 24 v)]"

fun le_get32 :: "bytes \<Rightarrow> u32 option" where
  "le_get32 (a # b # c # d # _) =
     Some (ucast a OR push_bit 8 (ucast b) OR push_bit 16 (ucast c) OR push_bit 24 (ucast d))"
| "le_get32 _ = None"

lemma length_le_put32 [simp]: "length (le_put32 v) = 4"
  by (simp add: le_put32_def)

lemma le_get32_le_put32 [go_simps]: "le_get32 (le_put32 v @ rest) = Some v"
proof -
  have "ucast (ucast v :: byte) OR push_bit 8 (ucast (ucast (drop_bit 8 v) :: byte)) OR
        push_bit 16 (ucast (ucast (drop_bit 16 v) :: byte)) OR
        push_bit 24 (ucast (ucast (drop_bit 24 v) :: byte)) = v" (is "?w = v")
  proof (rule bit_word_eqI)
    fix n assume "n < LENGTH(32)"
    then have "n < 32" by simp
    then have "n < 8 \<or> (\<exists>k<8. n = 8 + k) \<or> (\<exists>k<8. n = 16 + k) \<or> (\<exists>k<8. n = 24 + k)"
      by presburger
    then consider (a) "n < 8" | (b) k where "n = 8 + k" "k < 8" | (c) k where "n = 16 + k" "k < 8"
      | (d) k where "n = 24 + k" "k < 8"
      by blast
    then show "bit ?w n = bit v n"
      by cases (auto simp: bit_simps)
  qed
  then show ?thesis by (simp add: le_put32_def)
qed

lemma le_get32_le_put32' [go_simps]: "le_get32 (le_put32 v) = Some v"
  using le_get32_le_put32 [of v "[]"] by simp

lemma le_put32_inj: "le_put32 v = le_put32 w \<longleftrightarrow> v = w"
  by (metis le_get32_le_put32' option.inject)

subsection \<open>The builtin \<^verbatim>\<open>copy\<close>\<close>

text \<open>\<open>copy_at dst i src\<close> is \<^verbatim>\<open>copy(dst[i:], src)\<close>: as many bytes as fit, no more.\<close>

definition copy_at :: "bytes \<Rightarrow> nat \<Rightarrow> bytes \<Rightarrow> bytes" where
  "copy_at dst i src = take i dst @ take (length dst - i) src @ drop (i + length src) dst"

lemma length_copy_at [simp]: "i \<le> length dst \<Longrightarrow> length (copy_at dst i src) = length dst"
  by (auto simp: copy_at_def)

lemma copy_at_fill [go_simps]:
  "i = length xs \<Longrightarrow> length src = n \<Longrightarrow> copy_at (xs @ replicate n 0) i src = xs @ src"
  by (simp add: copy_at_def)

lemma copy_at_0_full [go_simps]: "length src = length dst \<Longrightarrow> copy_at dst 0 src = src"
  by (simp add: copy_at_def)

section \<open>Strings\<close>

subsection \<open>\<^verbatim>\<open>encoding/hex\<close>\<close>

definition hex_digit :: "nat \<Rightarrow> char" where
  "hex_digit n = (if n < 10 then char_of (n + 48) else char_of (n + 87))"

definition hex_val :: "char \<Rightarrow> nat option" where
  "hex_val c =
     (let n = of_char c :: nat in
      if 48 \<le> n \<and> n \<le> 57 then Some (n - 48)
      else if 97 \<le> n \<and> n \<le> 102 then Some (n - 87)
      else if 65 \<le> n \<and> n \<le> 70 then Some (n - 55)
      else None)"

fun hex_encode :: "bytes \<Rightarrow> string" where
  "hex_encode [] = []"
| "hex_encode (b # bs) = hex_digit (unat b div 16) # hex_digit (unat b mod 16) # hex_encode bs"

text \<open>\<^verbatim>\<open>DecodeString\<close> fails on a byte that is no hex digit and on an odd length.\<close>

fun hex_decode :: "string \<Rightarrow> bytes option" where
  "hex_decode [] = Some []"
| "hex_decode [c] = None"
| "hex_decode (c # d # cs) =
     (case (hex_val c, hex_val d, hex_decode cs) of
        (Some h, Some l, Some bs) \<Rightarrow> Some (of_nat (h * 16 + l) # bs)
      | _ \<Rightarrow> None)"

lemma hex_val_digit [simp]: "n < 16 \<Longrightarrow> hex_val (hex_digit n) = Some n"
  by (auto simp: hex_val_def hex_digit_def Let_def)

lemma hex_decode_encode [go_simps]: "hex_decode (hex_encode bs) = Some bs"
proof (induction bs)
  case Nil
  then show ?case by simp
next
  case (Cons b bs)
  have "unat b div 16 < 16" using unat_byte_less [of b] by (simp only: less_mult_imp_div_less)
  moreover have "of_nat (unat b div 16 * 16 + unat b mod 16) = b"
    by (simp only: div_mult_mod_eq of_nat_unat ucast_id)
  ultimately show ?case using Cons by simp
qed

lemma hex_encode_inj: "hex_encode xs = hex_encode ys \<longleftrightarrow> xs = ys"
  by (metis hex_decode_encode option.inject)

lemma length_hex_encode [simp]: "length (hex_encode bs) = 2 * length bs"
  by (induction bs) auto

lemma hex_encode_eq_Nil: "hex_encode bs = [] \<longleftrightarrow> bs = []"
  by (cases bs) auto

subsection \<open>Decimal strings of \<^verbatim>\<open>big.Int\<close>\<close>

definition dec_digit :: "nat \<Rightarrow> char" where
  "dec_digit n = char_of (n + 48)"

definition dec_val :: "char \<Rightarrow> nat option" where
  "dec_val c = (let n = of_char c :: nat in if 48 \<le> n \<and> n \<le> 57 then Some (n - 48) else None)"

fun nat_string :: "nat \<Rightarrow> string" where
  "nat_string n = (if n < 10 then [dec_digit n] else nat_string (n div 10) @ [dec_digit (n mod 10)])"

declare nat_string.simps [simp del]

definition big_string :: "int \<Rightarrow> string" where
  "big_string i = (if i < 0 then CHR ''-'' # nat_string (nat (- i)) else nat_string (nat i))"

fun digits_val :: "nat \<Rightarrow> string \<Rightarrow> nat option" where
  "digits_val a [] = Some a"
| "digits_val a (c # cs) =
     (case dec_val c of None \<Rightarrow> None | Some d \<Rightarrow> digits_val (10 * a + d) cs)"

definition parse_digits :: "string \<Rightarrow> nat option" where
  "parse_digits cs = (if cs = [] then None else digits_val 0 cs)"

text \<open>
  \<^verbatim>\<open>SetString(s, 10)\<close>: an optional sign, then at least one decimal digit and nothing else.
\<close>

fun big_parse :: "string \<Rightarrow> int option" where
  "big_parse [] = None"
| "big_parse (c # cs) =
     (if c = CHR ''-'' then map_option (\<lambda>n. - int n) (parse_digits cs)
      else if c = CHR ''+'' then map_option int (parse_digits cs)
      else map_option int (parse_digits (c # cs)))"

lemma dec_val_digit [simp]: "n < 10 \<Longrightarrow> dec_val (dec_digit n) = Some n"
  by (auto simp: dec_val_def dec_digit_def Let_def)

lemma nat_string_ne [simp]: "nat_string n \<noteq> []"
  by (subst nat_string.simps) simp

lemma digits_val_snoc:
  "digits_val a (cs @ [c]) =
     (case digits_val a cs of None \<Rightarrow> None | Some m \<Rightarrow> map_option (\<lambda>d. 10 * m + d) (dec_val c))"
  by (induction cs arbitrary: a) (auto split: option.split)

lemma digits_val_nat_string [simp]: "digits_val 0 (nat_string n) = Some n"
proof (induction n rule: nat_string.induct)
  case (1 n)
  then show ?case
    by (cases "n < 10") (simp_all add: nat_string.simps [of n] digits_val_snoc)
qed

lemma parse_digits_nat_string [simp]: "parse_digits (nat_string n) = Some n"
  by (simp add: parse_digits_def)

lemma hd_nat_string: "\<exists>d cs. d < 10 \<and> nat_string n = dec_digit d # cs"
proof (induction n rule: nat_string.induct)
  case (1 n)
  show ?case
  proof (cases "n < 10")
    case True
    then show ?thesis by (auto simp: nat_string.simps [of n])
  next
    case False
    with 1 obtain d cs where "d < 10" "nat_string (n div 10) = dec_digit d # cs" by blast
    with False show ?thesis by (auto simp: nat_string.simps [of n])
  qed
qed

lemma dec_digit_neq_sign [simp]:
  "d < 10 \<Longrightarrow> dec_digit d \<noteq> CHR ''-''" "d < 10 \<Longrightarrow> dec_digit d \<noteq> CHR ''+''"
  using dec_val_digit [of d] by (auto simp: dec_val_def simp del: dec_val_digit)

lemma big_parse_big_string [go_simps]: "big_parse (big_string i) = Some i"
proof (cases "i < 0")
  case True
  then show ?thesis by (simp add: big_string_def)
next
  case False
  obtain d cs where d: "d < 10" "nat_string (nat i) = dec_digit d # cs"
    using hd_nat_string by blast
  have "parse_digits (dec_digit d # cs) = Some (nat i)"
    using d parse_digits_nat_string [of "nat i"] by simp
  with False d show ?thesis by (simp add: big_string_def)
qed

lemma big_string_hd_minus: "hd (big_string i) = CHR ''-'' \<longleftrightarrow> i < 0"
proof (cases "i < 0")
  case True
  then show ?thesis by (simp add: big_string_def)
next
  case False
  obtain d cs where "d < 10" "nat_string (nat i) = dec_digit d # cs"
    using hd_nat_string by blast
  with False show ?thesis by (simp add: big_string_def)
qed

lemma big_string_ne [simp]: "big_string i \<noteq> []"
  by (simp add: big_string_def)

end
