(* ===== verification/Lexinum.thy ===== *)
theory Lexinum
  imports Prelude
begin

text \<open>
  The package \<^verbatim>\<open>lexinum\<close> (src/lexinum/lexinum.go): block heights encoded as byte strings
  whose lexicographic order is the numeric order. The store uses the encoding as the last
  part of its account keys, so that a reverse scan finds the balance at the latest height
  not above the one asked for. All arithmetic is on \<open>u32\<close>, wrap-around included. The
  definitions follow the Go code; \<open>enc_spec\<close> is the encoding on natural numbers they
  refine, and the order and round-trip theorems are proved through it for every \<open>uint32\<close>.
\<close>

section \<open>The code\<close>

definition maxSmall :: u32 where
  "maxSmall = 8258175"

datatype lex_error = InvalidEncoding | InvalidFirstByte byte

subsection \<open>pow\<close>

function pow_loop :: "u32 \<Rightarrow> u32 \<Rightarrow> u32 \<Rightarrow> u32" where
  "pow_loop n a b =
     (if b > 0
      then pow_loop (if b AND 1 \<noteq> 0 then n * a else n) (a * a) (drop_bit 1 b)
      else n)"
  by pat_completeness auto
termination
proof (relation "measure (\<lambda>(n, a, b). unat b)")
  fix n a b :: u32
  assume "b > 0"
  then have "unat b > 0" by (simp add: word_less_nat_alt)
  then show "((if b AND 1 \<noteq> 0 then n * a else n, a * a, drop_bit 1 b), n, a, b)
      \<in> measure (\<lambda>(n, a, b). unat b)"
    by (simp add: drop_bit_eq_div unat_div_distrib)
qed simp

declare pow_loop.simps [simp del]

definition pow :: "u32 \<Rightarrow> u32 \<Rightarrow> u32" where
  "pow a b = pow_loop 1 a b"

subsection \<open>DecodeHeight\<close>

text \<open>
  The loop \<^verbatim>\<open>for i, char := range d[2:]\<close>: the rest of \<^verbatim>\<open>d[2:]\<close>, the index \<open>i\<close> and the value
  so far; the \<^verbatim>\<open>break\<close> at the marker byte \<open>1\<close> returns the remainder byte.
\<close>

fun decode_loop :: "bytes \<Rightarrow> int \<Rightarrow> nat \<Rightarrow> u32 \<Rightarrow> bytes \<Rightarrow> (lex_error, u32 \<times> u32) res" where
  "decode_loop d ridx i v [] = Ok (v, 0)"
| "decode_loop d ridx i v (char # cs) =
     (if char = 1 then
        (if int i \<noteq> ridx then Err InvalidEncoding
         else if i + 3 < length d then Ok (v, ucast (d ! (i + 3)))
         else Panic)
      else decode_loop d ridx (Suc i) (v + (v * 252 + ucast (char - 2))) cs)"

definition DecodeHeight :: "bytes \<Rightarrow> (lex_error, u32) res" where
  "DecodeHeight d =
     (if length d < 2 then Err InvalidEncoding
      else if d ! 0 < 0x80 then Err (InvalidFirstByte (d ! 0))
      else if d ! 0 = 0xff then
        bind_res (decode_loop d (int (length d) - 4) 0 0 (drop 2 d))
          (\<lambda>(v, rem). Ok (v * 255 + rem + maxSmall))
      else if length d < 3 then Err InvalidEncoding
      else Ok ((ucast (d ! 0 - 128) * 255 + ucast (d ! 1 - 1)) * 255 + ucast (d ! 2 - 1)))"

subsection \<open>EncodeHeight\<close>

definition encode_small :: "u32 \<Rightarrow> bytes" where
  "encode_small v =
     (let d = v div 255; m = v mod 255
      in if d > 0 then
           (let d' = d div 255; m' = d mod 255
            in [if d' > 0 then ucast (d' + 128) else 0x80, ucast (m' + 1), ucast (m + 1)])
         else [0x80, 1, ucast (m + 1)])"

text \<open>
  \<^verbatim>\<open>for lead/pow(253, n) > 0 { n++ }\<close> has no bound of its own (for a large enough
  \<^verbatim>\<open>lead\<close> the powers wrap around before they pass it), so it is a partial function; the
  divisor is a power of an odd number and never zero.
\<close>

partial_function (option) count_loop :: "u32 \<Rightarrow> u32 \<Rightarrow> u32 option" where
  "count_loop lead n = (if lead div pow 253 n > 0 then count_loop lead (n + 1) else Some n)"

function chars_loop :: "u32 \<Rightarrow> bytes \<Rightarrow> bytes" where
  "chars_loop lead chars =
     (if lead = 0 then chars
      else chars_loop (lead div 253) (chars @ [ucast (lead mod 253 + 2)]))"
  by pat_completeness auto
termination
  by (relation "measure (\<lambda>(lead, chars). unat lead)")
    (auto simp: unat_div_distrib unat_eq_0 intro!: div_less_dividend unat_gt_0 [THEN iffD2])

declare chars_loop.simps [simp del]

definition encode_big :: "u32 \<Rightarrow> bytes option" where
  "encode_big v =
     (let w = v - maxSmall; lead = w div 255; rem = w mod 255
      in case count_loop lead 1 of
           None \<Rightarrow> None
         | Some n \<Rightarrow>
             Some ([0xff, ucast n + 1] @ rev (chars_loop lead []) @
                   (if rem > 0 then [1, ucast rem] else [])))"

text \<open>\<open>None\<close> stands for an encoding that does not return; \<open>EncodeHeight_spec\<close> excludes it.\<close>

definition EncodeHeight :: "u32 \<Rightarrow> bytes option" where
  "EncodeHeight v =
     (if v = 0 then Some [0x80, 0x01, 0x01]
      else if v < maxSmall then Some (encode_small v)
      else encode_big v)"

section \<open>The encoding on natural numbers\<close>

fun dig :: "nat \<Rightarrow> nat list" where
  "dig n = (if n = 0 then [] else dig (n div 253) @ [n mod 253 + 2])"

declare dig.simps [simp del]

definition enc_spec :: "nat \<Rightarrow> nat list" where
  "enc_spec v =
     (if v < 8258175
      then [128 + v div 65025, v div 255 mod 255 + 1, v mod 255 + 1]
      else (let lead = (v - 8258175) div 255; rem = (v - 8258175) mod 255
            in [255, max 1 (length (dig lead)) + 1] @ dig lead @
               (if rem > 0 then [1, rem] else [])))"

lemma dig_0 [simp]: "dig 0 = []"
  by (simp add: dig.simps)

lemma dig_pos: "0 < n \<Longrightarrow> dig n = dig (n div 253) @ [n mod 253 + 2]"
  by (simp add: dig.simps [of n])

lemma set_dig: "x \<in> set (dig n) \<Longrightarrow> 2 \<le> x \<and> x < 255"
proof (induction n rule: dig.induct)
  case (1 n)
  have "n mod 253 < 253" by simp
  with 1 show ?case by (cases "n = 0") (auto simp: dig_pos)
qed

lemma length_dig_le: "length (dig n) \<le> k \<longleftrightarrow> n < 253 ^ k"
proof (induction n arbitrary: k rule: dig.induct)
  case (1 n)
  show ?case
  proof (cases "n = 0")
    case False
    then show ?thesis
      using 1 by (cases k) (auto simp: dig_pos div_less_iff_less_mult mult.commute)
  qed simp
qed

lemma dig_nonempty: "0 < n \<Longrightarrow> dig n \<noteq> [] \<and> 3 \<le> hd (dig n)"
proof (induction n rule: dig.induct)
  case (1 n)
  show ?case
  proof (cases "n div 253 = 0")
    case True
    then have "n mod 253 = n" by (simp add: div_eq_0_iff)
    with 1 True show ?thesis by (simp add: dig_pos)
  next
    case False
    then have "dig (n div 253) \<noteq> []" "3 \<le> hd (dig (n div 253))" using 1 by simp_all
    moreover have "dig n = dig (n div 253) @ [n mod 253 + 2]" using 1 by (intro dig_pos)
    ultimately show ?thesis by (simp only: hd_append2 append_is_Nil_conv) simp
  qed
qed

lemma dig_mono:
  assumes "m < n" and "length (dig m) = length (dig n)"
  shows "dig m < dig n"
  using assms
proof (induction n arbitrary: m rule: dig.induct)
  case (1 n)
  then have n: "0 < n" by simp
  with 1 have m: "0 < m" by (metis dig_0 dig_nonempty length_0_conv neq0_conv)
  have len: "length (dig (m div 253)) = length (dig (n div 253))"
    using 1 m n by (simp add: dig_pos)
  show ?case
  proof (cases "m div 253 < n div 253")
    case True
    then have "dig (m div 253) < dig (n div 253)" using 1 n len by blast
    then show ?thesis using m n len by (simp add: dig_pos less_append_lengthI)
  next
    case False
    then have eq: "m div 253 = n div 253" using 1 by (meson div_le_mono le_less_Suc_eq less_imp_le not_less_eq order_less_le)
    then have "m mod 253 < n mod 253"
      using 1 by (metis div_mult_mod_eq nat_add_left_cancel_less)
    then show ?thesis using m n eq by (simp add: dig_pos)
  qed
qed

text \<open>The encoding is strictly monotone: small heights, large heights, and across.\<close>

lemma enc_spec_mono_big:
  assumes "8258175 \<le> v" and "v < w"
  shows "enc_spec v < enc_spec w"
proof -
  define l where "l = (v - 8258175) div 255"
  define m where "m = (w - 8258175) div 255"
  define r where "r = (v - 8258175) mod 255"
  define s where "s = (w - 8258175) mod 255"
  have v: "v - 8258175 = 255 * l + r" and w: "w - 8258175 = 255 * m + s"
    by (simp_all add: l_def r_def m_def s_def)
  have lm: "l \<le> m" unfolding l_def m_def using assms by (intro div_le_mono) simp
  have len: "length (dig l) \<le> length (dig m)"
    using lm length_dig_le [of l "length (dig m)"] length_dig_le [of m "length (dig m)"] by simp
  have ev: "enc_spec v = [255, max 1 (length (dig l)) + 1] @ dig l @ (if r > 0 then [1, r] else [])"
    using assms by (simp add: enc_spec_def l_def r_def Let_def)
  have ew: "enc_spec w = [255, max 1 (length (dig m)) + 1] @ dig m @ (if s > 0 then [1, s] else [])"
    using assms by (simp add: enc_spec_def m_def s_def Let_def)
  consider (eq) "l = m" | (same) "l < m" "length (dig l) = length (dig m)"
    | (zero) "l = 0" "length (dig m) = 1" | (longer) "max 1 (length (dig l)) < max 1 (length (dig m))"
  proof -
    have "0 < m \<Longrightarrow> 1 \<le> length (dig m)" using dig_nonempty [of m] by (cases "dig m") auto
    moreover have "0 < l \<Longrightarrow> 1 \<le> length (dig l)" using dig_nonempty [of l] by (cases "dig l") auto
    ultimately have "l = m \<or> l < m \<and> length (dig l) = length (dig m) \<or> l = 0 \<and> length (dig m) = 1 \<or>
        max 1 (length (dig l)) < max 1 (length (dig m))"
      using lm len by (cases "l = 0") (auto simp: max_def)
    then show thesis using that by blast
  qed
  then show ?thesis
  proof cases
    case eq
    then have "r < s" using assms v w by linarith
    then show ?thesis using eq by (simp add: ev ew)
  next
    case same
    then have "dig l < dig m" by (simp add: dig_mono)
    then show ?thesis using same by (simp add: ev ew less_append_lengthI)
  next
    case zero
    then have m0: "0 < m" by (cases m) auto
    then obtain x where x: "dig m = [x]" using zero by (auto simp: length_Suc_conv)
    then have "3 \<le> x" using dig_nonempty [OF m0] by simp
    then show ?thesis using zero x by (simp add: ev ew)
  next
    case longer
    then show ?thesis by (simp add: ev ew)
  qed
qed

lemma three_digits:
  fixes a b c a' b' c' :: nat
  assumes "a * 65025 + b * 255 + c < a' * 65025 + b' * 255 + c'"
    and "b < 255" "c < 255" "b' < 255" "c' < 255"
  shows "a < a' \<or> a = a' \<and> (b < b' \<or> b = b' \<and> c < c')"
proof (rule ccontr)
  assume neg: "\<not> ?thesis"
  then have "\<not> a < a'" by simp
  moreover have "\<not> a' < a" using assms by linarith
  ultimately have a: "a = a'" by linarith
  then have "\<not> b < b'" using neg by simp
  moreover have "\<not> b' < b" using a assms by linarith
  ultimately have "b = b'" by linarith
  then show False using neg a assms by simp
qed

lemma split_digits: "(v :: nat) = v div 65025 * 65025 + v div 255 mod 255 * 255 + v mod 255"
proof -
  have "v = v div 255 * 255 + v mod 255" by simp
  also have "v div 255 = v div 255 div 255 * 255 + v div 255 mod 255" by simp
  also have "v div 255 div 255 = v div 65025" by (simp add: div_mult2_eq [symmetric])
  finally show ?thesis by simp
qed

lemma enc_spec_mono_small:
  assumes "v < w" and "w < 8258175"
  shows "enc_spec v < enc_spec w"
proof -
  have "v div 65025 * 65025 + v div 255 mod 255 * 255 + v mod 255
      < w div 65025 * 65025 + w div 255 mod 255 * 255 + w mod 255"
    using assms(1) by (simp only: split_digits [symmetric])
  from three_digits [OF this] show ?thesis using assms by (simp add: enc_spec_def)
qed

lemma enc_spec_mono: "v < w \<Longrightarrow> enc_spec v < enc_spec w"
proof (cases "w < 8258175"; cases "8258175 \<le> v")
  assume vw: "v < w" and w: "\<not> w < 8258175" and v: "\<not> 8258175 \<le> v"
  then have "v div 65025 < 127" by (simp add: div_less_iff_less_mult)
  then show "enc_spec v < enc_spec w" using v w by (simp add: enc_spec_def Let_def)
qed (auto intro: enc_spec_mono_small enc_spec_mono_big)

section \<open>The code refines the encoding on natural numbers\<close>

lemma ucast_byte_of_nat: "(ucast (x :: u32) :: byte) = of_nat (unat x)"
  by (simp add: unsigned_ucast_eq of_nat_unat)

lemma unat_add_small: "unat (x :: u32) < 4294967000 \<Longrightarrow> k < 256 \<Longrightarrow> unat (x + of_nat k) = unat x + k"
  by (simp add: unat_word_ariths unat_of_nat)

lemma pow_loop_eq: "pow_loop n a b = n * a ^ unat b"
proof (induction n a b rule: pow_loop.induct)
  case (1 n a b)
  show ?case
  proof (cases "b > 0")
    case True
    have half: "unat (drop_bit 1 b) = unat b div 2"
      by (simp add: drop_bit_eq_div unat_div_distrib)
    have odd: "b AND 1 \<noteq> 0 \<longleftrightarrow> unat b mod 2 = 1"
      by (simp add: and_one_eq unat_eq_0 [symmetric] unat_mod_distrib)
    have "a ^ unat b = a ^ (unat b mod 2) * (a * a) ^ (unat b div 2)"
      by (metis mod_mult_div_eq power2_eq_square power_add power_mult)
    then show ?thesis
      using 1 True half odd by (cases "unat b mod 2 = 1") (simp_all add: pow_loop.simps [of n a b] ac_simps)
  next
    case False
    then have "b = 0" by (simp add: word_gt_0)
    then show ?thesis by (simp add: pow_loop.simps [of n a 0])
  qed
qed

lemma pow_eq: "pow a b = a ^ unat b"
  by (simp add: pow_def pow_loop_eq)

lemma length_dig_eq: "253 ^ k \<le> n \<Longrightarrow> n < 253 ^ Suc k \<Longrightarrow> length (dig n) = Suc k"
  using length_dig_le [of n k] length_dig_le [of n "Suc k"] by linarith

lemma div_pos_iff_u32: "(0 :: u32) < lead div c \<longleftrightarrow> 0 < unat lead div unat c"
  by (simp add: word_less_nat_alt unat_div_distrib)

lemma count_loop_eq:
  assumes "unat lead \<le> 16810624"
  shows "count_loop lead 1 = Some (of_nat (max 1 (length (dig (unat lead)))))"
proof -
  have p: "pow 253 1 = 253" "pow 253 2 = 64009" "pow 253 3 = 16194277" "pow 253 4 = 4097152081"
    by (simp_all add: pow_eq)
  consider "unat lead < 253" | "253 \<le> unat lead" "unat lead < 64009"
    | "64009 \<le> unat lead" "unat lead < 16194277" | "16194277 \<le> unat lead" by linarith
  then show ?thesis
  proof cases
    case 1
    then have "length (dig (unat lead)) \<le> 1" using length_dig_le [of "unat lead" 1] by simp
    then show ?thesis using 1 by (simp add: count_loop.simps p div_pos_iff_u32)
  next
    case 2
    then have "length (dig (unat lead)) = 2" using length_dig_eq [of 1 "unat lead"] by simp
    then show ?thesis using 2
      by (simp add: count_loop.simps [of lead 1] count_loop.simps [of lead 2] p div_pos_iff_u32
        div_greater_zero_iff)
  next
    case 3
    then have "length (dig (unat lead)) = 3" using length_dig_eq [of 2 "unat lead"] by simp
    then show ?thesis using 3
      by (simp add: count_loop.simps [of lead 1] count_loop.simps [of lead 2]
        count_loop.simps [of lead 3] p div_pos_iff_u32 div_greater_zero_iff)
  next
    case 4
    then have "length (dig (unat lead)) = 4" using length_dig_eq [of 3 "unat lead"] assms by simp
    then show ?thesis using 4 assms
      by (simp add: count_loop.simps [of lead 1] count_loop.simps [of lead 2]
        count_loop.simps [of lead 3] count_loop.simps [of lead 4] p div_pos_iff_u32
        div_greater_zero_iff)
  qed
qed

lemma chars_loop_eq: "rev (chars_loop lead chars) = map of_nat (dig (unat lead)) @ rev chars"
proof (induction lead chars rule: chars_loop.induct)
  case (1 lead chars)
  show ?case
  proof (cases "lead = 0")
    case False
    have "unat (lead mod 253) < 253" by (simp add: unat_mod_distrib)
    then have "(ucast (lead mod 253 + 2) :: byte) = of_nat (unat lead mod 253 + 2)"
      using unat_add_small [of "lead mod 253" 2] by (simp add: ucast_byte_of_nat unat_mod_distrib)
    moreover have "dig (unat lead) = dig (unat lead div 253) @ [unat lead mod 253 + 2]"
      using False by (intro dig_pos) (simp add: unat_gt_0)
    ultimately show ?thesis
      using 1 False by (simp add: chars_loop.simps [of lead chars] unat_div_distrib)
  qed (simp add: chars_loop.simps [of 0 chars])
qed

lemma encode_small_eq:
  assumes "unat v < 8258175"
  shows "encode_small v = map of_nat (enc_spec (unat v))"
proof -
  have a: "(ucast (v mod 255 + 1) :: byte) = of_nat (unat v mod 255 + 1)"
    using unat_add_small [of "v mod 255" 1] by (simp add: ucast_byte_of_nat unat_mod_distrib)
  have b: "(ucast (v div 255 mod 255 + 1) :: byte) = of_nat (unat v div 255 mod 255 + 1)"
    using unat_add_small [of "v div 255 mod 255" 1]
    by (simp add: ucast_byte_of_nat unat_mod_distrib unat_div_distrib)
  have lt: "unat v div 255 div 255 < 127" using assms by (simp add: div_mult2_eq [symmetric] div_less_iff_less_mult)
  then have c: "(ucast (v div 255 div 255 + 128) :: byte) = of_nat (unat v div 255 div 255 + 128)"
    using unat_add_small [of "v div 255 div 255" 128] by (simp add: ucast_byte_of_nat unat_div_distrib)
  have d: "v div 255 > 0 \<longleftrightarrow> 0 < unat v div 255" "v div 255 div 255 > 0 \<longleftrightarrow> 0 < unat v div 255 div 255"
    by (simp_all add: word_less_nat_alt unat_div_distrib)
  have e: "unat v div 65025 = unat v div 255 div 255" by (simp add: div_mult2_eq [symmetric])
  show ?thesis using assms a b c d
    by (simp add: encode_small_def enc_spec_def Let_def e)
qed

lemma EncodeHeight_refines: "EncodeHeight v = Some (map of_nat (enc_spec (unat v)))"
proof -
  consider "v = 0" | "v \<noteq> 0" "unat v < 8258175" | "8258175 \<le> unat v" by linarith
  then show ?thesis
  proof cases
    case 1
    then show ?thesis by (simp add: EncodeHeight_def enc_spec_def)
  next
    case 2
    then show ?thesis
      by (simp add: EncodeHeight_def maxSmall_def word_less_nat_alt encode_small_eq)
  next
    case 3
    define w where "w = v - maxSmall"
    have w: "unat w = unat v - 8258175"
      using 3 by (simp add: w_def maxSmall_def unat_sub word_le_nat_alt)
    have lead: "unat (w div 255) = (unat v - 8258175) div 255" and rem: "unat (w mod 255) = (unat v - 8258175) mod 255"
      by (simp_all add: unat_div_distrib unat_mod_distrib w)
    have bound: "unat (w div 255) \<le> 16810624"
      unfolding lead using unat_u32_less [of v] by linarith
    have "length (dig (unat (w div 255))) \<le> 4"
      using bound by (simp add: length_dig_le)
    then have n: "(ucast (of_nat (max 1 (length (dig (unat (w div 255))))) :: u32) + 1 :: byte)
        = of_nat (max 1 (length (dig (unat (w div 255)))) + 1)"
      by (simp add: ucast_byte_of_nat unat_of_nat max_def)
    have r: "w mod 255 > 0 \<longleftrightarrow> 0 < (unat v - 8258175) mod 255" "(ucast (w mod 255) :: byte) = of_nat ((unat v - 8258175) mod 255)"
      by (simp_all add: word_less_nat_alt rem ucast_byte_of_nat)
    have v: "\<not> v < maxSmall" "v \<noteq> 0" using 3 by (auto simp: maxSmall_def word_less_nat_alt)
    show ?thesis
      using 3 v r n count_loop_eq [OF bound] chars_loop_eq [of "w div 255" "[]"]
      by (simp add: EncodeHeight_def encode_big_def Let_def w_def [symmetric] enc_spec_def lead)
  qed
qed

lemma enc_spec_range: "x \<in> set (enc_spec (unat (v :: u32))) \<Longrightarrow> 1 \<le> x \<and> x < 256"
proof -
  define l where "l = (unat v - 8258175) div 255"
  have l: "length (dig l) \<le> 4"
    using unat_u32_less [of v] by (simp add: length_dig_le l_def div_less_iff_less_mult)
  have m: "m mod 255 < 255" for m :: nat by simp
  have q: "unat v < 8258175 \<Longrightarrow> unat v div 65025 < 127" by (simp add: div_less_iff_less_mult)
  assume "x \<in> set (enc_spec (unat v))"
  then show ?thesis
    using l q m [of "unat v div 255"] m [of "unat v"] m [of "unat v - 8258175"] set_dig [of x l]
    by (auto simp: enc_spec_def Let_def l_def [symmetric] max_def split: if_splits)
qed

section \<open>Decoding what was encoded\<close>

lemma ucast_u32_unat: "(ucast (x :: byte) :: u32) = of_nat (unat x)"
  by (simp add: of_nat_unat)

lemma ucast_u32_of_nat: "n < 256 \<Longrightarrow> (ucast (of_nat n :: byte) :: u32) = of_nat n"
  by (simp only: ucast_u32_unat unat_of_nat_byte)

lemma ucast_u32_digit: "k \<le> n \<Longrightarrow> n < 256 \<Longrightarrow> (ucast (of_nat n - of_nat k :: byte) :: u32) = of_nat (n - k)"
  using ucast_u32_of_nat [of "n - k"] by (simp add: of_nat_diff)

definition digits_word :: "u32 \<Rightarrow> nat list \<Rightarrow> u32" where
  "digits_word a ds = foldl (\<lambda>a c. 253 * a + of_nat (c - 2)) a ds"

lemma decode_loop_digits:
  assumes "\<And>x. x \<in> set ds \<Longrightarrow> 2 \<le> x \<and> x < 255"
  shows "decode_loop d ridx i a (map of_nat ds @ rest)
       = decode_loop d ridx (i + length ds) (digits_word a ds) rest"
  using assms
proof (induction ds arbitrary: i a)
  case Nil
  then show ?case by (simp add: digits_word_def)
next
  case (Cons x ds)
  have "2 \<le> x \<and> x < 255" by (rule Cons.prems) simp
  then have x: "2 \<le> x" "x < 256" by simp_all
  then have "(of_nat x :: byte) \<noteq> of_nat 1" by (metis One_nat_def Suc_1 not_less_eq_eq unat_of_nat_byte one_less_numeral_iff semiring_norm(76) less_trans numeral_One order_refl)
  moreover have "(ucast (of_nat x - 2 :: byte) :: u32) = of_nat (x - 2)"
    using ucast_u32_digit [of 2 x] x by simp
  moreover have "a + (a * 252 + c) = 253 * a + c" for c :: u32 by simp
  ultimately show ?case using Cons by (simp add: digits_word_def)
qed

lemma digits_word_dig: "digits_word 0 (dig n) = of_nat n"
proof (induction n rule: dig.induct)
  case (1 n)
  show ?case
  proof (cases "n = 0")
    case False
    have "(of_nat n :: u32) = of_nat (253 * (n div 253) + n mod 253)" by simp
    then have "(of_nat n :: u32) = 253 * of_nat (n div 253) + of_nat (n mod 253)"
      by (simp only: of_nat_add of_nat_mult of_nat_numeral)
    then show ?thesis using 1 False by (simp add: dig_pos digits_word_def)
  qed (simp add: digits_word_def)
qed

lemma decode_big:
  assumes "r < 255" and "length ds \<le> 4" and "\<And>x. x \<in> set ds \<Longrightarrow> 2 \<le> x \<and> x < 255"
  shows "DecodeHeight (map of_nat ([255, n] @ ds @ (if r > 0 then [1, r] else [])))
       = Ok (digits_word 0 ds * 255 + of_nat r + maxSmall)"
proof (cases "r > 0")
  case True
  have "(map of_nat ds @ [1, of_nat r]) ! Suc (length ds) = (of_nat r :: byte)"
    by (simp add: nth_append)
  then show ?thesis using assms True
    by (simp add: DecodeHeight_def decode_loop_digits [of ds] ucast_u32_of_nat)
next
  case False
  then show ?thesis using assms
    using decode_loop_digits [of ds "map of_nat ([255, n] @ ds)" _ 0 0 "[]"]
    by (simp add: DecodeHeight_def)
qed

lemma decode_small:
  assumes "q < 127" and "b < 255" and "c < 255"
  shows "DecodeHeight (map of_nat [128 + q, b + 1, c + 1]) = Ok (of_nat (q * 65025 + b * 255 + c))"
proof -
  have n: "\<not> (of_nat (128 + q) :: byte) < 0x80" "(of_nat (128 + q) :: byte) \<noteq> 0xff"
    using assms of_nat_byte_less_iff [of "128 + q" 128] of_nat_byte_less_iff [of "128 + q" 255] by auto
  have "(ucast (of_nat (128 + q) - 128 :: byte) :: u32) = of_nat q"
    "(ucast (of_nat (b + 1) - 1 :: byte) :: u32) = of_nat b"
    "(ucast (of_nat (c + 1) - 1 :: byte) :: u32) = of_nat c"
    using ucast_u32_digit [of 128 "128 + q"] ucast_u32_digit [of 1 "b + 1"]
      ucast_u32_digit [of 1 "c + 1"] assms by simp_all
  with n show ?thesis by (simp add: DecodeHeight_def algebra_simps)
qed

lemma decode_enc_spec: "DecodeHeight (map of_nat (enc_spec (unat v))) = Ok v"
proof (cases "unat v < 8258175")
  case True
  then have "unat v div 65025 < 127" by (simp add: div_less_iff_less_mult)
  then have "DecodeHeight (map of_nat [128 + unat v div 65025, unat v div 255 mod 255 + 1, unat v mod 255 + 1])
      = Ok (of_nat (unat v))"
    using decode_small [of "unat v div 65025" "unat v div 255 mod 255" "unat v mod 255"]
    by (simp only: split_digits [symmetric])
  then show ?thesis using True by (simp add: enc_spec_def)
next
  case False
  define l where "l = (unat v - 8258175) div 255"
  define r where "r = (unat v - 8258175) mod 255"
  have "length (dig l) \<le> 4"
    using unat_u32_less [of v] by (simp add: length_dig_le l_def div_less_iff_less_mult)
  moreover have "r < 255" by (simp add: r_def)
  ultimately have "DecodeHeight (map of_nat ([255, max 1 (length (dig l)) + 1] @ dig l @ (if r > 0 then [1, r] else [])))
      = Ok (of_nat l * 255 + of_nat r + maxSmall)"
    using decode_big [of r "dig l"] set_dig by (simp only: digits_word_dig)
  moreover have "(of_nat l * 255 + of_nat r + maxSmall :: u32) = of_nat (l * 255 + r + 8258175)"
    by (simp add: maxSmall_def)
  moreover have "l * 255 + r + 8258175 = unat v" using False by (simp add: l_def r_def)
  moreover have "enc_spec (unat v)
      = [255, max 1 (length (dig l)) + 1] @ dig l @ (if r > 0 then [1, r] else [])"
    using False by (simp add: enc_spec_def Let_def l_def r_def)
  ultimately show ?thesis by (simp only: of_nat_unat ucast_id)
qed

lemma decode_loop_no_panic: "ridx = int (length d) - 4 \<Longrightarrow> decode_loop d ridx i v cs \<noteq> Panic"
  by (induction cs arbitrary: i v) auto

section \<open>The interface the store relies on\<close>

text \<open>
  The store only needs that the encoding is a strictly monotone map into byte strings:
  the order of keys with a common prefix is then the order of heights.
\<close>

locale height_codec =
  fixes enc :: "u32 \<Rightarrow> bytes"
  assumes enc_less: "v < w \<Longrightarrow> enc v < enc w"
begin

lemma enc_less_iff: "enc v < enc w \<longleftrightarrow> v < w"
  by (metis enc_less less_asym linorder_neqE)

lemma enc_inj: "enc v = enc w \<longleftrightarrow> v = w"
  by (metis enc_less_iff less_irrefl linorder_neqE)

lemma enc_le_iff: "enc v \<le> enc w \<longleftrightarrow> v \<le> w"
  by (metis enc_less_iff leD leI)

lemma key_le_iff: "p @ enc v \<le> p @ enc w \<longleftrightarrow> v \<le> w"
  by (simp add: enc_le_iff)

end

text \<open>The encoding as the store uses it: \<open>EncodeHeight\<close> returns for every height.\<close>

definition encode_height :: "u32 \<Rightarrow> bytes" where
  "encode_height v = (case EncodeHeight v of Some bs \<Rightarrow> bs | None \<Rightarrow> [])"

lemma encode_height_eq: "encode_height v = map of_nat (enc_spec (unat v))"
  by (simp add: encode_height_def EncodeHeight_refines)

lemma encode_height_less:
  assumes "v < w"
  shows "encode_height v < encode_height w"
proof -
  have "enc_spec (unat v) < enc_spec (unat w)"
    using assms by (simp add: enc_spec_mono word_less_nat_alt)
  then show ?thesis
    using enc_spec_range [of _ v] enc_spec_range [of _ w]
    by (subst (1 2) encode_height_eq) (subst map_less_iff, auto simp: of_nat_byte_less_iff)
qed

interpretation lex: height_codec encode_height
  by unfold_locales (rule encode_height_less)

lemma encode_height_length: "2 \<le> length (encode_height v) \<and> length (encode_height v) \<le> 8"
proof -
  have "length (dig ((unat v - 8258175) div 255)) \<le> 4"
    using unat_u32_less [of v] by (simp add: length_dig_le div_less_iff_less_mult)
  then show ?thesis by (auto simp: encode_height_eq enc_spec_def Let_def)
qed

section \<open>Properties\<close>

text \<open>\<open>EncodeHeight\<close> returns for every \<^verbatim>\<open>uint32\<close> (its digit-counting loop stops although
  \<^verbatim>\<open>pow\<close> wraps around), with two to eight bytes.\<close>

theorem EncodeHeight_returns:
  "\<exists>bs. EncodeHeight v = Some bs \<and> 2 \<le> length bs \<and> length bs \<le> 8"
  using encode_height_length [of v] by (simp add: encode_height_def EncodeHeight_refines)

text \<open>C39: the encoding is comparable in numeric order, for all pairs of heights.\<close>

theorem EncodeHeight_order:
  "\<exists>x y. EncodeHeight v = Some x \<and> EncodeHeight w = Some y \<and>
     (x < y \<longleftrightarrow> v < w) \<and> (x = y \<longleftrightarrow> v = w)"
  using lex.enc_less_iff [of v w] lex.enc_inj [of v w]
  by (simp add: encode_height_def EncodeHeight_refines)

text \<open>C40: \<open>DecodeHeight\<close> returns every height from its encoding.\<close>

theorem DecodeHeight_EncodeHeight:
  "\<exists>bs. EncodeHeight v = Some bs \<and> DecodeHeight bs = Ok v"
  by (simp add: EncodeHeight_refines decode_enc_spec)

text \<open>\<open>DecodeHeight\<close> gives a value or an error on every input: no index it computes is
  out of range.\<close>

theorem DecodeHeight_safe: "DecodeHeight d \<noteq> Panic"
  by (auto simp: DecodeHeight_def res_simps decode_loop_no_panic split: prod.splits)

text \<open>the square-and-multiply loop computes the power, modulo \<open>2 ^ 32\<close>.\<close>

theorem pow_is_power: "pow a b = a ^ unat b"
  by (rule pow_eq)

end
