(* ===== verification/Errors.thy ===== *)
theory Errors
  imports Prelude
begin

text \<open>
  src/services/errors.go: the table of API errors, the registration of each error at
  package initialisation and the constructors that attach a cause. An \<^verbatim>\<open>error\<close> value of Go is
  kept unrendered: the format string of \<^verbatim>\<open>fmt.Errorf\<close> with its arguments, or the text a
  library returned.
\<close>

datatype go_error = Errorf string "err_arg list" | ExtError string
  and err_arg = ArgInt int | ArgStr string | ArgBytes bytes | ArgErr go_error

text \<open>\<^verbatim>\<open>types.Error\<close> of the Rosetta SDK; \<^verbatim>\<open>Details\<close> only ever holds the key \<^verbatim>\<open>"error"\<close>.\<close>

record xerror =
  err_code :: int
  err_message :: string
  err_retriable :: bool
  err_details :: "go_error option"

definition mk_error :: "int \<Rightarrow> string \<Rightarrow> bool \<Rightarrow> xerror" where
  "mk_error code msg retriable =
     \<lparr>err_code = code, err_message = msg, err_retriable = retriable, err_details = None\<rparr>"

section \<open>The table\<close>

definition errNotImplemented :: xerror where
  "errNotImplemented = mk_error 101 ''method not implemented'' False"
definition errOfflineMode :: xerror where
  "errOfflineMode = mk_error 102 ''method not available in offline mode'' False"
definition errCurrencyNotDefined :: xerror where
  "errCurrencyNotDefined = mk_error 201 ''currency not defined'' True"
definition errDatastore :: xerror where
  "errDatastore = mk_error 301 ''datastore error'' True"
definition errDatastoreConflict :: xerror where
  "errDatastoreConflict = mk_error 302 ''datastore transaction conflict'' True"
definition errDatastoreConsistency :: xerror where
  "errDatastoreConsistency = mk_error 303 ''datastore consistency failure'' True"
definition errInternal :: xerror where
  "errInternal = mk_error 304 ''unexpected internal error'' True"
definition errNonceGenerationFailed :: xerror where
  "errNonceGenerationFailed = mk_error 305 ''nonce generation failed'' True"
definition errProtobuf :: xerror where
  "errProtobuf = mk_error 306 ''protobuf error'' False"
definition errInvalidAccountAddress :: xerror where
  "errInvalidAccountAddress = mk_error 401 ''invalid account address'' False"
definition errInvalidBlockHash :: xerror where
  "errInvalidBlockHash = mk_error 402 ''invalid block hash'' False"
definition errInvalidBlockIdentifier :: xerror where
  "errInvalidBlockIdentifier = mk_error 403 ''invalid block identifier'' False"
definition errInvalidBlockIndex :: xerror where
  "errInvalidBlockIndex = mk_error 404 ''invalid block index'' False"
definition errInvalidConstructOptions :: xerror where
  "errInvalidConstructOptions = mk_error 405 ''invalid construct options'' False"
definition errInvalidContractAddress :: xerror where
  "errInvalidContractAddress = mk_error 406 ''invalid contract address'' False"
definition errInvalidCurrency :: xerror where
  "errInvalidCurrency = mk_error 407 ''invalid currency'' False"
definition errInvalidGasLimit :: xerror where
  "errInvalidGasLimit = mk_error 408 ''invalid gas limit'' False"
definition errInvalidGasPrice :: xerror where
  "errInvalidGasPrice = mk_error 409 ''invalid gas price'' False"
definition errInvalidNonce :: xerror where
  "errInvalidNonce = mk_error 410 ''invalid nonce'' False"
definition errInvalidOpsIntent :: xerror where
  "errInvalidOpsIntent = mk_error 411 ''invalid ops intent'' False"
definition errInvalidPayerAddress :: xerror where
  "errInvalidPayerAddress = mk_error 412 ''invalid payer address'' False"
definition errInvalidPublicKey :: xerror where
  "errInvalidPublicKey = mk_error 413 ''invalid public key'' False"
definition errInvalidRequestField :: xerror where
  "errInvalidRequestField = mk_error 414 ''invalid request field'' False"
definition errInvalidSignature :: xerror where
  "errInvalidSignature = mk_error 415 ''invalid signature'' False"
definition errInvalidTransactionHash :: xerror where
  "errInvalidTransactionHash = mk_error 416 ''invalid transaction hash'' False"
definition errInvalidTransactionPayload :: xerror where
  "errInvalidTransactionPayload = mk_error 417 ''invalid transaction payload'' False"
definition errBroadcastFailed :: xerror where
  "errBroadcastFailed = mk_error 501 ''broadcast failed'' True"
definition errTransactionNotInMempool :: xerror where
  "errTransactionNotInMempool = mk_error 502 ''transaction not in mempool'' True"
definition errUnknownBlockHash :: xerror where
  "errUnknownBlockHash = mk_error 503 ''unknown block hash'' True"
definition errUnknownBlockIndex :: xerror where
  "errUnknownBlockIndex = mk_error 504 ''unknown block index'' True"

text \<open>The \<^verbatim>\<open>var\<close> declarations in source order: what package initialisation registers.\<close>

definition error_decls :: "xerror list" where
  "error_decls =
     [errNotImplemented, errOfflineMode, errCurrencyNotDefined, errDatastore,
      errDatastoreConflict, errDatastoreConsistency, errInternal, errNonceGenerationFailed,
      errProtobuf, errInvalidAccountAddress, errInvalidBlockHash, errInvalidBlockIdentifier,
      errInvalidBlockIndex, errInvalidConstructOptions, errInvalidContractAddress,
      errInvalidCurrency, errInvalidGasLimit, errInvalidGasPrice, errInvalidNonce,
      errInvalidOpsIntent, errInvalidPayerAddress, errInvalidPublicKey, errInvalidRequestField,
      errInvalidSignature, errInvalidTransactionHash, errInvalidTransactionPayload,
      errBroadcastFailed, errTransactionNotInMempool, errUnknownBlockHash, errUnknownBlockIndex]"

lemmas error_defs =
  errNotImplemented_def errOfflineMode_def errCurrencyNotDefined_def errDatastore_def
  errDatastoreConflict_def errDatastoreConsistency_def errInternal_def
  errNonceGenerationFailed_def errProtobuf_def errInvalidAccountAddress_def
  errInvalidBlockHash_def errInvalidBlockIdentifier_def errInvalidBlockIndex_def
  errInvalidConstructOptions_def errInvalidContractAddress_def errInvalidCurrency_def
  errInvalidGasLimit_def errInvalidGasPrice_def errInvalidNonce_def errInvalidOpsIntent_def
  errInvalidPayerAddress_def errInvalidPublicKey_def errInvalidRequestField_def
  errInvalidSignature_def errInvalidTransactionHash_def errInvalidTransactionPayload_def
  errBroadcastFailed_def errTransactionNotInMempool_def errUnknownBlockHash_def
  errUnknownBlockIndex_def

section \<open>Registration and wrapping\<close>

record err_registry =
  errorCodes :: "int \<rightharpoonup> xerror"
  serverErrors :: "xerror list"

text \<open>
  \<^verbatim>\<open>newError\<close> panics on a code that \<^verbatim>\<open>errorCodes\<close> holds, and appends to \<^verbatim>\<open>serverErrors\<close>.
  It never writes \<^verbatim>\<open>errorCodes\<close>.
\<close>

definition newError :: "err_registry \<Rightarrow> int \<Rightarrow> string \<Rightarrow> bool \<Rightarrow> (go_error, xerror \<times> err_registry) res" where
  "newError r code msg retriable =
     (case errorCodes r code of
        Some prev \<Rightarrow> Panic
      | None \<Rightarrow>
          (let err = mk_error code msg retriable
           in Ok (err, r\<lparr>serverErrors := serverErrors r @ [err]\<rparr>)))"

definition empty_registry :: err_registry where
  "empty_registry = \<lparr>errorCodes = Map.empty, serverErrors = []\<rparr>"

fun register_all :: "err_registry \<Rightarrow> xerror list \<Rightarrow> (go_error, err_registry) res" where
  "register_all r [] = Ok r"
| "register_all r (e # es) =
     bind_res (newError r (err_code e) (err_message e) (err_retriable e))
       (\<lambda>(_, r'). register_all r' es)"

definition wrapErr :: "xerror \<Rightarrow> go_error \<Rightarrow> xerror" where
  "wrapErr xerr err = xerr\<lparr>err_details := Some err\<rparr>"

definition invalidConstructf :: "string \<Rightarrow> err_arg list \<Rightarrow> xerror" where
  "invalidConstructf format args =
     wrapErr errInvalidConstructOptions (Errorf (''services: '' @ format) args)"

definition invalidCurrencyf :: "string \<Rightarrow> err_arg list \<Rightarrow> xerror" where
  "invalidCurrencyf format args =
     wrapErr errInvalidCurrency (Errorf (''services: '' @ format) args)"

definition invalidOpsf :: "string \<Rightarrow> err_arg list \<Rightarrow> xerror" where
  "invalidOpsf format args =
     wrapErr errInvalidOpsIntent (Errorf (''services: '' @ format) args)"

lemma err_code_wrapErr [simp]: "err_code (wrapErr e d) = err_code e"
  by (simp add: wrapErr_def)

lemma register_all_plain:
  assumes "\<And>e. e \<in> set es \<Longrightarrow> err_details e = None" and "errorCodes r = Map.empty"
  shows "register_all r es = Ok (r\<lparr>serverErrors := serverErrors r @ es\<rparr>)"
  using assms
proof (induction es arbitrary: r)
  case Nil
  then show ?case by simp
next
  case (Cons e es)
  have "mk_error (err_code e) (err_message e) (err_retriable e) = e"
    using Cons.prems(1) [of e] by (cases e) (simp add: mk_error_def)
  then show ?case using Cons by (simp add: newError_def)
qed

lemma error_decls_plain: "e \<in> set error_decls \<Longrightarrow> err_details e = None"
  by (auto simp: error_decls_def error_defs mk_error_def)

section \<open>Properties\<close>

text \<open>Initialisation registers the errors in source order without panicking; the codes
  are pairwise different, and the retriable ones are those of the 2xx, 30x and 5xx groups
  but for the protobuf error.\<close>

theorem error_table:
  "\<exists>r. register_all empty_registry error_decls = Ok r \<and>
       serverErrors r = error_decls \<and> distinct (map err_code error_decls) \<and>
       filter err_retriable error_decls =
         filter (\<lambda>e. err_code e \<in> {201, 301, 302, 303, 304, 305} \<or> 500 < err_code e) error_decls"
  using register_all_plain [of error_decls empty_registry] error_decls_plain
  by (simp add: empty_registry_def) (simp add: error_decls_def error_defs mk_error_def)

text \<open>The duplicate check of \<open>newError\<close> is dead: from the initial registry, registering
  the same code twice succeeds, because no call records the code.\<close>

theorem newError_duplicate_accepted:
  "\<exists>r e e'. register_all empty_registry [mk_error c m b, mk_error c m' b'] = Ok r \<and>
     serverErrors r = [e, e'] \<and> err_code e = c \<and> err_code e' = c"
  by (simp add: newError_def empty_registry_def mk_error_def Let_def)

end
