(* ===== verification/Ontology.thy ===== *)
theory Ontology
  imports Errors
begin

text \<open>
  What the server uses of the Ontology node's packages that are not part of this
  repository (\<^verbatim>\<open>github.com/ontio/ontology/common\<close> and its constants): a record of
  functions that is an argument of every definition that calls them. \<open>env_ok\<close> states
  their documented behaviour, \<open>env0\<close> is a concrete instance. The package-level addresses of
  src/services/services.go are computed from the record, as the Go initialisers do.
\<close>

type_synonym address = bytes  \<comment> \<open>\<^verbatim>\<open>common.Address\<close>, an array of 20 bytes\<close>
type_synonym hash256 = bytes  \<comment> \<open>\<^verbatim>\<open>common.Uint256\<close>, an array of 32 bytes\<close>

record env =
  AddressParseFromBytes :: "bytes \<Rightarrow> string + address"
  AddressFromHexString :: "string \<Rightarrow> string + address"
  AddressFromBase58 :: "string \<Rightarrow> string + address"
  ToBase58 :: "address \<Rightarrow> string"
  ToHexString :: "address \<Rightarrow> string"
  Uint256FromHexString :: "string \<Rightarrow> string + hash256"
  Uint256ParseFromBytes :: "bytes \<Rightarrow> string + hash256"
  Uint256ToHexString :: "hash256 \<Rightarrow> string"
  ToArrayReverse :: "bytes \<Rightarrow> bytes"
  BigIntFromNeoBytes :: "bytes \<Rightarrow> int"
  GWei :: int
  ONG_DECIMALS_V2 :: int
  ONT_DECIMALS_V2 :: int
  ONG_SYMBOL :: string
  ONT_SYMBOL :: string
  MIN_TRANSACTION_GAS :: u64

definition is_addr :: "address \<Rightarrow> bool" where
  "is_addr a \<longleftrightarrow> length a = 20"

definition is_hash :: "hash256 \<Rightarrow> bool" where
  "is_hash h \<longleftrightarrow> length h = 32"

text \<open>
  Documented behaviour: an address is parsed from exactly its 20 bytes; the hexadecimal
  form is that of the reversed bytes; Base58 (with its checksum) can be read back; the same
  for 32-byte hashes.
\<close>

definition parse_ok :: "nat \<Rightarrow> (bytes \<Rightarrow> string + bytes) \<Rightarrow> bool" where
  "parse_ok n f \<longleftrightarrow> (\<forall>bs a. f bs = Inr a \<longleftrightarrow> length bs = n \<and> a = bs)"

definition hex_ok :: "nat \<Rightarrow> (string \<Rightarrow> string + bytes) \<Rightarrow> (bytes \<Rightarrow> string) \<Rightarrow> bool" where
  "hex_ok n f g \<longleftrightarrow>
     (\<forall>s a. f s = Inr a \<longleftrightarrow> length a = n \<and> hex_decode s = Some (rev a)) \<and>
     (\<forall>a. g a = hex_encode (rev a))"

definition base58_ok :: "env \<Rightarrow> bool" where
  "base58_ok E \<longleftrightarrow>
     (\<forall>a. is_addr a \<longrightarrow> AddressFromBase58 E (ToBase58 E a) = Inr a) \<and>
     (\<forall>s a. AddressFromBase58 E s = Inr a \<longrightarrow> is_addr a)"

definition env_ok :: "env \<Rightarrow> bool" where
  "env_ok E \<longleftrightarrow>
     parse_ok 20 (AddressParseFromBytes E) \<and>
     hex_ok 20 (AddressFromHexString E) (ToHexString E) \<and>
     parse_ok 32 (Uint256ParseFromBytes E) \<and>
     hex_ok 32 (Uint256FromHexString E) (Uint256ToHexString E) \<and>
     base58_ok E \<and>
     (\<forall>bs. ToArrayReverse E bs = rev bs) \<and>
     0 < GWei E"

section \<open>Addresses of the native contracts\<close>

definition mustHexAddr :: "env \<Rightarrow> string \<Rightarrow> (go_error, address) res" where
  "mustHexAddr E s = (case AddressFromHexString E s of Inl e \<Rightarrow> Panic | Inr a \<Rightarrow> Ok a)"

text \<open>
  The package variables; a panic of an initialiser stops the program before any function
  of the package runs, so the functions read the value of the successful case.
\<close>

definition govAddr :: "env \<Rightarrow> address" where
  "govAddr E = ok_val (mustHexAddr E ''0700000000000000000000000000000000000000'')"

definition nullAddr :: "env \<Rightarrow> address" where
  "nullAddr E = ok_val (mustHexAddr E ''0000000000000000000000000000000000000000'')"

definition ongAddr :: "env \<Rightarrow> address" where
  "ongAddr E = ok_val (mustHexAddr E ''0200000000000000000000000000000000000000'')"

definition ontAddr :: "env \<Rightarrow> address" where
  "ontAddr E = ok_val (mustHexAddr E ''0100000000000000000000000000000000000000'')"

section \<open>Consequences of the documented behaviour\<close>

lemma parse_addr_iff:
  "env_ok E \<Longrightarrow> AddressParseFromBytes E bs = Inr a \<longleftrightarrow> is_addr bs \<and> a = bs"
  by (auto simp: env_ok_def parse_ok_def is_addr_def)

lemma parse_addr_Inr [simp]: "env_ok E \<Longrightarrow> is_addr a \<Longrightarrow> AddressParseFromBytes E a = Inr a"
  by (simp add: parse_addr_iff)

lemma parse_hash_iff:
  "env_ok E \<Longrightarrow> Uint256ParseFromBytes E bs = Inr a \<longleftrightarrow> is_hash bs \<and> a = bs"
  by (auto simp: env_ok_def parse_ok_def is_hash_def)

lemma parse_hash_Inr [simp]: "env_ok E \<Longrightarrow> is_hash a \<Longrightarrow> Uint256ParseFromBytes E a = Inr a"
  by (simp add: parse_hash_iff)

lemma addr_hex_iff:
  "env_ok E \<Longrightarrow> AddressFromHexString E s = Inr a \<longleftrightarrow> is_addr a \<and> hex_decode s = Some (rev a)"
  by (auto simp: env_ok_def hex_ok_def is_addr_def)

lemma hash_hex_iff:
  "env_ok E \<Longrightarrow> Uint256FromHexString E s = Inr a \<longleftrightarrow> is_hash a \<and> hex_decode s = Some (rev a)"
  by (auto simp: env_ok_def hex_ok_def is_hash_def)

lemma addr_hex_roundtrip [simp]:
  "env_ok E \<Longrightarrow> is_addr a \<Longrightarrow> AddressFromHexString E (ToHexString E a) = Inr a"
  by (simp add: addr_hex_iff) (simp add: env_ok_def hex_ok_def hex_decode_encode)

lemma hash_hex_roundtrip [simp]:
  "env_ok E \<Longrightarrow> is_hash a \<Longrightarrow> Uint256FromHexString E (Uint256ToHexString E a) = Inr a"
  by (simp add: hash_hex_iff) (simp add: env_ok_def hex_ok_def hex_decode_encode)

lemma addr_base58_roundtrip [simp]:
  "env_ok E \<Longrightarrow> is_addr a \<Longrightarrow> AddressFromBase58 E (ToBase58 E a) = Inr a"
  by (simp add: env_ok_def base58_ok_def)

lemma addr_base58_is_addr: "env_ok E \<Longrightarrow> AddressFromBase58 E s = Inr a \<Longrightarrow> is_addr a"
  by (simp add: env_ok_def base58_ok_def)

lemma ToHexString_inj:
  "env_ok E \<Longrightarrow> ToHexString E a = ToHexString E b \<longleftrightarrow> a = b"
  by (simp add: env_ok_def hex_ok_def hex_encode_inj)

text \<open>The value of an initialiser whose string decodes to 20 bytes.\<close>

lemma mustHexAddr_val:
  assumes "env_ok E" and "hex_decode s = Some (rev a)" and "is_addr a"
  shows "mustHexAddr E s = Ok a"
  using assms by (simp add: mustHexAddr_def addr_hex_iff [THEN iffD2])

lemma hex_decode_step [simp]:
  "hex_decode (CHR ''0'' # CHR ''0'' # cs) = map_option (\<lambda>bs. 0 # bs) (hex_decode cs)"
  by (auto simp: hex_val_def split: option.split)

lemma native_addrs:
  assumes "env_ok E"
  shows "ongAddr E = replicate 19 0 @ [2]" and "ontAddr E = replicate 19 0 @ [1]"
    and "govAddr E = replicate 19 0 @ [7]" and "nullAddr E = replicate 20 0"
  using assms
  by (simp_all add: ongAddr_def ontAddr_def govAddr_def nullAddr_def is_addr_def
      mustHexAddr_val [of E _ "replicate 19 0 @ [2]"] mustHexAddr_val [of E _ "replicate 19 0 @ [1]"]
      mustHexAddr_val [of E _ "replicate 19 0 @ [7]"] mustHexAddr_val [of E _ "replicate 20 0"]
      hex_val_def numeral_eq_Suc)

lemma native_addrs_is_addr [simp]:
  assumes "env_ok E"
  shows "is_addr (ongAddr E)" "is_addr (ontAddr E)" "is_addr (govAddr E)" "is_addr (nullAddr E)"
  using assms by (simp_all add: native_addrs is_addr_def)

lemma native_addrs_neq [simp]:
  assumes "env_ok E"
  shows "ongAddr E \<noteq> ontAddr E" "ontAddr E \<noteq> ongAddr E" "ongAddr E \<noteq> govAddr E"
    "govAddr E \<noteq> ongAddr E" "ongAddr E \<noteq> nullAddr E" "nullAddr E \<noteq> ongAddr E"
    "ontAddr E \<noteq> govAddr E" "govAddr E \<noteq> ontAddr E" "ontAddr E \<noteq> nullAddr E"
    "nullAddr E \<noteq> ontAddr E" "govAddr E \<noteq> nullAddr E" "nullAddr E \<noteq> govAddr E"
proof -
  have "nullAddr E = replicate 19 0 @ [0]"
    using assms by (simp add: native_addrs numeral_eq_Suc)
  with assms show "ongAddr E \<noteq> ontAddr E" "ontAddr E \<noteq> ongAddr E" "ongAddr E \<noteq> govAddr E"
    "govAddr E \<noteq> ongAddr E" "ongAddr E \<noteq> nullAddr E" "nullAddr E \<noteq> ongAddr E"
    "ontAddr E \<noteq> govAddr E" "govAddr E \<noteq> ontAddr E" "ontAddr E \<noteq> nullAddr E"
    "nullAddr E \<noteq> ontAddr E" "govAddr E \<noteq> nullAddr E" "nullAddr E \<noteq> govAddr E"
    by (simp_all add: native_addrs(1-3))
qed

section \<open>A concrete instance\<close>

text \<open>
  Base58 is replaced by hexadecimal digits, which can be read back as well; the numbers are
  those the README shows.
\<close>

definition parse0 :: "nat \<Rightarrow> bytes \<Rightarrow> string + bytes" where
  "parse0 n bs = (if length bs = n then Inr bs else Inl ''invalid length'')"

definition from_hex0 :: "nat \<Rightarrow> string \<Rightarrow> string + bytes" where
  "from_hex0 n s =
     (case hex_decode s of
        None \<Rightarrow> Inl ''invalid hex''
      | Some bs \<Rightarrow> if length bs = n then Inr (rev bs) else Inl ''invalid length'')"

definition env0 :: env where
  "env0 =
     \<lparr>AddressParseFromBytes = parse0 20,
      AddressFromHexString = from_hex0 20,
      AddressFromBase58 = from_hex0 20,
      ToBase58 = (\<lambda>a. hex_encode (rev a)),
      ToHexString = (\<lambda>a. hex_encode (rev a)),
      Uint256FromHexString = from_hex0 32,
      Uint256ParseFromBytes = parse0 32,
      Uint256ToHexString = (\<lambda>a. hex_encode (rev a)),
      ToArrayReverse = rev,
      BigIntFromNeoBytes = (\<lambda>bs. big_set_bytes (rev bs)),
      GWei = 1000000000,
      ONG_DECIMALS_V2 = 18,
      ONT_DECIMALS_V2 = 9,
      ONG_SYMBOL = ''ONG'',
      ONT_SYMBOL = ''ONT'',
      MIN_TRANSACTION_GAS = 20000\<rparr>"

lemma env0_simps [simp]:
  "ToBase58 env0 a = hex_encode (rev a)" "ToHexString env0 a = hex_encode (rev a)"
  "BigIntFromNeoBytes env0 bs = big_set_bytes (rev bs)" "GWei env0 = 1000000000"
  "ONG_DECIMALS_V2 env0 = 18" "ONT_DECIMALS_V2 env0 = 9" "ONG_SYMBOL env0 = ''ONG''"
  "ONT_SYMBOL env0 = ''ONT''" "MIN_TRANSACTION_GAS env0 = 20000"
  by (simp_all add: env0_def)

lemma from_hex0_iff: "from_hex0 n s = Inr a \<longleftrightarrow> length a = n \<and> hex_decode s = Some (rev a)"
proof (cases "hex_decode s")
  case (Some bs)
  have "rev bs = a \<longleftrightarrow> bs = rev a" by (rule rev_swap)
  with Some show ?thesis by (auto simp: from_hex0_def simp del: rev_is_rev_conv)
qed (simp add: from_hex0_def)

lemma parse_ok_parse0: "parse_ok n (parse0 n)"
  by (auto simp: parse_ok_def parse0_def)

lemma hex_ok_from_hex0: "hex_ok n (from_hex0 n) (\<lambda>a. hex_encode (rev a))"
  by (simp add: hex_ok_def from_hex0_iff)

lemma base58_ok_env0: "base58_ok env0"
  by (simp add: base58_ok_def env0_def is_addr_def from_hex0_iff hex_decode_encode)

lemma env_ok_env0 [simp]: "env_ok env0"
  using base58_ok_env0
  by (simp add: env_ok_def) (simp add: env0_def parse_ok_parse0 hex_ok_from_hex0)

end
