(* ===== verification/Keys.thy ===== *)
theory Keys
  imports Ontology Lexinum "HOL-Library.Sublist"
begin

text \<open>
  The key layout of the data store (src/services/store.go): compressed addresses
  (\<^verbatim>\<open>addr2slice\<close>, \<^verbatim>\<open>slice2addr\<close>, \<^verbatim>\<open>decompressAddr\<close>), the key builders, and the splitting of an account
  key that \<^verbatim>\<open>Validate\<close> does. The locale \<open>prefix_code\<close> is what the account keys need of the
  address encoding: no encoding is a prefix of another, so a key determines its account and
  its contract, and a key prefix selects exactly the entries of one of them.
\<close>

section \<open>Compressed addresses\<close>

definition addr2slice :: "env \<Rightarrow> address \<Rightarrow> bytes" where
  "addr2slice E addr =
     (if addr = ongAddr E then [1, 2]
      else if addr = ontAddr E then [1, 1]
      else if addr = govAddr E then [1, 7]
      else if addr = nullAddr E then [1, 0]
      else [0] @ addr)"

definition slice2addr :: "env \<Rightarrow> bytes \<Rightarrow> (go_error, address) res" where
  "slice2addr E xs =
     (if length xs = 2 then
        (if xs ! 0 \<noteq> 1 then Err (Errorf ''services: unexpected slice address value: %x'' [ArgBytes xs])
         else if xs ! 1 = 2 then Ok (ongAddr E)
         else if xs ! 1 = 1 then Ok (ontAddr E)
         else if xs ! 1 = 7 then Ok (govAddr E)
         else if xs ! 1 = 0 then Ok (nullAddr E)
         else Err (Errorf ''services: unexpected slice address value: %x'' [ArgBytes xs]))
      else if length xs = 0 then Err (Errorf ''services: empty slice address value'' [])
      else
        (case AddressParseFromBytes E (drop 1 xs) of
           Inl err \<Rightarrow> Err (Errorf ''services: failed to decode slice address value %x: %s''
             [ArgBytes xs, ArgErr (ExtError err)])
         | Inr addr \<Rightarrow> Ok addr))"

text \<open>\<^verbatim>\<open>decompressAddr\<close> does not look at the first byte; \<^verbatim>\<open>xs[1:]\<close> of an empty slice panics.\<close>

definition decompressAddr :: "env \<Rightarrow> bytes \<Rightarrow> (go_error, address) res" where
  "decompressAddr E xs =
     (if length xs = 2 then
        (if xs ! 1 = 2 then Ok (ongAddr E)
         else if xs ! 1 = 1 then Ok (ontAddr E)
         else if xs ! 1 = 7 then Ok (govAddr E)
         else if xs ! 1 = 0 then Ok (nullAddr E)
         else Panic)
      else if length xs = 0 then Panic
      else
        (case AddressParseFromBytes E (drop 1 xs) of
           Inl err \<Rightarrow> Panic
         | Inr addr \<Rightarrow> Ok addr))"

definition isNull :: "bytes \<Rightarrow> bool" where
  "isNull v \<longleftrightarrow> length v = 1 \<and> v ! 0 = 0"

section \<open>Keys\<close>

text \<open>The first bytes: \<^verbatim>\<open>'a'\<close> to \<^verbatim>\<open>'e'\<close>, and the literal key \<^verbatim>\<open>"height"\<close>.\<close>

definition accountKeyPrefix :: "bytes \<Rightarrow> bytes \<Rightarrow> bytes" where
  "accountKeyPrefix acct contract = ([97] @ acct) @ contract"

definition blockKey :: "u32 \<Rightarrow> bytes" where
  "blockKey height = copy_at ((replicate 5 0)[0 := 98]) 1 (le_put32 height)"

definition blockHash2HeightKey :: "bytes \<Rightarrow> bytes" where
  "blockHash2HeightKey hash = copy_at ((replicate 33 0)[0 := 99]) 1 hash"

definition blockHeight2HashKey :: "u32 \<Rightarrow> bytes" where
  "blockHeight2HashKey height = copy_at ((replicate 5 0)[0 := 100]) 1 (le_put32 height)"

text \<open>Written out in \<^verbatim>\<open>checkUnsignedTxHash\<close> and in \<^verbatim>\<open>setBlock\<close>.\<close>

definition txnHashKey :: "bytes \<Rightarrow> bytes" where
  "txnHashKey hash = copy_at ((replicate 33 0)[0 := 101]) 1 hash"

text \<open>\<^verbatim>\<open>[]byte("height")\<close>\<close>

definition heightKey :: bytes where
  "heightKey = [104, 101, 105, 103, 104, 116]"

text \<open>
  \<^verbatim>\<open>key := make([]byte, len(prefix)+len(h)); n := copy(key, prefix); copy(key[n:], h)\<close>,
  as \<^verbatim>\<open>IndexBlocks\<close> and \<^verbatim>\<open>getBalance\<close> build an account key.
\<close>

definition accountKey :: "bytes \<Rightarrow> bytes \<Rightarrow> bytes" where
  "accountKey pre hval =
     (let key = replicate (length pre + length hval) 0;
          key' = copy_at key 0 pre
      in copy_at key' (length pre) hval)"

text \<open>
  How \<^verbatim>\<open>Validate\<close> cuts an account key: the offsets of the contract and of the height, then
  the account and the contract. A slice bound beyond the key counts as a panic.
\<close>

definition slice_len :: "byte \<Rightarrow> nat option" where
  "slice_len b = (if b = 1 then Some 2 else if b = 0 then Some 21 else None)"

definition split_account_key :: "env \<Rightarrow> bytes \<Rightarrow> (go_error, bytes \<times> address \<times> address \<times> bool) res" where
  "split_account_key E key =
     (if length key \<le> 1 then Panic else
      case slice_len (key ! 1) of
        None \<Rightarrow> Err (Errorf ''invalid account key found: %q'' [ArgBytes key])
      | Some n \<Rightarrow>
          (let start = 1 + n in
           if length key \<le> start then Panic else
           case slice_len (key ! start) of
             None \<Rightarrow> Err (Errorf ''invalid account key found: %q'' [ArgBytes key])
           | Some m \<Rightarrow>
               (let stop = start + m in
                if length key < stop then Panic else
                bind_res (decompressAddr E (drop 1 (take start key))) (\<lambda>acct.
                bind_res (decompressAddr E (drop start (take stop key))) (\<lambda>contract.
                Ok (take stop key, acct, contract, key ! start = 1))))))"

section \<open>Prefix codes\<close>

locale prefix_code =
  fixes code :: "'a \<Rightarrow> bytes" and valid :: "'a \<Rightarrow> bool"
  assumes prefix_free:
    "valid a \<Longrightarrow> valid b \<Longrightarrow> code a @ xs = code b @ ys \<Longrightarrow> a = b"
begin

lemma code_append_iff:
  "valid a \<Longrightarrow> valid b \<Longrightarrow> code a @ xs = code b @ ys \<longleftrightarrow> a = b \<and> xs = ys"
  using prefix_free by auto

lemma code_inj: "valid a \<Longrightarrow> valid b \<Longrightarrow> code a = code b \<longleftrightarrow> a = b"
  using code_append_iff [of a b "[]" "[]"] by simp

lemma prefix_code_iff:
  "valid a \<Longrightarrow> valid b \<Longrightarrow> prefix (code a) (code b @ ys) \<longleftrightarrow> a = b"
  by (metis code_append_iff prefix_def)

lemma pair_prefix_iff:
  "valid a \<Longrightarrow> valid b \<Longrightarrow> valid c \<Longrightarrow> valid d \<Longrightarrow>
   prefix (code a @ code c) (code b @ code d @ ys) \<longleftrightarrow> a = b \<and> c = d"
  by (auto simp: prefix_def code_append_iff)

end

lemma addr2slice_cases:
  assumes "env_ok E" and "is_addr a"
  obtains (ong) "a = ongAddr E" "addr2slice E a = [1, 2]"
    | (ont) "a = ontAddr E" "addr2slice E a = [1, 1]"
    | (gov) "a = govAddr E" "addr2slice E a = [1, 7]"
    | (null) "a = nullAddr E" "addr2slice E a = [1, 0]"
    | (other) "a \<notin> {ongAddr E, ontAddr E, govAddr E, nullAddr E}" "addr2slice E a = 0 # a"
proof -
  show thesis
    using assms that unfolding addr2slice_def
    by (auto split: if_splits)
qed

lemma addr2slice_prefix_free:
  assumes "env_ok E" "is_addr a" "is_addr b" "addr2slice E a @ xs = addr2slice E b @ ys"
  shows "a = b"
  using assms(4)
  by (cases rule: addr2slice_cases [OF assms(1,2)]; cases rule: addr2slice_cases [OF assms(1,3)])
    (use assms(2,3) in \<open>auto simp: is_addr_def append_eq_append_conv\<close>)

text \<open>The model's own instance, for any environment with the documented behaviour.\<close>

interpretation addr_code: prefix_code "addr2slice E" "\<lambda>a. env_ok E \<and> is_addr a" for E
  by unfold_locales (blast intro: addr2slice_prefix_free)

lemma length_addr2slice:
  assumes "env_ok E" "is_addr a"
  shows "slice_len (hd (addr2slice E a)) = Some (length (addr2slice E a))" "addr2slice E a \<noteq> []"
  by (cases rule: addr2slice_cases [OF assms]; use assms(2) in \<open>simp add: slice_len_def is_addr_def\<close>)+

lemma slice2addr_addr2slice [simp]:
  assumes "env_ok E" "is_addr a"
  shows "slice2addr E (addr2slice E a) = Ok a"
  by (cases rule: addr2slice_cases [OF assms]; use assms in \<open>simp add: slice2addr_def is_addr_def\<close>)

lemma decompressAddr_addr2slice [simp]:
  assumes "env_ok E" "is_addr a"
  shows "decompressAddr E (addr2slice E a) = Ok a"
  by (cases rule: addr2slice_cases [OF assms]; use assms in \<open>simp add: decompressAddr_def is_addr_def\<close>)

lemma slice2addr_is_addr: "env_ok E \<Longrightarrow> slice2addr E xs = Ok a \<Longrightarrow> is_addr a"
  by (auto simp: slice2addr_def parse_addr_iff split: if_splits sum.splits)

section \<open>The keys written out\<close>

named_theorems key_simps \<open>keys as concatenations\<close>

lemma list_update_0_replicate: "(replicate (Suc n) 0)[0 := b] = [b] @ replicate n (0 :: byte)"
  by simp

lemma blockKey_eq [key_simps]: "blockKey h = 98 # le_put32 h"
  using copy_at_fill [of 1 "[98]" "le_put32 h" 4] by (simp add: blockKey_def numeral_eq_Suc)

lemma blockHeight2HashKey_eq [key_simps]: "blockHeight2HashKey h = 100 # le_put32 h"
  using copy_at_fill [of 1 "[100]" "le_put32 h" 4]
  by (simp add: blockHeight2HashKey_def numeral_eq_Suc)

lemma blockHash2HeightKey_eq [key_simps]: "is_hash h \<Longrightarrow> blockHash2HeightKey h = 99 # h"
  using copy_at_fill [of 1 "[99]" h 32] list_update_0_replicate [of 32 99]
  by (simp add: blockHash2HeightKey_def is_hash_def)

lemma txnHashKey_eq [key_simps]: "is_hash h \<Longrightarrow> txnHashKey h = 101 # h"
  using copy_at_fill [of 1 "[101]" h 32] list_update_0_replicate [of 32 101]
  by (simp add: txnHashKey_def is_hash_def)

lemma accountKeyPrefix_eq [key_simps]: "accountKeyPrefix a c = 97 # a @ c"
  by (simp add: accountKeyPrefix_def)

lemma accountKey_eq [key_simps]: "accountKey p h = p @ h"
  by (simp add: accountKey_def Let_def copy_at_def)

lemma hd_copy_at: "0 < i \<Longrightarrow> xs \<noteq> [] \<Longrightarrow> hd (copy_at xs i ys) = hd xs"
  by (cases xs; cases i) (simp_all add: copy_at_def)

text \<open>The families of keys are told apart by their first byte, whatever the hash bytes are.\<close>

lemma key_heads [simp]:
  "hd (blockKey h) = 98" "hd (blockHash2HeightKey x) = 99" "hd (blockHeight2HashKey h) = 100"
  "hd (txnHashKey x) = 101" "hd heightKey = 104" "hd (accountKeyPrefix a c) = 97"
  by (simp_all add: blockKey_def blockHash2HeightKey_def blockHeight2HashKey_def txnHashKey_def
      heightKey_def accountKeyPrefix_def hd_copy_at list_update_0_replicate [of 4, simplified]
      list_update_0_replicate [of 32, simplified])

lemma keys_ne [simp]:
  "blockKey h \<noteq> []" "blockHash2HeightKey x \<noteq> []" "blockHeight2HashKey h \<noteq> []"
  "txnHashKey x \<noteq> []" "heightKey \<noteq> []"
  by (simp_all add: blockKey_def blockHash2HeightKey_def blockHeight2HashKey_def txnHashKey_def
      heightKey_def copy_at_def)

section \<open>Account entries\<close>

definition acct_prefix :: "env \<Rightarrow> address \<Rightarrow> address \<Rightarrow> bytes" where
  "acct_prefix E acct contract = accountKeyPrefix (addr2slice E acct) (addr2slice E contract)"

definition acct_key :: "env \<Rightarrow> address \<Rightarrow> address \<Rightarrow> u32 \<Rightarrow> bytes" where
  "acct_key E acct contract height = accountKey (acct_prefix E acct contract) (encode_height height)"

lemma acct_key_eq: "acct_key E a c h = acct_prefix E a c @ encode_height h"
  by (simp add: acct_key_def accountKey_eq)

lemma acct_prefix_eq: "acct_prefix E a c = 97 # addr2slice E a @ addr2slice E c"
  by (simp add: acct_prefix_def accountKeyPrefix_eq)

lemma acct_prefix_iff:
  assumes "env_ok E" "is_addr a" "is_addr b" "is_addr c" "is_addr d"
  shows "prefix (acct_prefix E a c) (acct_key E b d h) \<longleftrightarrow> a = b \<and> c = d"
  using assms addr_code.pair_prefix_iff [of E a b c d "encode_height h"]
  by (simp add: acct_key_eq acct_prefix_eq)

lemma acct_key_inj:
  assumes "env_ok E" "is_addr a" "is_addr b" "is_addr c" "is_addr d"
  shows "acct_key E a c h = acct_key E b d k \<longleftrightarrow> a = b \<and> c = d \<and> h = k"
  using assms by (auto simp: acct_key_eq acct_prefix_eq addr_code.code_append_iff lex.enc_inj)

lemma acct_key_le_iff: "acct_key E a c h \<le> acct_key E a c k \<longleftrightarrow> h \<le> k"
  by (simp only: acct_key_eq lex.key_le_iff)

lemma acct_key_hd [simp]: "hd (acct_key E a c h) = 97" "acct_key E a c h \<noteq> []"
  by (simp_all add: acct_key_eq acct_prefix_eq)

text \<open>Whatever lies between two keys with a common prefix has that prefix.\<close>

lemma prefix_sandwich:
  fixes p :: "'a :: linorder list"
  assumes "p @ x \<le> k" and "k \<le> p @ y"
  shows "prefix p k"
  using assms
proof (induction p arbitrary: k)
  case (Cons a p)
  then show ?case by (cases k) auto
qed simp

lemma split_account_key_acct_key:
  assumes "env_ok E" "is_addr a" "is_addr c"
  shows "split_account_key E (acct_key E a c h) =
    Ok (acct_prefix E a c, a, c, hd (addr2slice E c) = 1)"
proof -
  obtain x xs where a: "addr2slice E a = x # xs" using length_addr2slice assms by (metis neq_Nil_conv)
  obtain y ys where c: "addr2slice E c = y # ys" using length_addr2slice assms by (metis neq_Nil_conv)
  have la: "slice_len x = Some (Suc (length xs))" and lc: "slice_len y = Some (Suc (length ys))"
    using length_addr2slice [OF assms(1,2)] length_addr2slice [OF assms(1,3)] a c by simp_all
  have k: "acct_key E a c h = 97 # (x # xs) @ (y # ys) @ encode_height h"
    by (simp add: acct_key_eq acct_prefix_eq a c)
  have "decompressAddr E (x # xs) = Ok a" "decompressAddr E (y # ys) = Ok c"
    using assms decompressAddr_addr2slice by (metis a c)+
  then show ?thesis
    by (simp add: split_account_key_def k la lc Let_def nth_append acct_prefix_eq a c)
qed

end
