(* ===== verification/Model.thy ===== *)
theory Model
  imports Ontology
begin

text \<open>
  The data the components exchange: the messages of src/model/model.proto, the internal
  types of src/services/services.go and the Rosetta SDK's request and response types as far
  as the server reads or writes them. The protobuf codec is an external library: a record
  of functions, with \<open>codec_ok\<close> as its contract.
\<close>

section \<open>Protobuf messages\<close>

record mtransfer =
  mx_amount :: bytes
  mx_contract :: bytes
  mx_from :: bytes
  mx_is_gas :: bool
  mx_to :: bytes

record mtransaction =
  mt_failed :: bool
  mt_hash :: bytes
  mt_transfers :: "mtransfer list"

record mblock =
  mb_timestamp :: u32
  mb_transactions :: "mtransaction list"

record construct_options =
  co_amount :: bytes
  co_contract :: bytes
  co_from :: bytes
  co_gas_limit :: u64
  co_gas_price :: u64
  co_nonce :: u32
  co_payer :: bytes
  co_to :: bytes

definition empty_block :: mblock where
  "empty_block = \<lparr>mb_timestamp = 0, mb_transactions = []\<rparr>"

record codec =
  MarshalBlock :: "mblock \<Rightarrow> string + bytes"
  UnmarshalBlock :: "bytes \<Rightarrow> string + mblock"
  MarshalOptions :: "construct_options \<Rightarrow> string + bytes"
  UnmarshalOptions :: "bytes \<Rightarrow> string + construct_options"

text \<open>What \<^verbatim>\<open>proto.Marshal\<close> produced, \<^verbatim>\<open>proto.Unmarshal\<close> reads back.\<close>

definition codec_ok :: "codec \<Rightarrow> bool" where
  "codec_ok C \<longleftrightarrow>
     (\<forall>b bs. MarshalBlock C b = Inr bs \<longrightarrow> UnmarshalBlock C bs = Inr b) \<and>
     (\<forall>m bs. MarshalOptions C m = Inr bs \<longrightarrow> UnmarshalOptions C bs = Inr m)"

section \<open>JSON values and currencies\<close>

text \<open>
  A JSON number reaches the code as a finite \<^verbatim>\<open>float64\<close>: \<open>FIntegral i\<close> when its value is the
  integer \<open>i\<close>, \<open>FFractional i\<close> when it has a fractional part and \<open>i\<close> is its truncation.
\<close>

datatype float64 = FIntegral int | FFractional int

datatype jval = JString string | JFloat float64 | JOther string

record currency =
  cur_decimals :: int
  cur_symbol :: string
  cur_metadata :: "(string \<rightharpoonup> jval) option"

record currencyInfo =
  ci_contract :: address
  ci_currency :: currency
  ci_wasm :: bool

definition ci_isNative :: "env \<Rightarrow> currencyInfo \<Rightarrow> bool" where
  "ci_isNative E c \<longleftrightarrow> ci_contract c = ongAddr E \<or> ci_contract c = ontAddr E"

record OEP4Token =
  tk_contract :: address
  tk_decimals :: int
  tk_symbol :: string
  tk_wasm :: bool

section \<open>Blocks\<close>

record blockID =
  bid_byHeight :: bool
  bid_hash :: hash256
  bid_height :: u32

record block_identifier =
  bi_index :: int
  bi_hash :: string

record partial_block_identifier =
  pbi_index :: "int option"
  pbi_hash :: "string option"

record blockInfo =
  info_block :: mblock
  info_blockID :: block_identifier
  info_height :: u32
  info_hval :: bytes

definition blockTimestamp :: "blockInfo \<Rightarrow> int" where
  "blockTimestamp b = uint (mb_timestamp (info_block b)) * 1000"

record balanceChange =
  bc_diff :: int
  bc_key :: bytes
  bc_prefix :: bytes

record blockState =
  bs_block :: mblock
  bs_changes :: "balanceChange list"
  bs_hashes :: "bytes list"
  bs_id :: blockID
  bs_synced :: u32

section \<open>Transfers and operations\<close>

record transfer =
  tr_amount :: int
  tr_from :: address
  tr_isGas :: bool
  tr_to :: address

record transferInfo =
  ti_amount :: int
  ti_contract :: address
  ti_currency :: currency
  ti_from :: address
  ti_isGas :: bool
  ti_to :: address

definition ti_isNative :: "env \<Rightarrow> transferInfo \<Rightarrow> bool" where
  "ti_isNative E t \<longleftrightarrow> ti_contract t = ongAddr E \<or> ti_contract t = ontAddr E"

record amount =
  am_value :: string
  am_currency :: "currency option"

record account_identifier =
  ai_address :: string
  ai_sub_account :: "string option"

text \<open>Pointers that a request may leave nil are options; related operations likewise.\<close>

record operation =
  op_identifier :: "int option"
  op_related :: "int option list"
  op_type :: string
  op_status :: "string option"
  op_account :: "account_identifier option"
  op_amount :: "amount option"

definition opBurn :: string where "opBurn = ''burn''"
definition opGasFee :: string where "opGasFee = ''gas_fee''"
definition opMint :: string where "opMint = ''mint''"
definition opTransfer :: string where "opTransfer = ''transfer''"
definition opTypes :: "string list" where "opTypes = [opBurn, opGasFee, opMint, opTransfer]"
definition statusFailed :: string where "statusFailed = ''FAILED''"
definition statusSuccess :: string where "statusSuccess = ''SUCCESS''"

definition defaultGasPrice :: u64 where "defaultGasPrice = 2500"

definition minGasLimit :: "env \<Rightarrow> u64" where
  "minGasLimit E = MIN_TRANSACTION_GAS E"

lemmas op_type_defs = opBurn_def opGasFee_def opMint_def opTransfer_def

end
