(* ===== verification/Badger.thy ===== *)
theory Badger
  imports Keys
begin

text \<open>
  The key-value store under the data store (\<^verbatim>\<open>github.com/dgraph-io/badger\<close>), an external
  service: a record of the operations src/services/store.go calls, over an unspecified type of
  database states. \<open>badger_ok\<close> is the documented behaviour of a healthy database, over an
  abstraction \<open>c\<close> of a state to its contents: reads return what was written, and a reverse
  iterator visits the keys not above the sought one in descending order. \<open>mem_badger\<close>
  is an in-memory instance.
\<close>

datatype berr = ErrConflict | ErrKeyNotFound | ErrOther string

fun berr_error :: "berr \<Rightarrow> go_error" where
  "berr_error ErrConflict = ExtError ''Transaction Conflict. Please retry''"
| "berr_error ErrKeyNotFound = ExtError ''Key not found''"
| "berr_error (ErrOther s) = ExtError s"

text \<open>An item holds its key; reading its value may fail.\<close>

type_synonym item = "bytes \<times> (berr + bytes)"

text \<open>
  \<open>db_seek d k\<close> is what \<^verbatim>\<open>NewIterator(IteratorOptions{Reverse: true})\<close>, \<^verbatim>\<open>Seek(k)\<close> and the following
  \<^verbatim>\<open>Next\<close> calls visit; inside an update transaction it includes the pending writes.
  \<open>db_commit\<close> ends an update.
\<close>

record 'db badger =
  db_get :: "'db \<Rightarrow> bytes \<Rightarrow> berr + item"
  db_set :: "'db \<Rightarrow> bytes \<Rightarrow> bytes \<Rightarrow> berr + 'db"
  db_seek :: "'db \<Rightarrow> bytes \<Rightarrow> item list"
  db_commit :: "'db \<Rightarrow> berr + 'db"

definition scan_ok :: "(bytes \<rightharpoonup> bytes) \<Rightarrow> (bytes \<Rightarrow> bool) \<Rightarrow> item list \<Rightarrow> bool" where
  "scan_ok m P items \<longleftrightarrow>
     sorted_wrt (>) (map fst items) \<and>
     set items = {(k, Inr v) | k v. m k = Some v \<and> P k}"

definition badger_ok :: "'db badger \<Rightarrow> ('db \<Rightarrow> bytes \<rightharpoonup> bytes) \<Rightarrow> bool" where
  "badger_ok B c \<longleftrightarrow>
     (\<forall>d k. k \<noteq> [] \<longrightarrow> db_get B d k =
        (case c d k of None \<Rightarrow> Inl ErrKeyNotFound | Some v \<Rightarrow> Inr (k, Inr v))) \<and>
     (\<forall>d k v d'. db_set B d k v = Inr d' \<longrightarrow> c d' = (c d)(k \<mapsto> v)) \<and>
     (\<forall>d k. scan_ok (c d) (\<lambda>k'. k' \<le> k) (db_seek B d k)) \<and>
     (\<forall>d d'. db_commit B d = Inr d' \<longrightarrow> c d' = c d)"

lemma badger_get:
  "badger_ok B c \<Longrightarrow> k \<noteq> [] \<Longrightarrow>
   db_get B d k = (case c d k of None \<Rightarrow> Inl ErrKeyNotFound | Some v \<Rightarrow> Inr (k, Inr v))"
  by (simp add: badger_ok_def)

lemma badger_set: "badger_ok B c \<Longrightarrow> db_set B d k v = Inr d' \<Longrightarrow> c d' = (c d)(k \<mapsto> v)"
  by (simp add: badger_ok_def)

lemma badger_seek: "badger_ok B c \<Longrightarrow> scan_ok (c d) (\<lambda>k'. k' \<le> k) (db_seek B d k)"
  by (simp add: badger_ok_def)

lemma badger_commit: "badger_ok B c \<Longrightarrow> db_commit B d = Inr d' \<Longrightarrow> c d' = c d"
  by (simp add: badger_ok_def)

section \<open>Scans\<close>

text \<open>The first item of a scan is the greatest key it covers.\<close>

lemma scan_ok_Nil: "scan_ok m P [] \<Longrightarrow> P k \<Longrightarrow> m k = None"
  by (cases "m k") (auto simp: scan_ok_def)

lemma scan_ok_Cons:
  assumes "scan_ok m P (it # items)"
  shows "P (fst it)" "m (fst it) \<noteq> None" "snd it = Inr (the (m (fst it)))"
    "\<And>k. P k \<Longrightarrow> m k \<noteq> None \<Longrightarrow> k \<le> fst it"
proof -
  have "it \<in> {(k, Inr v) | k v. m k = Some v \<and> P k}"
    using assms by (auto simp: scan_ok_def)
  then show "P (fst it)" "m (fst it) \<noteq> None" "snd it = Inr (the (m (fst it)))" by auto
  fix k assume "P k" "m k \<noteq> None"
  then have "(k, Inr (the (m k))) \<in> set (it # items)"
    using assms by (auto simp: scan_ok_def)
  then show "k \<le> fst it" using assms by (auto simp: scan_ok_def)
qed

lemma scan_ok_tl:
  assumes "scan_ok m P (it # items)"
  shows "scan_ok m (\<lambda>k. P k \<and> k \<noteq> fst it) items"
proof -
  have "fst it \<notin> fst ` set items" using assms by (auto simp: scan_ok_def)
  moreover have "set items \<union> {it} = {(k, Inr v) | k v. m k = Some v \<and> P k}"
    using assms by (auto simp: scan_ok_def)
  ultimately have "set items = {(k, Inr v) | k v. m k = Some v \<and> P k \<and> k \<noteq> fst it}"
    by (auto simp: set_eq_iff image_iff) (metis fst_conv prod.collapse)+
  then show ?thesis using assms by (auto simp: scan_ok_def)
qed

lemma scan_ok_cong: "(\<And>k. m k \<noteq> None \<Longrightarrow> P k \<longleftrightarrow> Q k) \<Longrightarrow> scan_ok m P items = scan_ok m Q items"
proof -
  assume "\<And>k. m k \<noteq> None \<Longrightarrow> P k \<longleftrightarrow> Q k"
  then have "{(k, Inr v) | k v. m k = Some v \<and> P k} = {(k, Inr v :: berr + bytes) | k v. m k = Some v \<and> Q k}"
    by auto
  then show ?thesis by (simp add: scan_ok_def)
qed

section \<open>An in-memory instance\<close>

type_synonym mem_db = "(bytes \<times> bytes) list"

definition mem_seek :: "mem_db \<Rightarrow> bytes \<Rightarrow> item list" where
  "mem_seek d k =
     map (\<lambda>k'. (k', case map_of d k' of Some v \<Rightarrow> Inr v | None \<Rightarrow> Inl ErrKeyNotFound))
       (rev (sort (remdups (filter (\<lambda>k'. k' \<le> k) (map fst d)))))"

definition mem_badger :: "mem_db badger" where
  "mem_badger =
     \<lparr>db_get = (\<lambda>d k. case map_of d k of None \<Rightarrow> Inl ErrKeyNotFound | Some v \<Rightarrow> Inr (k, Inr v)),
      db_set = (\<lambda>d k v. Inr ((k, v) # d)),
      db_seek = mem_seek,
      db_commit = Inr\<rparr>"

lemma sorted_wrt_rev_sort_remdups:
  "sorted_wrt (>) (rev (sort (remdups (xs :: 'a :: linorder list))))"
  by (simp add: sorted_wrt_rev) (metis distinct_remdups distinct_sort sorted_sort strict_sorted_iff)

lemma scan_ok_mem_seek: "scan_ok (map_of d) (\<lambda>k'. k' \<le> k) (mem_seek d k)"
proof -
  have dom: "fst ` set d = {k'. \<exists>v. map_of d k' = Some v}"
    using dom_map_of_conv_image_fst [of d] by (auto simp: dom_def)
  have "map fst (mem_seek d k) = rev (sort (remdups (filter (\<lambda>k'. k' \<le> k) (map fst d))))"
    by (simp add: mem_seek_def comp_def)
  moreover have "set (mem_seek d k) = {(k', Inr v) | k' v. map_of d k' = Some v \<and> k' \<le> k}"
  proof (rule set_eqI)
    fix it :: item
    show "it \<in> set (mem_seek d k) \<longleftrightarrow> it \<in> {(k', Inr v) | k' v. map_of d k' = Some v \<and> k' \<le> k}"
      by (cases it) (auto simp: mem_seek_def dom image_iff)
  qed
  ultimately show ?thesis by (simp add: scan_ok_def sorted_wrt_rev_sort_remdups)
qed

lemma badger_ok_mem [simp]: "badger_ok mem_badger map_of"
  by (auto simp: badger_ok_def scan_ok_mem_seek) (simp_all add: mem_badger_def scan_ok_mem_seek)

end
