(* ===== verification/Store.thy ===== *)
theory Store
  imports Badger Model
begin

text \<open>
  The data store of src/services/store.go: its state (the database, the indexed and the
  synced height, the registered currencies) and every operation on it: opening, heights,
  currency checks, block identifiers, block and balance lookups, and the transaction of
  \<^verbatim>\<open>setBlock\<close>. The database, the address library and the protobuf codec are the arguments
  \<open>B\<close>, \<open>E\<close> and \<open>C\<close>. What the operations achieve is in the theories History and Lookup.
\<close>

record 'db store =
  st_db :: 'db
  heightIndexed :: "int option"
  heightSynced :: "int option"
  tokens :: "address \<rightharpoonup> currencyInfo"

section \<open>Opening\<close>

definition native_currency :: "env \<Rightarrow> address \<Rightarrow> int \<Rightarrow> string \<Rightarrow> currencyInfo" where
  "native_currency E addr decimals symbol =
     \<lparr>ci_contract = addr,
      ci_currency = \<lparr>cur_decimals = decimals, cur_symbol = symbol,
        cur_metadata = Some [''contract'' \<mapsto> JString (ToHexString E addr)]\<rparr>,
      ci_wasm = False\<rparr>"

definition oep4_currency :: "env \<Rightarrow> OEP4Token \<Rightarrow> currencyInfo" where
  "oep4_currency E token =
     \<lparr>ci_contract = tk_contract token,
      ci_currency = \<lparr>cur_decimals = tk_decimals token, cur_symbol = tk_symbol token,
        cur_metadata = Some [''contract'' \<mapsto> JString (ToHexString E (tk_contract token))]\<rparr>,
      ci_wasm = tk_wasm token\<rparr>"

definition native_tokens :: "env \<Rightarrow> address \<rightharpoonup> currencyInfo" where
  "native_tokens E =
     [ongAddr E \<mapsto> native_currency E (ongAddr E) (ONG_DECIMALS_V2 E) (ONG_SYMBOL E),
      ontAddr E \<mapsto> native_currency E (ontAddr E) (ONT_DECIMALS_V2 E) (ONT_SYMBOL E)]"

definition make_tokens :: "env \<Rightarrow> OEP4Token list \<Rightarrow> address \<rightharpoonup> currencyInfo" where
  "make_tokens E oep4 =
     foldl (\<lambda>tokens token. tokens(tk_contract token \<mapsto> oep4_currency E token)) (native_tokens E) oep4"

text \<open>
  \<^verbatim>\<open>NewStore\<close>: the result of \<^verbatim>\<open>badger.Open\<close> and of \<^verbatim>\<open>actor.GetCurrentBlockHeight\<close> are arguments. A
  stored height shorter than four bytes panics in \<^verbatim>\<open>Uint32\<close>.
\<close>

definition read_height :: "'db badger \<Rightarrow> 'db \<Rightarrow> (berr, int) res" where
  "read_height B d =
     (case db_get B d heightKey of
        Inl err \<Rightarrow> Err err
      | Inr (_, Inl err) \<Rightarrow> Err err
      | Inr (_, Inr val) \<Rightarrow>
          (case le_get32 val of None \<Rightarrow> Panic | Some height \<Rightarrow> Ok (uint height)))"

definition NewStore ::
  "env \<Rightarrow> 'db badger \<Rightarrow> string + 'db \<Rightarrow> OEP4Token list \<Rightarrow> bool \<Rightarrow> u32 \<Rightarrow> (go_error, 'db store) res" where
  "NewStore E B opened oep4 offline current =
     (let tokens = make_tokens E oep4 in
      case opened of
        Inl err \<Rightarrow> Err (Errorf ''services: failed to open internal data store: %w'' [ArgErr (ExtError err)])
      | Inr d \<Rightarrow>
          if offline then
            Ok \<lparr>st_db = d, heightIndexed = None, heightSynced = None, tokens = tokens\<rparr>
          else
            (case read_height B d of
               Ok height \<Rightarrow>
                 Ok \<lparr>st_db = d, heightIndexed = Some height, heightSynced = Some (uint current), tokens = tokens\<rparr>
             | Err ErrKeyNotFound \<Rightarrow>
                 Ok \<lparr>st_db = d, heightIndexed = None, heightSynced = Some (uint current), tokens = tokens\<rparr>
             | Err err \<Rightarrow>
                 Err (Errorf ''services: failed to read height while opening internal data store: %s''
                   [ArgErr (berr_error err)])
             | Panic \<Rightarrow> Panic))"

text \<open>\<^verbatim>\<open>Close\<close> on a store that may have no database: the line it logs, and the error of badger.\<close>

definition Store_Close :: "('db \<Rightarrow> string option) \<Rightarrow> 'db option \<Rightarrow> string list \<times> string option" where
  "Store_Close badger_close db =
     (case db of
        None \<Rightarrow> ([], None)
      | Some d \<Rightarrow> ([''Closing internal data store''], badger_close d))"

section \<open>Heights\<close>

definition getHeight :: "'db store \<Rightarrow> u32" where
  "getHeight s = (case heightIndexed s of None \<Rightarrow> 0 | Some h \<Rightarrow> word_of_int h)"

definition setHeight :: "'db store \<Rightarrow> int \<Rightarrow> int \<Rightarrow> 'db store" where
  "setHeight s indexed synced = s\<lparr>heightIndexed := Some indexed, heightSynced := Some synced\<rparr>"

record sync_status =
  ss_current :: "int option"
  ss_synced :: bool
  ss_target :: "int option"

text \<open>\<^verbatim>\<open>*s.heightIndexed\<close> is read when \<^verbatim>\<open>heightSynced\<close> is set, and panics if it is nil.\<close>

definition syncStatus :: "'db store \<Rightarrow> (go_error, sync_status) res" where
  "syncStatus s =
     (case heightSynced s of
        None \<Rightarrow> Ok \<lparr>ss_current = heightIndexed s, ss_synced = False, ss_target = None\<rparr>
      | Some t \<Rightarrow>
          (case heightIndexed s of
             None \<Rightarrow> Panic
           | Some i \<Rightarrow> Ok \<lparr>ss_current = Some i, ss_synced = (i = t), ss_target = Some t\<rparr>))"

section \<open>Currencies\<close>

definition getCurrencyInfo :: "'db store \<Rightarrow> address \<Rightarrow> (xerror, currencyInfo) res" where
  "getCurrencyInfo s addr =
     (case tokens s addr of None \<Rightarrow> Err errCurrencyNotDefined | Some c \<Rightarrow> Ok c)"

definition validateCurrency :: "env \<Rightarrow> 'db store \<Rightarrow> currency option \<Rightarrow> (xerror, currencyInfo) res" where
  "validateCurrency E s c =
     (case c of
        None \<Rightarrow> Err (invalidCurrencyf ''currency.metadata field missing'' [])
      | Some cur \<Rightarrow>
     (case cur_metadata cur of
        None \<Rightarrow> Err (invalidCurrencyf ''currency.metadata field missing'' [])
      | Some md \<Rightarrow>
     (case md ''contract'' of
        None \<Rightarrow> Err (invalidCurrencyf ''currency.metadata.contract field missing'' [])
      | Some (JString raw) \<Rightarrow>
          (case AddressFromHexString E raw of
             Inl err \<Rightarrow> Err (invalidCurrencyf ''unable to parse currency.metadata.contract: %s'' [ArgErr (ExtError err)])
           | Inr contract \<Rightarrow>
               (case tokens s contract of
                  None \<Rightarrow> Err (wrapErr errCurrencyNotDefined
                    (Errorf ''services: %s is not defined as a currency'' [ArgStr raw]))
                | Some info \<Rightarrow>
                    if cur_decimals (ci_currency info) \<noteq> cur_decimals cur then
                      Err (invalidCurrencyf ''mismatching decimals value for currency: expected %d, got %d''
                        [ArgInt (cur_decimals (ci_currency info)), ArgInt (cur_decimals cur)])
                    else if cur_symbol (ci_currency info) \<noteq> cur_symbol cur then
                      Err (invalidCurrencyf ''mismatching symbol for currency: expected %q, got %q''
                        [ArgStr (cur_symbol (ci_currency info)), ArgStr (cur_symbol cur)])
                    else Ok info))
      | Some _ \<Rightarrow> Err (invalidCurrencyf ''currency.metadata.contract is not string'' []))))"

section \<open>Transaction hashes\<close>

definition checkUnsignedTxHash :: "'db badger \<Rightarrow> 'db store \<Rightarrow> hash256 \<Rightarrow> (xerror, bool) res" where
  "checkUnsignedTxHash B s hash =
     (case db_get B (st_db s) (txnHashKey hash) of
        Inl ErrKeyNotFound \<Rightarrow> Ok False
      | Inl err \<Rightarrow> Err (wrapErr errDatastore (berr_error err))
      | Inr _ \<Rightarrow> Ok True)"

section \<open>Blocks\<close>

definition UINT256_EMPTY :: hash256 where
  "UINT256_EMPTY = replicate 32 0"

definition empty_id :: blockID where
  "empty_id = \<lparr>bid_byHeight = False, bid_hash = UINT256_EMPTY, bid_height = 0\<rparr>"

definition id_of_height :: "u32 \<Rightarrow> blockID" where
  "id_of_height h = empty_id\<lparr>bid_byHeight := True, bid_height := h\<rparr>"

definition no_block_selected :: "partial_block_identifier option \<Rightarrow> bool" where
  "no_block_selected pid \<longleftrightarrow>
     (case pid of None \<Rightarrow> True | Some p \<Rightarrow> pbi_hash p = None \<and> pbi_index p = None)"

definition getBlockID ::
  "env \<Rightarrow> 'db store \<Rightarrow> partial_block_identifier option \<Rightarrow> bool \<Rightarrow> (xerror, blockID) res" where
  "getBlockID E s pid nullable =
     (if nullable \<and> no_block_selected pid then Ok (id_of_height (getHeight s))
      else
        (case pid of
           None \<Rightarrow> Err errInvalidBlockIdentifier
         | Some p \<Rightarrow>
             if pbi_hash p = None \<and> pbi_index p = None then Err errInvalidBlockIdentifier
             else
               bind_res
                 (case pbi_hash p of
                    None \<Rightarrow> Ok empty_id
                  | Some hs \<Rightarrow>
                      (case Uint256FromHexString E hs of
                         Inl err \<Rightarrow> Err errInvalidBlockHash
                       | Inr hash \<Rightarrow> Ok (empty_id\<lparr>bid_hash := hash\<rparr>)))
                 (\<lambda>bid. case pbi_index p of
                    None \<Rightarrow> Ok bid
                  | Some idx \<Rightarrow>
                      if idx < 0 \<or> 4294967295 < idx then Err errInvalidBlockIndex
                      else Ok (bid\<lparr>bid_byHeight := True, bid_height := word_of_int idx\<rparr>))))"

text \<open>
  The closure that \<^verbatim>\<open>getBlockInfoRaw\<close> passes to \<^verbatim>\<open>db.View\<close>. Its first half resolves the
  identifier: it stops with an error of the database or of the API, or goes on with a
  completed identifier. A hash that does not match sets \<^verbatim>\<open>xerr\<close> and goes on.
\<close>

datatype resolved =
    Stop "berr option" "xerror option"
  | Go "xerror option" blockID
  | Crash

definition resolve_block_id :: "'db badger \<Rightarrow> 'db \<Rightarrow> blockID \<Rightarrow> resolved" where
  "resolve_block_id B d bid =
     (if bid_byHeight bid then
        (case db_get B d (blockHeight2HashKey (bid_height bid)) of
           Inl ErrConflict \<Rightarrow> Stop None (Some errDatastoreConflict)
         | Inl ErrKeyNotFound \<Rightarrow> Stop None (Some errUnknownBlockIndex)
         | Inl err \<Rightarrow> Stop (Some err) None
         | Inr (_, Inl ErrConflict) \<Rightarrow> Stop None (Some errDatastoreConflict)
         | Inr (_, Inl err) \<Rightarrow> Stop (Some err) None
         | Inr (_, Inr val) \<Rightarrow>
             if bid_hash bid \<noteq> UINT256_EMPTY \<and> bid_hash bid \<noteq> copy_at UINT256_EMPTY 0 val
             then Go (Some errInvalidBlockIdentifier) bid
             else Go None (bid\<lparr>bid_hash := copy_at (bid_hash bid) 0 val\<rparr>))
      else
        (case db_get B d (blockHash2HeightKey (bid_hash bid)) of
           Inl ErrConflict \<Rightarrow> Stop None (Some errDatastoreConflict)
         | Inl ErrKeyNotFound \<Rightarrow> Stop None (Some errUnknownBlockHash)
         | Inl err \<Rightarrow> Stop (Some err) None
         | Inr (_, Inl ErrConflict) \<Rightarrow> Stop None (Some errDatastoreConflict)
         | Inr (_, Inl err) \<Rightarrow> Stop (Some err) None
         | Inr (_, Inr val) \<Rightarrow>
             (case le_get32 val of
                None \<Rightarrow> Crash
              | Some height \<Rightarrow>
                  if bid_byHeight bid \<and> bid_height bid \<noteq> height
                  then Go (Some errInvalidBlockIdentifier) bid
                  else Go None (bid\<lparr>bid_height := height\<rparr>))))"

text \<open>The second half reads the block; afterwards \<^verbatim>\<open>xerr\<close> takes precedence over \<^verbatim>\<open>err\<close>.\<close>

definition finish_view ::
  "env \<Rightarrow> go_error option \<Rightarrow> xerror option \<Rightarrow> blockID \<Rightarrow> mblock \<Rightarrow> (xerror, blockInfo) res" where
  "finish_view E err xerr bid block =
     (case xerr of
        Some x \<Rightarrow> Err x
      | None \<Rightarrow>
          (case err of
             Some e \<Rightarrow> Err (wrapErr errDatastore e)
           | None \<Rightarrow>
               Ok \<lparr>info_block = block,
                   info_blockID = \<lparr>bi_index = uint (bid_height bid), bi_hash = Uint256ToHexString E (bid_hash bid)\<rparr>,
                   info_height = bid_height bid,
                   info_hval = encode_height (bid_height bid)\<rparr>))"

definition getBlockInfoRaw ::
  "env \<Rightarrow> 'db badger \<Rightarrow> codec \<Rightarrow> 'db store \<Rightarrow> blockID \<Rightarrow> bool \<Rightarrow> (xerror, blockInfo) res" where
  "getBlockInfoRaw E B C s bid withBlock =
     (case resolve_block_id B (st_db s) bid of
        Crash \<Rightarrow> Panic
      | Stop err xerr \<Rightarrow> finish_view E (map_option berr_error err) xerr bid empty_block
      | Go xerr bid' \<Rightarrow>
          if \<not> withBlock then finish_view E None xerr bid' empty_block
          else
            (case db_get B (st_db s) (blockKey (bid_height bid')) of
               Inl ErrConflict \<Rightarrow> finish_view E None (Some errDatastoreConflict) bid' empty_block
             | Inl err \<Rightarrow> finish_view E (Some (berr_error err)) xerr bid' empty_block
             | Inr (_, Inl err) \<Rightarrow> finish_view E (Some (berr_error err)) xerr bid' empty_block
             | Inr (_, Inr val) \<Rightarrow>
                 (case UnmarshalBlock C val of
                    Inl err \<Rightarrow> finish_view E (Some (ExtError err)) xerr bid' empty_block
                  | Inr block \<Rightarrow> finish_view E None xerr bid' block)))"

definition getBlockInfo ::
  "env \<Rightarrow> 'db badger \<Rightarrow> codec \<Rightarrow> 'db store \<Rightarrow> partial_block_identifier option \<Rightarrow> bool \<Rightarrow> (xerror, blockInfo) res" where
  "getBlockInfo E B C s pid withBlock =
     bind_res (getBlockID E s pid True) (\<lambda>bid.
       if bid_byHeight bid \<and> getHeight s < bid_height bid then Err errUnknownBlockIndex
       else getBlockInfoRaw E B C s bid withBlock)"

section \<open>Balances\<close>

text \<open>
  The scan of \<^verbatim>\<open>getBalance\<close>: \<^verbatim>\<open>Seek\<close> to the key of the height, and the value found if it is an
  entry of the account and contract (\<^verbatim>\<open>ValidForPrefix\<close>), zero otherwise.
\<close>

definition lookup_balance :: "'db badger \<Rightarrow> 'db \<Rightarrow> bytes \<Rightarrow> bytes \<Rightarrow> berr + int" where
  "lookup_balance B d pre key =
     (case db_seek B d key of
        [] \<Rightarrow> Inr 0
      | item # _ \<Rightarrow>
          if prefix pre (fst item)
          then (case snd item of Inl err \<Rightarrow> Inl err | Inr val \<Rightarrow> Inr (big_set_bytes val))
          else Inr 0)"

record balance_response =
  br_balances :: "amount list"
  br_blockID :: block_identifier

text \<open>
  The filter is keyed by the currency pointers of the registered tokens. There is one such
  pointer for each registered contract, so the contract stands for the pointer.
\<close>

fun balance_filter :: "env \<Rightarrow> 'db store \<Rightarrow> currency option list \<Rightarrow> address set \<Rightarrow> (xerror, address set) res" where
  "balance_filter E s [] flt = Ok flt"
| "balance_filter E s (c # cs) flt =
     bind_res (validateCurrency E s c) (\<lambda>cinfo. balance_filter E s cs (insert (ci_contract cinfo) flt))"

fun balance_loop ::
  "env \<Rightarrow> 'db badger \<Rightarrow> 'db store \<Rightarrow> blockInfo \<Rightarrow> address \<Rightarrow> bool \<Rightarrow> address set \<Rightarrow> address list \<Rightarrow>
   amount list \<Rightarrow> (xerror, amount list) res" where
  "balance_loop E B s info acct filtered flt [] balances = Ok balances"
| "balance_loop E B s info acct filtered flt (contract # cs) balances =
     bind_res (getCurrencyInfo s contract) (\<lambda>cinfo.
       if filtered \<and> ci_contract cinfo \<notin> flt then
         balance_loop E B s info acct filtered flt cs balances
       else
         (let pre = accountKeyPrefix (addr2slice E acct) (addr2slice E contract);
              key = accountKey pre (info_hval info)
          in case lookup_balance B (st_db s) pre key of
               Inl err \<Rightarrow> Err (wrapErr errDatastore (berr_error err))
             | Inr balance \<Rightarrow>
                 balance_loop E B s info acct filtered flt cs
                   (balances @ [\<lparr>am_value = big_string balance, am_currency = Some (ci_currency cinfo)\<rparr>])))"

definition getBalance ::
  "env \<Rightarrow> 'db badger \<Rightarrow> codec \<Rightarrow> 'db store \<Rightarrow> partial_block_identifier option \<Rightarrow> address \<Rightarrow>
   currency option list \<Rightarrow> address list \<Rightarrow> (xerror, balance_response) res" where
  "getBalance E B C s pid acct currencies contracts =
     bind_res (getBlockInfo E B C s pid False) (\<lambda>info.
     bind_res (balance_filter E s currencies {}) (\<lambda>flt.
     bind_res (balance_loop E B s info acct (0 < length currencies) flt contracts []) (\<lambda>balances.
     Ok \<lparr>br_balances = balances, br_blockID = info_blockID info\<rparr>)))"

section \<open>Writing a block\<close>

text \<open>
  One account of \<^verbatim>\<open>setBlock\<close>: the previous balance is the entry the reverse scan finds below
  the new key, skipping an entry at the key itself (the block is being indexed again); the
  new balance is stored as \<^verbatim>\<open>Bytes()\<close>.
\<close>

definition item_amount :: "item \<Rightarrow> berr + int" where
  "item_amount it = (case snd it of Inl err \<Rightarrow> Inl err | Inr val \<Rightarrow> Inr (big_set_bytes val))"

definition previous_balance :: "'db badger \<Rightarrow> 'db \<Rightarrow> balanceChange \<Rightarrow> berr + int" where
  "previous_balance B d acct =
     (case db_seek B d (bc_key acct) of
        [] \<Rightarrow> Inr 0
      | it # rest \<Rightarrow>
          if prefix (bc_prefix acct) (fst it) then
            (if bc_key acct = fst it then
               (case rest of
                  [] \<Rightarrow> Inr 0
                | it' # _ \<Rightarrow> if prefix (bc_prefix acct) (fst it') then item_amount it' else Inr 0)
             else item_amount it)
          else Inr 0)"

definition apply_change :: "'db badger \<Rightarrow> 'db \<Rightarrow> balanceChange \<Rightarrow> berr + 'db" where
  "apply_change B d acct =
     (case previous_balance B d acct of
        Inl err \<Rightarrow> Inl err
      | Inr prev \<Rightarrow> db_set B d (bc_key acct) (big_bytes (prev + bc_diff acct)))"

fun apply_changes :: "'db badger \<Rightarrow> 'db \<Rightarrow> balanceChange list \<Rightarrow> berr + 'db" where
  "apply_changes B d [] = Inr d"
| "apply_changes B d (ch # chs) =
     (case apply_change B d ch of Inl err \<Rightarrow> Inl err | Inr d' \<Rightarrow> apply_changes B d' chs)"

fun set_all :: "'db badger \<Rightarrow> 'db \<Rightarrow> (bytes \<times> bytes) list \<Rightarrow> berr + 'db" where
  "set_all B d [] = Inr d"
| "set_all B d ((k, v) # kvs) =
     (case db_set B d k v of Inl err \<Rightarrow> Inl err | Inr d' \<Rightarrow> set_all B d' kvs)"

text \<open>The writes after the account balances, in order.\<close>

definition block_writes :: "blockState \<Rightarrow> bytes \<Rightarrow> (bytes \<times> bytes) list" where
  "block_writes state blockData =
     (let height = bid_height (bs_id state); hash = bid_hash (bs_id state); hval = le_put32 height
      in [(blockKey height, blockData),
          (blockHash2HeightKey hash, hval),
          (blockHeight2HashKey height, hash)] @
         map (\<lambda>h. (txnHashKey h, [])) (bs_hashes state) @
         [(heightKey, hval)])"

definition update_db :: "'db badger \<Rightarrow> 'db \<Rightarrow> blockState \<Rightarrow> bytes \<Rightarrow> berr + 'db" where
  "update_db B d state blockData =
     (case apply_changes B d (bs_changes state) of
        Inl err \<Rightarrow> Inl err
      | Inr d' \<Rightarrow>
          (case set_all B d' (block_writes state blockData) of
             Inl err \<Rightarrow> Inl err
           | Inr d'' \<Rightarrow> db_commit B d''))"

text \<open>\<^verbatim>\<open>db.Update\<close> discards the transaction on an error, so the store is unchanged then.\<close>

definition setBlock :: "'db badger \<Rightarrow> codec \<Rightarrow> 'db store \<Rightarrow> blockState \<Rightarrow> (go_error, 'db store) res" where
  "setBlock B C s state =
     (case MarshalBlock C (bs_block state) of
        Inl err \<Rightarrow> Err (Errorf ''services: failed to encode model.Block: %s'' [ArgErr (ExtError err)])
      | Inr blockData \<Rightarrow>
          (case update_db B (st_db s) state blockData of
             Inl err \<Rightarrow> Err (berr_error err)
           | Inr d \<Rightarrow>
               Ok (setHeight (s\<lparr>st_db := d\<rparr>) (uint (bid_height (bs_id state))) (uint (bs_synced state)))))"

end
