(* ===== verification/History.thy ===== *)
theory History
  imports Store
begin

text \<open>
  The balance history: what the account entries of the data store mean. The abstract view of
  the entries of one account and one contract is a partial function from heights to balances;
  a query at a height reads the \<open>latest\<close> entry, and \<^verbatim>\<open>setBlock\<close> adds the change of a block to the
  entry \<open>latest_before\<close> it. The lemmas connect the reverse scans of the store with that view.
\<close>

section \<open>The abstract history\<close>

type_synonym history = "nat \<rightharpoonup> int"

primrec latest :: "history \<Rightarrow> nat \<Rightarrow> int" where
  "latest f 0 = (case f 0 of None \<Rightarrow> 0 | Some v \<Rightarrow> v)"
| "latest f (Suc n) = (case f (Suc n) of None \<Rightarrow> latest f n | Some v \<Rightarrow> v)"

definition latest_before :: "history \<Rightarrow> nat \<Rightarrow> int" where
  "latest_before f n = (case n of 0 \<Rightarrow> 0 | Suc k \<Rightarrow> latest f k)"

definition post :: "nat \<Rightarrow> int \<Rightarrow> history \<Rightarrow> history" where
  "post h diff f = f(h \<mapsto> \<bar>latest_before f h + diff\<bar>)"

lemma latest_eq:
  assumes "n \<le> N" "f n = Some v" "\<And>k. n < k \<Longrightarrow> k \<le> N \<Longrightarrow> f k = None"
  shows "latest f N = v"
  using assms
proof (induction N)
  case (Suc N)
  show ?case
  proof (cases "n = Suc N")
    case False
    with Suc.prems have "latest f N = v" by (intro Suc.IH) auto
    with Suc.prems False show ?thesis by simp
  qed (use Suc.prems in simp)
qed simp

lemma latest_none: "(\<And>k. k \<le> N \<Longrightarrow> f k = None) \<Longrightarrow> latest f N = 0"
  by (induction N) auto

lemma latest_cong: "(\<And>k. k \<le> N \<Longrightarrow> f k = g k) \<Longrightarrow> latest f N = latest g N"
  by (induction N) (simp_all cong: option.case_cong)

lemma latest_before_eq:
  assumes "n < N" "f n = Some v" "\<And>k. n < k \<Longrightarrow> k < N \<Longrightarrow> f k = None"
  shows "latest_before f N = v"
  using assms by (cases N) (simp_all add: latest_before_def latest_eq [of n])

lemma latest_before_none: "(\<And>k. k < N \<Longrightarrow> f k = None) \<Longrightarrow> latest_before f N = 0"
  by (cases N) (auto simp: latest_before_def intro!: latest_none)

lemma latest_before_cong: "(\<And>k. k < N \<Longrightarrow> f k = g k) \<Longrightarrow> latest_before f N = latest_before g N"
  by (cases N) (auto simp: latest_before_def intro!: latest_cong)

lemma latest_before_Suc [simp]: "latest_before f (Suc n) = latest f n" "latest_before f 0 = 0"
  by (simp_all add: latest_before_def)

lemma latest_unchanged:
  "m \<le> n \<Longrightarrow> (\<And>k. m < k \<Longrightarrow> k \<le> n \<Longrightarrow> f k = None) \<Longrightarrow> latest f n = latest f m"
proof (induction n)
  case (Suc n)
  then show ?case by (cases "m = Suc n") auto
qed simp

text \<open>Posting at a height leaves the queries below it alone and can be repeated.\<close>

lemma latest_post_below: "n < h \<Longrightarrow> latest (post h diff f) n = latest f n"
  by (rule latest_cong) (simp add: post_def)

lemma latest_before_post [simp]: "latest_before (post h diff f) h = latest_before f h"
  by (rule latest_before_cong) (simp add: post_def)

lemma latest_post [simp]: "latest (post h diff f) h = \<bar>latest_before f h + diff\<bar>"
  by (rule latest_eq [of h]) (auto simp: post_def)

lemma post_post [simp]: "post h diff (post h diff' f) = post h diff f"
proof -
  have "latest_before (post h diff' f) h = latest_before f h" by simp
  then show ?thesis by (simp add: post_def)
qed

section \<open>The entries of the store\<close>

definition acct_hist :: "env \<Rightarrow> (bytes \<rightharpoonup> bytes) \<Rightarrow> address \<Rightarrow> address \<Rightarrow> history" where
  "acct_hist E m a c n =
     (if n < 2 ^ 32 then map_option big_set_bytes (m (acct_key E a c (word_of_nat n))) else None)"

text \<open>Every key that starts with \<^verbatim>\<open>'a'\<close> is the key of an account entry.\<close>

definition acct_keys_ok :: "env \<Rightarrow> (bytes \<rightharpoonup> bytes) \<Rightarrow> bool" where
  "acct_keys_ok E m \<longleftrightarrow>
     (\<forall>k. m k \<noteq> None \<longrightarrow> k \<noteq> [] \<and>
        (hd k = 97 \<longrightarrow> (\<exists>a c h. is_addr a \<and> is_addr c \<and> k = acct_key E a c h)))"

lemma acct_hist_unat [simp]:
  "acct_hist E m a c (unat h) = map_option big_set_bytes (m (acct_key E a c h))"
  using unat_u32_less [of h] by (simp add: acct_hist_def)

lemma acct_hist_None_iff:
  "acct_hist E m a c n = None \<longleftrightarrow> n \<ge> 2 ^ 32 \<or> m (acct_key E a c (word_of_nat n)) = None"
  by (auto simp: acct_hist_def)

lemma u32_nat_le: "n \<le> unat (h :: u32) \<Longrightarrow> word_of_nat n \<le> h \<and> unat (word_of_nat n :: u32) = n"
  using unat_u32_less [of h] by (auto simp: word_le_nat_alt unat_of_nat_u32)

lemma acct_keys_ok_prefix:
  assumes "env_ok E" "acct_keys_ok E m" "is_addr a" "is_addr c" "m k \<noteq> None" "prefix (acct_prefix E a c) k"
  obtains h where "k = acct_key E a c h"
proof -
  have "hd k = 97" "k \<noteq> []"
    using assms(6) by (auto simp: acct_prefix_eq prefix_def)
  then obtain b d h where k: "is_addr b" "is_addr d" "k = acct_key E b d h"
    using assms(2,5) by (auto simp: acct_keys_ok_def)
  with assms have "a = b \<and> c = d" using acct_prefix_iff by simp
  with k that show thesis by blast
qed

text \<open>
  The item a reverse scan stops at, and what it says about the entries. \<open>P\<close> is the set of
  keys the scan covers: those not above a key of the account, without that key for the item
  after it.
\<close>

lemma scan_head:
  assumes E: "env_ok E" "acct_keys_ok E m" "is_addr a" "is_addr c"
    and scan: "scan_ok m P items"
    and P: "\<And>k. P (acct_key E a c k) \<longleftrightarrow> unat k < N"
    and bound: "\<And>k. P k \<Longrightarrow> k \<le> acct_key E a c h"
  shows "(case items of [] \<Rightarrow> Inr 0
          | it # _ \<Rightarrow> if prefix (acct_prefix E a c) (fst it) then item_amount it else Inr 0) =
         Inr (latest_before (acct_hist E m a c) N)"
proof (cases items)
  case Nil
  have "acct_hist E m a c k = None" if "k < N" for k
    using that scan P [of "word_of_nat k"] Nil scan_ok_Nil [of m P "acct_key E a c (word_of_nat k)"]
    by (cases "k < 2 ^ 32") (simp_all add: acct_hist_def unat_of_nat_u32)
  then show ?thesis using Nil by (simp add: latest_before_none)
next
  case (Cons it rest)
  note head = scan_ok_Cons [OF scan [unfolded Cons]]
  have upper: "acct_key E a c (word_of_nat k) \<le> fst it" "k < 2 ^ 32"
    if "k < N" "acct_hist E m a c k \<noteq> None" for k
    using that head(4) P [of "word_of_nat k"]
    by (auto simp: acct_hist_def unat_of_nat_u32 split: if_splits)
  show ?thesis
  proof (cases "prefix (acct_prefix E a c) (fst it)")
    case True
    then obtain k where k: "fst it = acct_key E a c k"
      using acct_keys_ok_prefix E head(2) by metis
    have kN: "unat k < N" using head(1) P k by simp
    have "latest_before (acct_hist E m a c) N = big_set_bytes (the (m (fst it)))"
    proof (rule latest_before_eq [OF kN])
      show "acct_hist E m a c (unat k) = Some (big_set_bytes (the (m (fst it))))"
        using head(2) k by auto
      fix j assume j: "unat k < j" "j < N"
      show "acct_hist E m a c j = None"
      proof (rule ccontr)
        assume "acct_hist E m a c j \<noteq> None"
        then have "word_of_nat j \<le> k" "j < 2 ^ 32"
          using upper j k acct_key_le_iff by metis+
        then show False using j by (simp add: word_le_nat_alt unat_of_nat_u32)
      qed
    qed
    moreover have "item_amount it = Inr (big_set_bytes (the (m (fst it))))"
      using head(3) by (simp add: item_amount_def)
    ultimately show ?thesis using True Cons by simp
  next
    case False
    have "acct_hist E m a c k = None" if "k < N" for k
    proof (rule ccontr)
      assume "acct_hist E m a c k \<noteq> None"
      then have "acct_key E a c (word_of_nat k) \<le> fst it" using upper that by simp
      moreover have "fst it \<le> acct_key E a c h" using bound head(1) by simp
      ultimately show False using False prefix_sandwich by (metis acct_key_eq)
    qed
    then show ?thesis using False Cons by (simp add: latest_before_none)
  qed
qed

lemma lookup_balance_latest:
  assumes "badger_ok B con" "env_ok E" "acct_keys_ok E (con d)" "is_addr a" "is_addr c"
  shows "lookup_balance B d (acct_prefix E a c) (acct_key E a c h) =
         Inr (latest (acct_hist E (con d) a c) (unat h))"
proof -
  have "lookup_balance B d (acct_prefix E a c) (acct_key E a c h) =
        (case db_seek B d (acct_key E a c h) of [] \<Rightarrow> Inr 0
          | it # _ \<Rightarrow> if prefix (acct_prefix E a c) (fst it) then item_amount it else Inr 0)"
    by (simp add: lookup_balance_def item_amount_def split: list.split)
  also have "\<dots> = Inr (latest_before (acct_hist E (con d) a c) (Suc (unat h)))"
    by (rule scan_head [OF assms(2-5) badger_seek [OF assms(1)]])
      (auto simp: acct_key_le_iff word_le_nat_alt less_Suc_eq_le)
  finally show ?thesis by simp
qed

section \<open>Writing the changes of a block\<close>

text \<open>The change \<^verbatim>\<open>IndexBlocks\<close> builds for an account, a contract and a difference.\<close>

type_synonym diff = "(address \<times> address) \<times> int"

definition change_at :: "env \<Rightarrow> u32 \<Rightarrow> diff \<Rightarrow> balanceChange" where
  "change_at E h d =
     \<lparr>bc_diff = snd d,
      bc_key = acct_key E (fst (fst d)) (snd (fst d)) h,
      bc_prefix = acct_prefix E (fst (fst d)) (snd (fst d))\<rparr>"

definition diffs_ok :: "diff list \<Rightarrow> bool" where
  "diffs_ok ds \<longleftrightarrow> distinct (map fst ds) \<and> (\<forall>d\<in>set ds. is_addr (fst (fst d)) \<and> is_addr (snd (fst d)))"

lemma diffs_ok_Cons [simp]:
  "diffs_ok (((a, c), \<delta>) # ds) \<longleftrightarrow>
     is_addr a \<and> is_addr c \<and> (a, c) \<notin> fst ` set ds \<and> diffs_ok ds"
  by (auto simp: diffs_ok_def)

lemma diffs_ok_Nil [simp]: "diffs_ok []"
  by (simp add: diffs_ok_def)

lemma previous_balance_latest_before:
  assumes B: "badger_ok B con" and E: "env_ok E" "acct_keys_ok E (con d)" "is_addr a" "is_addr c"
  shows "previous_balance B d (change_at E h ((a, c), \<delta>)) =
         Inr (latest_before (acct_hist E (con d) a c) (unat h))"
proof -
  let ?k = "acct_key E a c h" and ?p = "acct_prefix E a c"
  let ?head = "\<lambda>items. case items of [] \<Rightarrow> Inr 0
          | it # _ \<Rightarrow> if prefix ?p (fst it) then item_amount it else Inr 0"
  have scan: "scan_ok (con d) (\<lambda>k. k \<le> ?k) (db_seek B d ?k)" using badger_seek B .
  have P: "acct_key E a c k \<le> ?k \<and> acct_key E a c k \<noteq> ?k \<longleftrightarrow> unat k < unat h" for k
    using E by (simp add: acct_key_le_iff acct_key_inj word_less_nat_alt [symmetric] order_less_le [of k])
  show ?thesis
  proof (cases "db_seek B d ?k \<noteq> [] \<and> fst (hd (db_seek B d ?k)) = ?k")
    case True
    then obtain it rest where items: "db_seek B d ?k = it # rest" "fst it = ?k"
      by (metis list.collapse)
    have p: "prefix ?p ?k" by (simp add: acct_key_eq)
    have "previous_balance B d (change_at E h ((a, c), \<delta>)) = ?head rest"
      by (cases rest) (simp_all add: previous_balance_def change_at_def items p)
    also have "\<dots> = Inr (latest_before (acct_hist E (con d) a c) (unat h))"
    proof (rule scan_head [OF E, where h = h])
      show "scan_ok (con d) (\<lambda>k. k \<le> ?k \<and> k \<noteq> ?k) rest"
        using scan_ok_tl [OF scan [unfolded items(1)]] items(2) by simp
    qed (use P in simp_all)
    finally show ?thesis .
  next
    case False
    have none: "con d ?k = None"
    proof (cases "db_seek B d ?k")
      case Nil
      then show ?thesis using scan scan_ok_Nil by fastforce
    next
      case (Cons it rest)
      then show ?thesis using scan_ok_Cons [OF scan [unfolded Cons]] False by force
    qed
    have "previous_balance B d (change_at E h ((a, c), \<delta>)) = ?head (db_seek B d ?k)"
      using False by (cases "db_seek B d ?k") (auto simp: previous_balance_def change_at_def)
    also have "\<dots> = Inr (latest_before (acct_hist E (con d) a c) (unat h))"
    proof (rule scan_head [OF E, where h = h])
      have "scan_ok (con d) (\<lambda>k. k \<le> ?k) = scan_ok (con d) (\<lambda>k. k \<le> ?k \<and> k \<noteq> ?k)"
        by (rule ext, rule scan_ok_cong) (use none in auto)
      with scan show "scan_ok (con d) (\<lambda>k. k \<le> ?k \<and> k \<noteq> ?k) (db_seek B d ?k)" by simp
    qed (use P in simp_all)
    finally show ?thesis .
  qed
qed

text \<open>The entry of one change, and the contents after the changes of a block.\<close>

definition new_entry :: "env \<Rightarrow> (bytes \<rightharpoonup> bytes) \<Rightarrow> u32 \<Rightarrow> diff \<Rightarrow> bytes \<times> bytes" where
  "new_entry E m h d =
     (acct_key E (fst (fst d)) (snd (fst d)) h,
      big_bytes (latest_before (acct_hist E m (fst (fst d)) (snd (fst d))) (unat h) + snd d))"

lemma acct_keys_ok_upd:
  "acct_keys_ok E m \<Longrightarrow> is_addr a \<Longrightarrow> is_addr c \<Longrightarrow> acct_keys_ok E (m(acct_key E a c h \<mapsto> v))"
  unfolding acct_keys_ok_def using acct_key_hd(2) by (auto split: if_splits)

lemma acct_keys_ok_upd_other:
  "acct_keys_ok E m \<Longrightarrow> k \<noteq> [] \<Longrightarrow> hd k \<noteq> 97 \<Longrightarrow> acct_keys_ok E (m(k \<mapsto> v))"
  unfolding acct_keys_ok_def by auto

lemma acct_hist_upd_other:
  "hd k \<noteq> 97 \<Longrightarrow> acct_hist E (m(k \<mapsto> v)) a c = acct_hist E m a c"
  by (auto simp: acct_hist_def fun_eq_iff)

lemma acct_hist_upd_key:
  assumes "env_ok E" "is_addr a" "is_addr b" "is_addr c" "is_addr d"
  shows "acct_hist E (m(acct_key E a c h \<mapsto> v)) b d =
    (if a = b \<and> c = d then (acct_hist E m b d)(unat h \<mapsto> big_set_bytes v) else acct_hist E m b d)"
  using assms by (auto simp: acct_hist_def acct_key_inj fun_eq_iff word_of_nat_eq_iff)
   (metis unat_of_nat_u32 unat_u32_less take_bit_nat_eq_self)+

text \<open>A new entry does not depend on what is stored at its own height.\<close>

lemma new_entry_upd:
  assumes "env_ok E" "is_addr a" "is_addr c" "is_addr (fst (fst d))" "is_addr (snd (fst d))"
  shows "new_entry E (m(acct_key E a c h \<mapsto> v)) h d = new_entry E m h d"
proof -
  have "latest_before (acct_hist E (m(acct_key E a c h \<mapsto> v)) (fst (fst d)) (snd (fst d))) (unat h) =
        latest_before (acct_hist E m (fst (fst d)) (snd (fst d))) (unat h)"
    using assms by (intro latest_before_cong) (auto simp: acct_hist_upd_key)
  then show ?thesis by (simp add: new_entry_def)
qed

lemma new_entry_fresh:
  assumes "env_ok E" "diffs_ok (((a, c), \<delta>) # ds)"
  shows "map_of (map (new_entry E m h) ds) (acct_key E a c h) = None"
proof -
  have "fst (new_entry E m h d) \<noteq> acct_key E a c h" if "d \<in> set ds" for d
  proof -
    have "(a, c) \<noteq> fst d" using assms that by auto
    moreover have "is_addr (fst (fst d))" "is_addr (snd (fst d))" "is_addr a" "is_addr c"
      using assms that by (auto simp: diffs_ok_def)
    ultimately show ?thesis using assms(1) by (auto simp: new_entry_def acct_key_inj)
  qed
  then have "\<not> (\<exists>p \<in> set (map (new_entry E m h) ds). acct_key E a c h = fst p)" unfolding set_map bex_simps(7) by metis
  then show ?thesis by (simp only: map_of_eq_None_iff image_iff not_False_eq_True)
qed

lemma apply_change_effect:
  assumes "badger_ok B con" "env_ok E" "acct_keys_ok E (con d)" "is_addr a" "is_addr c"
    and "apply_change B d (change_at E h ((a, c), \<delta>)) = Inr d'"
  shows "con d' = (con d)(acct_key E a c h \<mapsto> snd (new_entry E (con d) h ((a, c), \<delta>)))"
    and "acct_keys_ok E (con d')"
proof -
  have "db_set B d (acct_key E a c h)
      (big_bytes (latest_before (acct_hist E (con d) a c) (unat h) + \<delta>)) = Inr d'"
    using assms by (simp add: apply_change_def previous_balance_latest_before) (simp add: change_at_def)
  then show *: "con d' = (con d)(acct_key E a c h \<mapsto> snd (new_entry E (con d) h ((a, c), \<delta>)))"
    using badger_set [OF assms(1)] by (simp add: new_entry_def)
  show "acct_keys_ok E (con d')" unfolding * using assms by (intro acct_keys_ok_upd)
qed

lemma apply_changes_effect:
  assumes "badger_ok B con" "env_ok E"
    and "acct_keys_ok E (con d)" "diffs_ok ds"
    and "apply_changes B d (map (change_at E h) ds) = Inr d'"
  shows "con d' = con d ++ map_of (map (new_entry E (con d) h) ds) \<and> acct_keys_ok E (con d')"
  using assms(3-)
proof (induction ds arbitrary: d)
  case Nil
  then show ?case by simp
next
  case (Cons x ds)
  obtain a c \<delta> where x: "x = ((a, c), \<delta>)" by (metis prod.exhaust_sel)
  note ok = Cons.prems(2) [unfolded x]
  obtain d1 where d1: "apply_change B d (change_at E h x) = Inr d1"
    "apply_changes B d1 (map (change_at E h) ds) = Inr d'"
    using Cons.prems(3) by (auto split: sum.splits)
  have c1: "con d1 = (con d)(acct_key E a c h \<mapsto> snd (new_entry E (con d) h x))" "acct_keys_ok E (con d1)"
    using apply_change_effect [OF assms(1,2) Cons.prems(1) _ _ d1(1) [unfolded x]] ok
    by (simp_all only: x diffs_ok_Cons)
  have "new_entry E (con d1) h y = new_entry E (con d) h y" if "y \<in> set ds" for y
    using that ok by (auto simp: c1 diffs_ok_def intro!: new_entry_upd assms(2))
  then have entries: "map (new_entry E (con d1) h) ds = map (new_entry E (con d) h) ds" by simp
  have "con d' = con d1 ++ map_of (map (new_entry E (con d1) h) ds) \<and> acct_keys_ok E (con d')"
    using ok by (intro Cons.IH c1(2) d1(2)) simp
  moreover have "fst (new_entry E (con d) h x) = acct_key E a c h" by (simp add: new_entry_def x)
  moreover have "con d1 ++ M = con d ++ M(acct_key E a c h \<mapsto> snd (new_entry E (con d) h x))"
    if "M (acct_key E a c h) = None" for M
    using that by (auto simp: c1(1) map_add_def fun_eq_iff split: option.split)
  ultimately show ?case
    using new_entry_fresh [OF assms(2) ok] by (simp only: entries list.map map_of.simps) metis
qed

lemma set_all_effect:
  assumes "badger_ok B con" and "set_all B d kvs = Inr d'"
  shows "con d' = con d ++ map_of (rev kvs)"
  using assms(2)
proof (induction kvs arbitrary: d)
  case Nil
  then show ?case by simp
next
  case (Cons x kvs)
  then obtain d1 where "db_set B d (fst x) (snd x) = Inr d1" "set_all B d1 kvs = Inr d'"
    by (cases x) (auto split: sum.splits)
  then show ?case
    using Cons.IH [of d1] badger_set [OF assms(1)] by (cases x) (auto simp: map_of_append map_add_def fun_eq_iff split: option.split)
qed

text \<open>Everything \<^verbatim>\<open>setBlock\<close> writes, in the contents of the database.\<close>

definition block_contents ::
  "env \<Rightarrow> (bytes \<rightharpoonup> bytes) \<Rightarrow> diff list \<Rightarrow> blockState \<Rightarrow> bytes \<Rightarrow> bytes \<rightharpoonup> bytes" where
  "block_contents E m ds state data =
     (m ++ map_of (map (new_entry E m (bid_height (bs_id state))) ds)) ++
     map_of (rev (block_writes state data))"

lemma block_writes_heads:
  "kv \<in> set (block_writes state data) \<Longrightarrow> fst kv \<noteq> [] \<and> hd (fst kv) \<in> {98, 99, 100, 101, 104}"
  by (auto simp: block_writes_def Let_def)

lemma map_of_block_writes_acct:
  assumes "hd k = 97"
  shows "map_of (rev (block_writes state data)) k = None"
proof -
  have "k \<notin> fst ` set (block_writes state data)"
    using assms block_writes_heads by fastforce
  then show ?thesis by (simp add: map_of_eq_None_iff)
qed

lemma acct_hist_cong:
  "(\<And>h. m (acct_key E a c h) = m' (acct_key E a c h)) \<Longrightarrow> acct_hist E m a c = acct_hist E m' a c"
  by (simp add: acct_hist_def fun_eq_iff)

lemma acct_keys_ok_add:
  assumes "acct_keys_ok E m" "\<And>k. k \<in> dom m' \<Longrightarrow> k \<noteq> [] \<and> hd k \<noteq> 97"
  shows "acct_keys_ok E (m ++ m')"
  using assms unfolding acct_keys_ok_def by (auto simp: map_add_dom_app_simps dom_def map_add_def split: option.splits)

lemma block_contents_acct:
  assumes "hd k = 97"
  shows "block_contents E m ds state data k =
    (m ++ map_of (map (new_entry E m (bid_height (bs_id state))) ds)) k"
  unfolding block_contents_def by (simp add: map_add_def map_of_block_writes_acct [OF assms])

text \<open>The account entries of a block: the abstract effect is one \<open>post\<close> for each difference.\<close>

lemma map_of_new_entries:
  assumes "env_ok E" "diffs_ok ds" "is_addr a" "is_addr c"
  shows "map_of (map (new_entry E m h) ds) (acct_key E a c k) =
    (if k = h then map_option (\<lambda>\<delta>. snd (new_entry E m h ((a, c), \<delta>))) (map_of ds (a, c)) else None)"
  using assms(2)
proof (induction ds)
  case (Cons x ds)
  obtain b d \<delta> where x: "x = ((b, d), \<delta>)" by (metis prod.exhaust_sel)
  have key: "fst (new_entry E m h ((b, d), \<delta>)) = acct_key E b d h" by (simp add: new_entry_def)
  have addr: "is_addr b" "is_addr d" and IH: "map_of (map (new_entry E m h) ds) (acct_key E a c k) =
    (if k = h then map_option (\<lambda>\<delta>. snd (new_entry E m h ((a, c), \<delta>))) (map_of ds (a, c)) else None)"
    using Cons by (simp_all add: x)
  show ?case
    using acct_key_inj [OF assms(1,3) addr(1) assms(4) addr(2), of k h] IH
    by (auto simp: key x)
qed simp

lemma acct_hist_block:
  assumes "env_ok E" "diffs_ok ds" "is_addr a" "is_addr c"
  shows "acct_hist E (block_contents E m ds state data) a c =
    (case map_of ds (a, c) of
       None \<Rightarrow> acct_hist E m a c
     | Some \<delta> \<Rightarrow> post (unat (bid_height (bs_id state))) \<delta> (acct_hist E m a c))"
proof (rule ext)
  fix n
  let ?h = "bid_height (bs_id state)"
  show "acct_hist E (block_contents E m ds state data) a c n =
    (case map_of ds (a, c) of
       None \<Rightarrow> acct_hist E m a c
     | Some \<delta> \<Rightarrow> post (unat ?h) \<delta> (acct_hist E m a c)) n"
  proof (cases "n < 2 ^ 32")
    case True
    then have "n = unat (word_of_nat n :: u32)" by (simp add: unat_of_nat_u32)
    then obtain k :: u32 where k: "n = unat k" by blast
    have eq: "unat k = unat ?h \<longleftrightarrow> k = ?h" by (simp add: word_unat_eq_iff)
    show ?thesis
      by (simp add: k eq block_contents_acct map_add_def map_of_new_entries [OF assms] post_def
          new_entry_def go_simps split: option.split)
  next
    case False
    then show ?thesis
      using unat_u32_less [of ?h] by (auto simp: acct_hist_def post_def split: option.split)
  qed
qed

lemma acct_keys_ok_block:
  assumes "env_ok E" "diffs_ok ds" "acct_keys_ok E m"
  shows "acct_keys_ok E (block_contents E m ds state data)"
proof -
  let ?m = "m ++ map_of (map (new_entry E m (bid_height (bs_id state))) ds)"
  have "k \<noteq> [] \<and> (hd k = 97 \<longrightarrow> (\<exists>a c h. is_addr a \<and> is_addr c \<and> k = acct_key E a c h))"
    if "?m k \<noteq> None" for k
  proof (cases "map_of (map (new_entry E m (bid_height (bs_id state))) ds) k")
    case None
    with that assms(3) show ?thesis by (auto simp: acct_keys_ok_def map_add_def)
  next
    case (Some v)
    then obtain d where "d \<in> set ds" "k = acct_key E (fst (fst d)) (snd (fst d)) (bid_height (bs_id state))"
      by (auto dest!: map_of_SomeD simp: new_entry_def)
    with assms(2) show ?thesis by (auto simp: diffs_ok_def)
  qed
  then have "acct_keys_ok E ?m" by (auto simp: acct_keys_ok_def)
  then show ?thesis
    unfolding block_contents_def
  proof (rule acct_keys_ok_add)
    fix k assume "k \<in> dom (map_of (rev (block_writes state data)))"
    then obtain v where "(k, v) \<in> set (block_writes state data)"
      by (auto dest: map_of_SomeD)
    then show "k \<noteq> [] \<and> hd k \<noteq> 97" using block_writes_heads [of "(k, v)" state data] by auto
  qed
qed

section \<open>\<^verbatim>\<open>setBlock\<close>\<close>

lemma setBlock_effect:
  assumes "badger_ok B con" "env_ok E" "acct_keys_ok E (con (st_db s))" "diffs_ok ds"
    and "bs_changes state = map (change_at E (bid_height (bs_id state))) ds"
    and "setBlock B C s state = Ok s'"
  obtains data where "MarshalBlock C (bs_block state) = Inr data"
    "con (st_db s') = block_contents E (con (st_db s)) ds state data"
    "heightIndexed s' = Some (uint (bid_height (bs_id state)))"
    "heightSynced s' = Some (uint (bs_synced state))" "tokens s' = tokens s"
proof -
  let ?h = "bid_height (bs_id state)"
  obtain data d1 d2 d3 where *: "MarshalBlock C (bs_block state) = Inr data"
    "apply_changes B (st_db s) (map (change_at E ?h) ds) = Inr d1"
    "set_all B d1 (block_writes state data) = Inr d2" "db_commit B d2 = Inr d3"
    "s' = setHeight (s\<lparr>st_db := d3\<rparr>) (uint ?h) (uint (bs_synced state))"
    using assms(5,6) by (auto simp: setBlock_def update_db_def split: sum.splits)
  have "con d3 = block_contents E (con (st_db s)) ds state data"
    using apply_changes_effect [OF assms(1-4) *(2)] set_all_effect [OF assms(1) *(3)]
      badger_commit [OF assms(1) *(4)] by (simp add: block_contents_def)
  with * show thesis by (intro that [of data]) (simp_all add: setHeight_def)
qed

end
