(* ===== verification/Lookup.thy ===== *)
theory Lookup
  imports History "HOL-Library.Multiset"
begin

text \<open>
  What the operations of the data store achieve together: blocks, transaction hashes and
  balances that \<^verbatim>\<open>setBlock\<close> wrote are what the lookups of the API read, indexing a block again
  changes nothing, and a reopened store goes on where it stopped.
\<close>

section \<open>The contents after a block\<close>

lemma key_inj [simp]:
  "blockKey h = blockKey h' \<longleftrightarrow> h = h'"
  "blockHeight2HashKey h = blockHeight2HashKey h' \<longleftrightarrow> h = h'"
  "is_hash x \<Longrightarrow> is_hash y \<Longrightarrow> blockHash2HeightKey x = blockHash2HeightKey y \<longleftrightarrow> x = y"
  "is_hash x \<Longrightarrow> is_hash y \<Longrightarrow> txnHashKey x = txnHashKey y \<longleftrightarrow> x = y"
  by (simp_all add: key_simps le_put32_inj)

lemma neq_by_head: "hd k \<noteq> hd k' \<Longrightarrow> k \<noteq> k'"
  by auto

lemma keys_distinct [simp]:
  "blockKey h \<noteq> heightKey" "blockKey h \<noteq> txnHashKey x" "blockKey h \<noteq> blockHash2HeightKey x"
  "blockKey h \<noteq> blockHeight2HashKey h'" "blockHash2HeightKey x \<noteq> heightKey"
  "blockHash2HeightKey x \<noteq> txnHashKey y" "blockHash2HeightKey x \<noteq> blockKey h"
  "blockHash2HeightKey x \<noteq> blockHeight2HashKey h" "blockHeight2HashKey h \<noteq> heightKey"
  "blockHeight2HashKey h \<noteq> txnHashKey x" "blockHeight2HashKey h \<noteq> blockKey h'"
  "blockHeight2HashKey h \<noteq> blockHash2HeightKey x" "txnHashKey x \<noteq> heightKey"
  "txnHashKey x \<noteq> blockKey h" "txnHashKey x \<noteq> blockHash2HeightKey y"
  "txnHashKey x \<noteq> blockHeight2HashKey h" "heightKey \<noteq> txnHashKey x"
  "heightKey \<noteq> blockKey h" "heightKey \<noteq> blockHash2HeightKey x" "heightKey \<noteq> blockHeight2HashKey h"
  by (rule neq_by_head; simp)+

lemma map_of_txn_keys:
  "map_of (map (\<lambda>h. (txnHashKey h, [])) hs) k = (if k \<in> txnHashKey ` set hs then Some [] else None)"
  by (induction hs) auto

lemma new_entries_none:
  assumes "hd k \<noteq> 97"
  shows "map_of (map (new_entry E m h) ds) k = None"
proof -
  have "fst (new_entry E m h d) \<noteq> k" for d using assms by (auto simp: new_entry_def)
  then have "\<not> (\<exists>p \<in> set (map (new_entry E m h) ds). k = fst p)"
    unfolding set_map bex_simps(7) by metis
  then show ?thesis by (simp only: map_of_eq_None_iff image_iff not_False_eq_True)
qed

lemma block_contents_other:
  "hd k \<noteq> 97 \<Longrightarrow> block_contents E m ds state data k = (m ++ map_of (rev (block_writes state data))) k"
  by (simp add: block_contents_def map_add_def new_entries_none split: option.split)

lemma map_of_block_writes:
  "map_of (rev (block_writes state data)) k =
     (if k = heightKey then Some (le_put32 (bid_height (bs_id state)))
      else if k \<in> txnHashKey ` set (bs_hashes state) then Some []
      else if k = blockHeight2HashKey (bid_height (bs_id state)) then Some (bid_hash (bs_id state))
      else if k = blockHash2HeightKey (bid_hash (bs_id state)) then Some (le_put32 (bid_height (bs_id state)))
      else if k = blockKey (bid_height (bs_id state)) then Some data
      else None)"
  by (auto simp: block_writes_def Let_def map_add_def rev_map map_of_txn_keys)

lemma txn_keys_disjoint [simp]:
  "heightKey \<notin> txnHashKey ` X" "blockKey h \<notin> txnHashKey ` X"
  "blockHeight2HashKey h \<notin> txnHashKey ` X" "blockHash2HeightKey x \<notin> txnHashKey ` X"
  by (metis imageE keys_distinct)+

lemma txn_key_mem:
  "is_hash x \<Longrightarrow> \<forall>y\<in>X. is_hash y \<Longrightarrow> txnHashKey x \<in> txnHashKey ` X \<longleftrightarrow> x \<in> X"
  by (metis imageE image_eqI key_inj(4))

lemma block_contents_keys:
  "block_contents E m ds state data (blockKey h) =
     (if h = bid_height (bs_id state) then Some data else m (blockKey h))"
  "block_contents E m ds state data (blockHeight2HashKey h) =
     (if h = bid_height (bs_id state) then Some (bid_hash (bs_id state)) else m (blockHeight2HashKey h))"
  "is_hash x \<Longrightarrow> is_hash (bid_hash (bs_id state)) \<Longrightarrow>
   block_contents E m ds state data (blockHash2HeightKey x) =
     (if x = bid_hash (bs_id state) then Some (le_put32 (bid_height (bs_id state)))
      else m (blockHash2HeightKey x))"
  "block_contents E m ds state data heightKey = Some (le_put32 (bid_height (bs_id state)))"
  "is_hash x \<Longrightarrow> \<forall>y\<in>set (bs_hashes state). is_hash y \<Longrightarrow>
   block_contents E m ds state data (txnHashKey x) =
     (if x \<in> set (bs_hashes state) then Some [] else m (txnHashKey x))"
  by (simp_all add: block_contents_other map_add_def map_of_block_writes txn_key_mem)

section \<open>Stored blocks\<close>

text \<open>The three entries of a block that was written: its hash, its height and its data.\<close>

definition block_at :: "codec \<Rightarrow> (bytes \<rightharpoonup> bytes) \<Rightarrow> u32 \<Rightarrow> hash256 \<Rightarrow> mblock \<Rightarrow> bool" where
  "block_at C m h hash blk \<longleftrightarrow>
     is_hash hash \<and> m (blockHeight2HashKey h) = Some hash \<and>
     m (blockHash2HeightKey hash) = Some (le_put32 h) \<and>
     (\<exists>data. m (blockKey h) = Some data \<and> UnmarshalBlock C data = Inr blk)"

definition info_of :: "env \<Rightarrow> u32 \<Rightarrow> hash256 \<Rightarrow> mblock \<Rightarrow> blockInfo" where
  "info_of E h hash blk =
     \<lparr>info_block = blk, info_blockID = \<lparr>bi_index = uint h, bi_hash = Uint256ToHexString E hash\<rparr>,
      info_height = h, info_hval = encode_height h\<rparr>"

lemma block_at_new:
  assumes "codec_ok C" "MarshalBlock C blk = Inr data" "is_hash (bid_hash (bs_id state))"
  shows "block_at C (block_contents E m ds state data) (bid_height (bs_id state)) (bid_hash (bs_id state)) blk"
  using assms by (simp add: block_at_def block_contents_keys codec_ok_def)

lemma block_at_frame:
  assumes "block_at C m h hash blk" "is_hash (bid_hash (bs_id state))"
    and "h \<noteq> bid_height (bs_id state)" "hash \<noteq> bid_hash (bs_id state)"
  shows "block_at C (block_contents E m ds state data) h hash blk"
  using assms by (simp add: block_at_def block_contents_keys)

lemma UINT256_EMPTY_is_hash [simp]: "is_hash UINT256_EMPTY"
  by (simp add: UINT256_EMPTY_def is_hash_def)

lemma copy_hash [simp]: "is_hash h \<Longrightarrow> is_hash g \<Longrightarrow> copy_at g 0 h = h"
  by (simp add: is_hash_def copy_at_0_full)

text \<open>The raw lookups of a stored block: by height, by hash, and by both.\<close>

lemma getBlockInfoRaw_height:
  assumes "badger_ok B con" "block_at C (con (st_db s)) h hash blk"
  shows "getBlockInfoRaw E B C s (id_of_height h) withBlock =
    Ok (info_of E h hash (if withBlock then blk else empty_block))"
proof -
  have *: "db_get B (st_db s) (blockHeight2HashKey h) = Inr (blockHeight2HashKey h, Inr hash)"
    "is_hash hash"
    using assms by (simp_all add: badger_get block_at_def)
  obtain data where **: "db_get B (st_db s) (blockKey h) = Inr (blockKey h, Inr data)"
    "UnmarshalBlock C data = Inr blk"
    using assms by (auto simp: badger_get block_at_def)
  show ?thesis
    using * ** by (simp add: getBlockInfoRaw_def resolve_block_id_def id_of_height_def empty_id_def
        finish_view_def info_of_def)
qed

lemma getBlockInfoRaw_hash:
  assumes "badger_ok B con" "block_at C (con (st_db s)) h hash blk"
  shows "getBlockInfoRaw E B C s (empty_id\<lparr>bid_hash := hash\<rparr>) withBlock =
    Ok (info_of E h hash (if withBlock then blk else empty_block))"
proof -
  have *: "db_get B (st_db s) (blockHash2HeightKey hash) = Inr (blockHash2HeightKey hash, Inr (le_put32 h))"
    using assms by (simp add: badger_get block_at_def)
  obtain data where **: "db_get B (st_db s) (blockKey h) = Inr (blockKey h, Inr data)"
    "UnmarshalBlock C data = Inr blk"
    using assms by (auto simp: badger_get block_at_def)
  show ?thesis
    using * ** by (simp add: getBlockInfoRaw_def resolve_block_id_def empty_id_def
        finish_view_def info_of_def go_simps)
qed

lemma getBlockInfoRaw_both:
  assumes "badger_ok B con" "block_at C (con (st_db s)) h hash blk" "is_hash hash'"
  shows "getBlockInfoRaw E B C s ((id_of_height h)\<lparr>bid_hash := hash'\<rparr>) withBlock =
    (if hash' = hash \<or> hash' = UINT256_EMPTY then Ok (info_of E h hash (if withBlock then blk else empty_block))
     else Err errInvalidBlockIdentifier)"
proof -
  have *: "db_get B (st_db s) (blockHeight2HashKey h) = Inr (blockHeight2HashKey h, Inr hash)"
    "is_hash hash"
    using assms by (simp_all add: badger_get block_at_def)
  obtain data where **: "db_get B (st_db s) (blockKey h) = Inr (blockKey h, Inr data)"
    "UnmarshalBlock C data = Inr blk"
    using assms by (auto simp: badger_get block_at_def)
  show ?thesis
    using * ** assms(3) by (simp add: getBlockInfoRaw_def resolve_block_id_def id_of_height_def empty_id_def
        finish_view_def info_of_def)
qed

lemma getBlockInfoRaw_unknown:
  assumes "badger_ok B con" "con (st_db s) (blockHeight2HashKey h) = None"
  shows "getBlockInfoRaw E B C s (id_of_height h) withBlock = Err errUnknownBlockIndex"
  using assms by (simp add: getBlockInfoRaw_def resolve_block_id_def id_of_height_def empty_id_def
      badger_get finish_view_def)

section \<open>Concrete instances\<close>

text \<open>
  A codec for blocks without transactions and for options without fields, a fresh store on
  the in-memory database and a block of two changes, at which the properties below are
  applied.
\<close>

definition no_options :: construct_options where
  "no_options = \<lparr>co_amount = [], co_contract = [], co_from = [], co_gas_limit = 0, co_gas_price = 0,
     co_nonce = 0, co_payer = [], co_to = []\<rparr>"

definition codec0 :: codec where
  "codec0 =
     \<lparr>MarshalBlock = (\<lambda>b. if mb_transactions b = [] then Inr (le_put32 (mb_timestamp b)) else Inl ''unsupported''),
      UnmarshalBlock = (\<lambda>bs. case le_get32 bs of None \<Rightarrow> Inl ''short''
        | Some t \<Rightarrow> Inr \<lparr>mb_timestamp = t, mb_transactions = []\<rparr>),
      MarshalOptions = (\<lambda>m. if m = no_options then Inr [] else Inl ''unsupported''),
      UnmarshalOptions = (\<lambda>bs. Inr no_options)\<rparr>"

lemma codec_ok_codec0 [simp]: "codec_ok codec0"
  by (auto simp: codec_ok_def codec0_def go_simps split: if_splits)

definition store0 :: "mem_db store" where
  "store0 = \<lparr>st_db = [], heightIndexed = None, heightSynced = Some 9, tokens = native_tokens env0\<rparr>"

definition alice :: address where "alice = replicate 20 5"
definition bob :: address where "bob = replicate 20 6"

lemma people_are_addr [simp]: "is_addr alice" "is_addr bob" "alice \<noteq> bob" "bob \<noteq> alice"
  by (simp_all add: is_addr_def alice_def bob_def)

definition diffs0 :: "diff list" where
  "diffs0 = [((alice, ontAddr env0), 70), ((bob, ontAddr env0), 30)]"

definition block0 :: "u32 \<Rightarrow> diff list \<Rightarrow> blockState" where
  "block0 h ds =
     \<lparr>bs_block = \<lparr>mb_timestamp = 7, mb_transactions = []\<rparr>, bs_changes = map (change_at env0 h) ds,
      bs_hashes = [replicate 32 3], bs_id = \<lparr>bid_byHeight = False, bid_hash = replicate 32 4, bid_height = h\<rparr>,
      bs_synced = 9\<rparr>"

lemma block0_simps [simp]:
  "bs_changes (block0 h ds) = map (change_at env0 h) ds" "bid_height (bs_id (block0 h ds)) = h"
  "bid_hash (bs_id (block0 h ds)) = replicate 32 4" "bs_hashes (block0 h ds) = [replicate 32 3]"
  "bs_synced (block0 h ds) = 9" "bs_block (block0 h ds) = \<lparr>mb_timestamp = 7, mb_transactions = []\<rparr>"
  "MarshalBlock codec0 (bs_block (block0 h ds)) = Inr (le_put32 7)"
  by (simp_all add: block0_def codec0_def)

lemma diffs_ok_diffs0 [simp]: "diffs_ok diffs0"
  by (simp add: diffs0_def)

lemma acct_keys_ok_empty [simp]: "acct_keys_ok E (\<lambda>x. None)"
  by (simp add: acct_keys_ok_def)

lemma store0_simps [simp]:
  "st_db store0 = []" "heightIndexed store0 = None"
  "tokens store0 = native_tokens env0"
  by (simp_all add: store0_def)

lemma mem_seek_Inr: "it \<in> set (mem_seek d k) \<Longrightarrow> \<exists>v. snd it = Inr v"
  using scan_ok_mem_seek [of d k] by (auto simp: scan_ok_def)

lemma item_amount_Inr: "snd it = Inr v \<Longrightarrow> item_amount it = Inr (big_set_bytes v)"
  by (simp add: item_amount_def)

lemma previous_balance_mem: "\<exists>v. previous_balance mem_badger d ch = Inr v"
proof -
  have amount: "\<exists>v. item_amount it = Inr v" if "it \<in> set (db_seek mem_badger d (bc_key ch))" for it
    using that mem_seek_Inr [of it d "bc_key ch"] by (auto simp: mem_badger_def item_amount_Inr)
  show ?thesis
  proof (cases "db_seek mem_badger d (bc_key ch)")
    case (Cons it rest)
    then show ?thesis
      using amount [of it] amount [of "hd rest"] by (cases rest) (auto simp: previous_balance_def)
  qed (simp add: previous_balance_def)
qed

lemma apply_changes_mem: "\<exists>d'. apply_changes mem_badger d chs = Inr d'"
proof (induction chs arbitrary: d)
  case (Cons ch chs)
  obtain v where "previous_balance mem_badger d ch = Inr v" using previous_balance_mem by blast
  then show ?case using Cons by (simp add: apply_change_def mem_badger_def)
qed simp

lemma set_all_mem: "\<exists>d'. set_all mem_badger d kvs = Inr d'"
  by (induction kvs arbitrary: d) (auto simp: mem_badger_def)

lemma setBlock_mem:
  assumes "MarshalBlock C (bs_block state) = Inr data"
  shows "\<exists>s'. setBlock mem_badger C s state = Ok s'"
proof -
  obtain d1 where "apply_changes mem_badger (st_db s) (bs_changes state) = Inr d1"
    using apply_changes_mem by blast
  moreover obtain d2 where "set_all mem_badger d1 (block_writes state data) = Inr d2"
    using set_all_mem by blast
  ultimately show ?thesis using assms by (simp add: setBlock_def update_db_def mem_badger_def)
qed

lemma setBlock_block0: "\<exists>s'. setBlock mem_badger codec0 s (block0 h ds) = Ok s'"
  by (rule setBlock_mem) (rule block0_simps)

lemma is_hash_replicate [simp]: "is_hash (replicate 32 x)"
  by (simp add: is_hash_def)

text \<open>The store after a first block at height 4.\<close>

lemma store_after_block0:
  assumes "diffs_ok ds"
  obtains s where "setBlock mem_badger codec0 store0 (block0 4 ds) = Ok s" "acct_keys_ok env0 (map_of (st_db s))"
    "block_at codec0 (map_of (st_db s)) 4 (replicate 32 4) (bs_block (block0 4 ds))"
    "heightIndexed s = Some 4" "heightSynced s = Some 9" "tokens s = native_tokens env0"
    "\<And>a c. is_addr a \<Longrightarrow> is_addr c \<Longrightarrow> acct_hist env0 (map_of (st_db s)) a c =
      (case map_of ds (a, c) of None \<Rightarrow> Map.empty | Some \<delta> \<Rightarrow> [4 \<mapsto> \<bar>\<delta>\<bar>])"
proof -
  obtain s where s: "setBlock mem_badger codec0 store0 (block0 4 ds) = Ok s" using setBlock_block0 by blast
  have empty: "acct_hist env0 Map.empty a c = Map.empty" for a c
    by (simp add: acct_hist_def fun_eq_iff)
  from setBlock_effect [OF badger_ok_mem env_ok_env0 _ assms _ s] obtain data where
    1: "MarshalBlock codec0 (bs_block (block0 4 ds)) = Inr data"
    "map_of (st_db s) = block_contents env0 Map.empty ds (block0 4 ds) data"
    "heightIndexed s = Some 4" "heightSynced s = Some 9" "tokens s = native_tokens env0" by auto
  have 2: "acct_keys_ok env0 (map_of (st_db s))"
    using acct_keys_ok_block [OF env_ok_env0 assms, of Map.empty] by (simp add: 1(2) acct_keys_ok_def)
  have 3: "block_at codec0 (map_of (st_db s)) 4 (replicate 32 4) (bs_block (block0 4 ds))"
    using block_at_new [OF codec_ok_codec0 1(1), where state = "block0 4 ds" and E = env0 and m = Map.empty and ds = ds]
    by (simp only: 1(2) block0_simps is_hash_replicate simp_thms)
  have 4: "acct_hist env0 (map_of (st_db s)) a c =
      (case map_of ds (a, c) of None \<Rightarrow> Map.empty | Some \<delta> \<Rightarrow> [4 \<mapsto> \<bar>\<delta>\<bar>])" if "is_addr a" "is_addr c" for a c
    by (simp add: 1(2) acct_hist_block assms that empty post_def latest_before_none split: option.split)
  show thesis by (rule that [OF s 2 3 1(3-5) 4])
qed

section \<open>Repetition and order\<close>

lemma new_entries_distinct:
  "env_ok E \<Longrightarrow> diffs_ok ds \<Longrightarrow> distinct (map fst (map (new_entry E m h) ds))"
proof (induction ds)
  case (Cons x ds)
  obtain a c \<delta> where x: "x = ((a, c), \<delta>)" by (metis prod.exhaust_sel)
  have "fst (new_entry E m h x) = acct_key E a c h" by (simp add: new_entry_def x)
  then show ?case
    using Cons new_entry_fresh [of E a c \<delta> ds m h] x by (auto simp: map_of_eq_None_iff)
qed simp

lemma block_contents_perm:
  assumes "env_ok E" "diffs_ok ds" "diffs_ok ds'" "set ds = set ds'"
  shows "block_contents E m ds state data = block_contents E m ds' state data"
proof -
  have "map_of (map (new_entry E m h) ds) = map_of (map (new_entry E m h) ds')" for h
    using assms(4) new_entries_distinct [OF assms(1,2)] new_entries_distinct [OF assms(1,3)]
    by (subst map_of_inject_set) simp_all
  then show ?thesis by (simp add: block_contents_def)
qed

lemma block_contents_again:
  assumes "env_ok E" "diffs_ok ds"
  shows "block_contents E (block_contents E m ds state data) ds state data =
    block_contents E m ds state data"
proof -
  let ?h = "bid_height (bs_id state)" and ?m = "block_contents E m ds state data"
  have "new_entry E ?m ?h d = new_entry E m ?h d" if "d \<in> set ds" for d
  proof -
    have "is_addr (fst (fst d))" "is_addr (snd (fst d))" using assms(2) that by (auto simp: diffs_ok_def)
    then have "latest_before (acct_hist E ?m (fst (fst d)) (snd (fst d))) (unat ?h) =
      latest_before (acct_hist E m (fst (fst d)) (snd (fst d))) (unat ?h)"
      by (simp add: acct_hist_block [OF assms] split: option.split)
    then show ?thesis by (simp add: new_entry_def)
  qed
  then have "map (new_entry E ?m ?h) ds = map (new_entry E m ?h) ds" by simp
  then have "block_contents E ?m ds state data =
      (?m ++ map_of (map (new_entry E m ?h) ds)) ++ map_of (rev (block_writes state data))"
    by (simp only: block_contents_def [of E "block_contents E m ds state data"])
  then show ?thesis
    by (auto simp: block_contents_def [of E m] map_add_def fun_eq_iff split: option.split)
qed

section \<open>Balances\<close>

lemma balance_filter_eq:
  "balance_filter E s currencies flt =
     bind_res (map_res (validateCurrency E s) currencies) (\<lambda>infos. Ok (flt \<union> ci_contract ` set infos))"
proof (induction currencies arbitrary: flt)
  case (Cons c cs)
  have "insert x flt \<union> X = flt \<union> insert x X" for x :: address and X by blast
  then show ?case
    by (cases "validateCurrency E s c"; cases "map_res (validateCurrency E s) cs") (simp_all add: Cons)
qed simp

text \<open>The amount a balance query reports for one contract.\<close>

definition reported :: "env \<Rightarrow> 'db store \<Rightarrow> (bytes \<rightharpoonup> bytes) \<Rightarrow> address \<Rightarrow> u32 \<Rightarrow> address \<Rightarrow> amount" where
  "reported E s m acct h c =
     \<lparr>am_value = big_string (latest (acct_hist E m acct c) (unat h)),
      am_currency = Some (ci_currency (the (tokens s c)))\<rparr>"

lemma balance_loop_eq:
  assumes "badger_ok B con" "env_ok E" "acct_keys_ok E (con (st_db s))" "is_addr acct"
    and "info_hval info = encode_height (info_height info)"
    and "\<forall>c\<in>set contracts. is_addr c \<and> tokens s c \<noteq> None"
  shows "balance_loop E B s info acct filtered flt contracts balances =
    Ok (balances @ map (reported E s (con (st_db s)) acct (info_height info))
      (filter (\<lambda>c. \<not> filtered \<or> ci_contract (the (tokens s c)) \<in> flt) contracts))"
  using assms(6)
proof (induction contracts arbitrary: balances)
  case (Cons c cs)
  then obtain cinfo where "tokens s c = Some cinfo" "is_addr c" by auto
  then show ?case
    using Cons lookup_balance_latest [OF assms(1-4), of c "info_height info"]
    by (cases filtered)
      (simp_all add: getCurrencyInfo_def Let_def assms(5) reported_def acct_prefix_def acct_key_def)
qed simp

lemma getBlockInfoRaw_hval:
  "getBlockInfoRaw E B C s bid withBlock = Ok info \<Longrightarrow> info_hval info = encode_height (info_height info)"
  by (auto simp: getBlockInfoRaw_def finish_view_def
      split: resolved.splits option.splits if_splits sum.splits prod.splits berr.splits)

lemma getBlockInfo_hval:
  "getBlockInfo E B C s pid withBlock = Ok info \<Longrightarrow> info_hval info = encode_height (info_height info)"
  by (auto simp: getBlockInfo_def res_simps getBlockInfoRaw_hval split: if_splits)

section \<open>Registered currencies\<close>

text \<open>The shape of every entry of the token table.\<close>

definition token_ok :: "env \<Rightarrow> address \<Rightarrow> currencyInfo \<Rightarrow> bool" where
  "token_ok E a info \<longleftrightarrow> is_addr a \<and> ci_contract info = a \<and>
     cur_metadata (ci_currency info) = Some [''contract'' \<mapsto> JString (ToHexString E a)]"

lemma make_tokens_ok:
  assumes "env_ok E" "\<forall>t\<in>set oep4. is_addr (tk_contract t)" "make_tokens E oep4 a = Some info"
  shows "token_ok E a info"
proof -
  have "\<forall>a info. foldl (\<lambda>tokens token. tokens(tk_contract token \<mapsto> oep4_currency E token)) m oep4 a = Some info \<longrightarrow>
      token_ok E a info" if "\<forall>a info. m a = Some info \<longrightarrow> token_ok E a info" for m
    using assms(2) that
  proof (induction oep4 arbitrary: m)
    case (Cons t ts)
    have "token_ok E (tk_contract t) (oep4_currency E t)"
      using Cons.prems by (simp add: token_ok_def oep4_currency_def)
    then show ?case using Cons.prems by (simp only: foldl.simps) (rule Cons.IH; simp)
  qed simp
  moreover have "\<forall>a info. native_tokens E a = Some info \<longrightarrow> token_ok E a info"
    using assms(1) by (simp add: native_tokens_def native_currency_def token_ok_def)
  ultimately show ?thesis using assms(3) by (simp add: make_tokens_def)
qed

lemma NewStore_tokens: "NewStore E B opened oep4 offline current = Ok s \<Longrightarrow> tokens s = make_tokens E oep4"
  by (auto simp: NewStore_def Let_def split: sum.splits if_splits res.splits berr.splits)

lemma validateCurrency_registered:
  assumes "env_ok E" "token_ok E a info" "tokens s a = Some info"
  shows "validateCurrency E s (Some (ci_currency info)) = Ok info"
  using assms by (simp add: validateCurrency_def token_ok_def)

section \<open>Properties\<close>

text \<open>C8: \<^verbatim>\<open>setBlock\<close> implements the abstract ledger. The entries of an account and a contract
  after it are those before it, with the difference of the block posted at its height if
  there is one (the new balance is the absolute value of the sum), and nothing else in the
  account entries changes; the key layout is kept.\<close>

theorem setBlock_posts:
  assumes "badger_ok B con" "env_ok E" "acct_keys_ok E (con (st_db s))" "diffs_ok ds"
    and "bs_changes state = map (change_at E (bid_height (bs_id state))) ds"
    and "setBlock B C s state = Ok s'"
  shows "acct_keys_ok E (con (st_db s')) \<and>
    (\<forall>a c. is_addr a \<and> is_addr c \<longrightarrow>
      acct_hist E (con (st_db s')) a c =
        (case map_of ds (a, c) of
           None \<Rightarrow> acct_hist E (con (st_db s)) a c
         | Some \<delta> \<Rightarrow> post (unat (bid_height (bs_id state))) \<delta> (acct_hist E (con (st_db s)) a c)))"
  by (rule setBlock_effect [OF assms]) (simp add: acct_hist_block acct_keys_ok_block assms)

theorem setBlock_posts_witness:
  "\<exists>s'. setBlock mem_badger codec0 store0 (block0 4 diffs0) = Ok s' \<and>
    acct_hist env0 (map_of (st_db s')) alice (ontAddr env0) = post 4 70 (acct_hist env0 Map.empty alice (ontAddr env0))"
proof -
  obtain s' where s': "setBlock mem_badger codec0 store0 (block0 4 diffs0) = Ok s'"
    using setBlock_block0 by blast
  moreover have "map_of diffs0 (alice, ontAddr env0) = Some 70" by (simp add: diffs0_def)
  ultimately show ?thesis
    using setBlock_posts [OF badger_ok_mem env_ok_env0 _ diffs_ok_diffs0 _ s'] by simp
qed

text \<open>C20: a balance query answers from the history. For every selected block, the reported
  amounts are the latest entries not above the height of the block, one for each requested
  contract that the currency filter of the request admits, in the order of the contracts.\<close>

theorem getBalance_history:
  assumes "badger_ok B con" "env_ok E" "acct_keys_ok E (con (st_db s))" "is_addr acct"
    and "\<forall>c\<in>set contracts. is_addr c \<and> tokens s c \<noteq> None"
    and "getBlockInfo E B C s pid False = Ok info"
    and "map_res (validateCurrency E s) currencies = Ok infos"
  shows "getBalance E B C s pid acct currencies contracts =
    Ok \<lparr>br_balances = map (reported E s (con (st_db s)) acct (info_height info))
          (filter (\<lambda>c. currencies = [] \<or> ci_contract (the (tokens s c)) \<in> ci_contract ` set infos) contracts),
        br_blockID = info_blockID info\<rparr>"
  using balance_loop_eq [OF assms(1-4) getBlockInfo_hval [OF assms(6)] assms(5)]
  using assms(6,7) by (cases "currencies = []") (simp_all add: getBalance_def balance_filter_eq)

theorem getBalance_history_witness:
  "\<exists>s. setBlock mem_badger codec0 store0 (block0 4 diffs0) = Ok s \<and>
    getBalance env0 mem_badger codec0 s None alice [] [ontAddr env0, ongAddr env0] =
      Ok \<lparr>br_balances =
            [\<lparr>am_value = big_string 70, am_currency = Some (ci_currency (the (native_tokens env0 (ontAddr env0))))\<rparr>,
             \<lparr>am_value = big_string 0, am_currency = Some (ci_currency (the (native_tokens env0 (ongAddr env0))))\<rparr>],
          br_blockID = \<lparr>bi_index = 4, bi_hash = Uint256ToHexString env0 (replicate 32 4)\<rparr>\<rparr>"
proof (rule store_after_block0 [OF diffs_ok_diffs0])
  fix s
  assume s: "setBlock mem_badger codec0 store0 (block0 4 diffs0) = Ok s" "acct_keys_ok env0 (map_of (st_db s))"
    "block_at codec0 (map_of (st_db s)) 4 (replicate 32 4) (bs_block (block0 4 diffs0))"
    "heightIndexed s = Some 4" "tokens s = native_tokens env0"
    "\<And>a c. is_addr a \<Longrightarrow> is_addr c \<Longrightarrow> acct_hist env0 (map_of (st_db s)) a c =
      (case map_of diffs0 (a, c) of None \<Rightarrow> Map.empty | Some \<delta> \<Rightarrow> [4 \<mapsto> \<bar>\<delta>\<bar>])"
  have "getHeight s = 4" using s(4) by (simp add: getHeight_def)
  then have info: "getBlockInfo env0 mem_badger codec0 s None False = Ok (info_of env0 4 (replicate 32 4) empty_block)"
    using getBlockInfoRaw_height [OF badger_ok_mem s(3)]
    by (simp add: getBlockInfo_def getBlockID_def no_block_selected_def id_of_height_def)
  have latest: "latest [4 \<mapsto> 70] 4 = 70" "latest Map.empty 4 = 0"
    by (rule latest_eq [of 4]; simp) (rule latest_none; simp)
  show ?thesis
    using getBalance_history [OF badger_ok_mem env_ok_env0 s(2) people_are_addr(1) _ info,
        of "[ontAddr env0, ongAddr env0]" "[]" "[]"] s(1)
    by (simp add: s(5,6) native_tokens_def reported_def info_of_def diffs0_def latest)
qed

text \<open>C34: a balance that a block would bring below zero is stored as its absolute value
  (\<^verbatim>\<open>Bytes()\<close> drops the sign), so the query reports a positive amount.\<close>

theorem setBlock_overdraft:
  assumes "badger_ok B con" "env_ok E" "acct_keys_ok E (con (st_db s))" "diffs_ok ds"
    and "bs_changes state = map (change_at E (bid_height (bs_id state))) ds"
    and "setBlock B C s state = Ok s'"
    and "is_addr a" "is_addr c" "map_of ds (a, c) = Some \<delta>"
    and "latest_before (acct_hist E (con (st_db s)) a c) (unat (bid_height (bs_id state))) + \<delta> < 0"
  shows "lookup_balance B (st_db s') (acct_prefix E a c) (acct_key E a c (bid_height (bs_id state))) =
    Inr (- (latest_before (acct_hist E (con (st_db s)) a c) (unat (bid_height (bs_id state))) + \<delta>))"
proof (rule setBlock_effect [OF assms(1-6)])
  fix data assume con: "con (st_db s') = block_contents E (con (st_db s)) ds state data"
  then have "acct_keys_ok E (con (st_db s'))" using acct_keys_ok_block assms by simp
  then show ?thesis
    using lookup_balance_latest [OF assms(1,2) _ assms(7,8), of "st_db s'"] assms(9,10)
    by (simp add: con acct_hist_block assms abs_of_neg)
qed

theorem setBlock_overdraft_witness:
  "\<exists>s'. setBlock mem_badger codec0 store0 (block0 4 [((alice, ontAddr env0), - 5)]) = Ok s' \<and>
    lookup_balance mem_badger (st_db s') (acct_prefix env0 alice (ontAddr env0)) (acct_key env0 alice (ontAddr env0) 4) = Inr 5"
proof -
  let ?b = "block0 4 [((alice, ontAddr env0), - 5)]"
  obtain s' where s': "setBlock mem_badger codec0 store0 ?b = Ok s'" using setBlock_block0 by blast
  have "latest_before (acct_hist env0 Map.empty alice (ontAddr env0)) 4 = 0"
    by (rule latest_before_none) (simp add: acct_hist_def)
  then show ?thesis
    using setBlock_overdraft [OF badger_ok_mem env_ok_env0 _ _ _ s', of "[((alice, ontAddr env0), - 5)]" alice "ontAddr env0" "- 5"] s' by simp
qed

text \<open>C26: indexing a block a second time (the genesis block is, while the indexed height is zero)
  leaves the contents of the database as they are.\<close>

theorem setBlock_again:
  assumes "badger_ok B con" "env_ok E" "acct_keys_ok E (con (st_db s))" "diffs_ok ds"
    and "bs_changes state = map (change_at E (bid_height (bs_id state))) ds"
    and "setBlock B C s state = Ok s'" "setBlock B C s' state = Ok s''"
  shows "con (st_db s'') = con (st_db s')"
proof (rule setBlock_effect [OF assms(1-6)])
  fix data assume 1: "MarshalBlock C (bs_block state) = Inr data"
    "con (st_db s') = block_contents E (con (st_db s)) ds state data"
  then have "acct_keys_ok E (con (st_db s'))" using acct_keys_ok_block assms by simp
  from setBlock_effect [OF assms(1,2) this assms(4,5,7)] obtain data' where
    "MarshalBlock C (bs_block state) = Inr data'"
    "con (st_db s'') = block_contents E (con (st_db s')) ds state data'" by metis
  with 1 show ?thesis by (simp add: block_contents_again assms)
qed

theorem setBlock_again_witness:
  "\<exists>s' s''. setBlock mem_badger codec0 store0 (block0 0 diffs0) = Ok s' \<and>
    setBlock mem_badger codec0 s' (block0 0 diffs0) = Ok s'' \<and> map_of (st_db s'') = map_of (st_db s')"
proof -
  obtain s' where s': "setBlock mem_badger codec0 store0 (block0 0 diffs0) = Ok s'" using setBlock_block0 by blast
  obtain s'' where s'': "setBlock mem_badger codec0 s' (block0 0 diffs0) = Ok s''" using setBlock_block0 by blast
  show ?thesis
    using setBlock_again [OF badger_ok_mem env_ok_env0 _ diffs_ok_diffs0 _ s' s''] s' s'' by simp
qed

text \<open>C27: the order of the changes, which the iteration over a Go map leaves open, has no
  influence on the contents of the database.\<close>

theorem setBlock_order:
  assumes "badger_ok B con" "env_ok E" "acct_keys_ok E (con (st_db s))" "diffs_ok ds"
    and "mset ds' = mset ds"
    and "bs_changes state = map (change_at E (bid_height (bs_id state))) ds"
    and "setBlock B C s state = Ok s1"
    and "setBlock B C s (state\<lparr>bs_changes := map (change_at E (bid_height (bs_id state))) ds'\<rparr>) = Ok s2"
  shows "con (st_db s2) = con (st_db s1)"
proof (rule setBlock_effect [OF assms(1-4,6,7)])
  let ?state' = "state\<lparr>bs_changes := map (change_at E (bid_height (bs_id state))) ds'\<rparr>"
  fix data assume 1: "MarshalBlock C (bs_block state) = Inr data"
    "con (st_db s1) = block_contents E (con (st_db s)) ds state data"
  have ds': "diffs_ok ds'" "set ds' = set ds"
    using assms(4,5) mset_eq_imp_distinct_iff [of "map fst ds'" "map fst ds"] mset_eq_setD [of ds' ds]
    by (auto simp: diffs_ok_def)
  from setBlock_effect [OF assms(1-3) ds'(1) _ assms(8)] obtain data' where
    "MarshalBlock C (bs_block state) = Inr data'"
    "con (st_db s2) = block_contents E (con (st_db s)) ds' ?state' data'" by auto
  with 1 show ?thesis
    using block_contents_perm [OF assms(2) ds'(1) assms(4) ds'(2)]
    by (simp add: block_contents_def block_writes_def)
qed

theorem setBlock_order_witness:
  "\<exists>s1 s2. setBlock mem_badger codec0 store0 (block0 4 diffs0) = Ok s1 \<and>
    setBlock mem_badger codec0 store0 ((block0 4 diffs0)\<lparr>bs_changes := map (change_at env0 4) (rev diffs0)\<rparr>) = Ok s2 \<and>
    map_of (st_db s2) = map_of (st_db s1)"
proof -
  let ?b = "(block0 4 diffs0)\<lparr>bs_changes := map (change_at env0 4) (rev diffs0)\<rparr>"
  obtain s1 where s1: "setBlock mem_badger codec0 store0 (block0 4 diffs0) = Ok s1" using setBlock_block0 by blast
  have "MarshalBlock codec0 (bs_block ?b) = Inr (le_put32 7)" by (simp add: codec0_def)
  then obtain s2 where s2: "setBlock mem_badger codec0 store0 ?b = Ok s2" using setBlock_mem by blast
  show ?thesis
    using setBlock_order [OF badger_ok_mem env_ok_env0 _ diffs_ok_diffs0 _ _ s1, of "rev diffs0" s2] s1 s2 by simp
qed

text \<open>C28: \<^verbatim>\<open>setBlock\<close> makes its block readable under its height and its hash, and keeps every
  other block readable; a conflicting transaction hash is found exactly if it was recorded
  before or belongs to the block.\<close>

theorem setBlock_stores:
  assumes "badger_ok B con" "env_ok E" "codec_ok C" "acct_keys_ok E (con (st_db s))" "diffs_ok ds"
    and "bs_changes state = map (change_at E (bid_height (bs_id state))) ds"
    and "is_hash (bid_hash (bs_id state))" "\<forall>x\<in>set (bs_hashes state). is_hash x"
    and "setBlock B C s state = Ok s'"
  shows "block_at C (con (st_db s')) (bid_height (bs_id state)) (bid_hash (bs_id state)) (bs_block state) \<and>
    (\<forall>h hash blk. block_at C (con (st_db s)) h hash blk \<and> h \<noteq> bid_height (bs_id state) \<and>
      hash \<noteq> bid_hash (bs_id state) \<longrightarrow> block_at C (con (st_db s')) h hash blk) \<and>
    (\<forall>x. is_hash x \<longrightarrow> checkUnsignedTxHash B s' x =
      Ok (x \<in> set (bs_hashes state) \<or> con (st_db s) (txnHashKey x) \<noteq> None))"
proof (rule setBlock_effect [OF assms(1,2,4-6,9)])
  fix data
  assume data: "MarshalBlock C (bs_block state) = Inr data"
    and con: "con (st_db s') = block_contents E (con (st_db s)) ds state data"
  have "checkUnsignedTxHash B s' x =
      Ok (x \<in> set (bs_hashes state) \<or> con (st_db s) (txnHashKey x) \<noteq> None)" if "is_hash x" for x
    using that assms(8)
    by (simp add: checkUnsignedTxHash_def badger_get [OF assms(1)] con block_contents_keys(5) split: option.split)
  then show ?thesis
    using block_at_new [OF assms(3) data assms(7)] block_at_frame [OF _ assms(7)] by (simp add: con)
qed

theorem setBlock_stores_witness:
  "\<exists>s. setBlock mem_badger codec0 store0 (block0 4 diffs0) = Ok s \<and>
    checkUnsignedTxHash mem_badger s (replicate 32 3) = Ok True \<and>
    checkUnsignedTxHash mem_badger s (replicate 32 9) = Ok False"
proof -
  obtain s where s: "setBlock mem_badger codec0 store0 (block0 4 diffs0) = Ok s" using setBlock_block0 by blast
  have "replicate 32 9 \<noteq> (replicate 32 3 :: bytes)" by (simp add: replicate_eq_replicate)
  then show ?thesis
    using setBlock_stores [OF badger_ok_mem env_ok_env0 codec_ok_codec0 _ diffs_ok_diffs0 _ _ _ s] s by simp
qed

text \<open>A stored block not above the indexed height is found by its index, by its hash and
  by both, with the same answer; an index with another (non-zero) hash is refused.\<close>

theorem getBlockInfo_stored:
  assumes "badger_ok B con" "env_ok E" "block_at C (con (st_db s)) h hash blk" "h \<le> getHeight s"
    and "hs = Uint256ToHexString E hash" "i = uint h"
  shows "getBlockInfo E B C s (Some \<lparr>pbi_index = Some i, pbi_hash = None\<rparr>) True = Ok (info_of E h hash blk) \<and>
    getBlockInfo E B C s (Some \<lparr>pbi_index = None, pbi_hash = Some hs\<rparr>) True = Ok (info_of E h hash blk) \<and>
    getBlockInfo E B C s (Some \<lparr>pbi_index = Some i, pbi_hash = Some hs\<rparr>) True = Ok (info_of E h hash blk) \<and>
    (\<forall>x. is_hash x \<and> x \<noteq> hash \<and> x \<noteq> UINT256_EMPTY \<longrightarrow>
      getBlockInfo E B C s (Some \<lparr>pbi_index = Some i, pbi_hash = Some (Uint256ToHexString E x)\<rparr>) True =
        Err errInvalidBlockIdentifier)"
proof -
  have hash: "is_hash hash" using assms(3) by (simp add: block_at_def)
  have i: "\<not> i < 0" "\<not> 4294967295 < i" "word_of_int i = h"
    using unsigned_less [where ?'a = int, of h] assms(6) by auto
  have ids: "empty_id\<lparr>bid_byHeight := True, bid_height := h\<rparr> = id_of_height h"
    "empty_id\<lparr>bid_hash := x, bid_byHeight := True, bid_height := h\<rparr> = (id_of_height h)\<lparr>bid_hash := x\<rparr>"
    "bid_byHeight (id_of_height h)" "bid_height (id_of_height h) = h"
    "\<not> bid_byHeight (empty_id\<lparr>bid_hash := x\<rparr>)" for x
    by (simp_all add: id_of_height_def empty_id_def)
  note raw = getBlockInfoRaw_height [OF assms(1,3)] getBlockInfoRaw_hash [OF assms(1,3)]
    getBlockInfoRaw_both [OF assms(1,3)]
  show ?thesis
    using assms(4) hash
    by (simp add: getBlockInfo_def getBlockID_def no_block_selected_def i ids raw assms(2,5) not_less)
qed

theorem getBlockInfo_stored_witness:
  "\<exists>s. setBlock mem_badger codec0 store0 (block0 4 diffs0) = Ok s \<and>
    getBlockInfo env0 mem_badger codec0 s (Some \<lparr>pbi_index = Some 4, pbi_hash = None\<rparr>) True =
      Ok (info_of env0 4 (replicate 32 4) (bs_block (block0 4 diffs0)))"
proof (rule store_after_block0 [OF diffs_ok_diffs0])
  fix s
  assume s: "setBlock mem_badger codec0 store0 (block0 4 diffs0) = Ok s"
    "block_at codec0 (map_of (st_db s)) 4 (replicate 32 4) (bs_block (block0 4 diffs0))"
    "heightIndexed s = Some 4"
  have h: "4 \<le> getHeight s" using s(3) by (simp add: getHeight_def)
  show ?thesis
    using getBlockInfo_stored [OF badger_ok_mem env_ok_env0 s(2) h, of _ 4] s(1) by simp
qed

text \<open>A store that is closed after indexing a block and opened again continues at that
  height, with the currencies of its configuration.\<close>

theorem NewStore_resumes:
  assumes "badger_ok B con" "env_ok E" "acct_keys_ok E (con (st_db s))" "diffs_ok ds"
    and "bs_changes state = map (change_at E (bid_height (bs_id state))) ds"
    and "setBlock B C s state = Ok s'"
  shows "NewStore E B (Inr (st_db s')) oep4 False current =
    Ok \<lparr>st_db = st_db s', heightIndexed = heightIndexed s', heightSynced = Some (uint current),
        tokens = make_tokens E oep4\<rparr>"
proof (rule setBlock_effect [OF assms])
  fix data
  assume *: "con (st_db s') = block_contents E (con (st_db s)) ds state data"
    "heightIndexed s' = Some (uint (bid_height (bs_id state)))"
  then have "read_height B (st_db s') = Ok (uint (bid_height (bs_id state)))"
    by (simp add: read_height_def badger_get [OF assms(1)] block_contents_keys go_simps)
  with * show ?thesis by (simp add: NewStore_def Let_def)
qed

theorem NewStore_resumes_witness:
  "\<exists>s s'. setBlock mem_badger codec0 store0 (block0 4 diffs0) = Ok s \<and>
    NewStore env0 mem_badger (Inr (st_db s)) [] False 9 = Ok s' \<and> heightIndexed s' = Some 4"
proof (rule store_after_block0 [OF diffs_ok_diffs0])
  fix s assume s: "setBlock mem_badger codec0 store0 (block0 4 diffs0) = Ok s" "heightIndexed s = Some 4"
  show ?thesis
    using NewStore_resumes [OF badger_ok_mem env_ok_env0 _ diffs_ok_diffs0 _ s(1), of "[]" 9] s by simp
qed

text \<open>C35: in every store that \<^verbatim>\<open>NewStore\<close> opens, a registered currency is keyed by its own
  contract and passes the check of currencies, and whatever passes that check is a registered
  currency with the decimals and the symbol it was registered with.\<close>

theorem validateCurrency_exact:
  assumes "env_ok E" "\<forall>t\<in>set oep4. is_addr (tk_contract t)"
    and "NewStore E B opened oep4 offline current = Ok s"
  shows "(\<forall>a info. tokens s a = Some info \<longrightarrow>
      ci_contract info = a \<and> validateCurrency E s (Some (ci_currency info)) = Ok info) \<and>
    (\<forall>cur info. validateCurrency E s (Some cur) = Ok info \<longrightarrow>
      tokens s (ci_contract info) = Some info \<and> cur_decimals cur = cur_decimals (ci_currency info) \<and>
      cur_symbol cur = cur_symbol (ci_currency info))"
proof -
  have ok: "token_ok E a info" if "tokens s a = Some info" for a info
    using that make_tokens_ok [OF assms(1,2)] NewStore_tokens [OF assms(3)] by simp
  have "tokens s (ci_contract info) = Some info \<and> cur_decimals cur = cur_decimals (ci_currency info) \<and>
      cur_symbol cur = cur_symbol (ci_currency info)" if "validateCurrency E s (Some cur) = Ok info" for cur info
    using that ok by (auto simp: validateCurrency_def token_ok_def
        split: option.splits jval.splits sum.splits if_splits)
  then show ?thesis using ok validateCurrency_registered [OF assms(1) ok] by (auto simp: token_ok_def)
qed

theorem validateCurrency_exact_witness:
  "\<exists>s. NewStore env0 mem_badger (Inr []) [] True 9 = Ok s \<and>
    validateCurrency env0 s (Some (ci_currency (native_currency env0 (ongAddr env0) 18 ''ONG''))) =
      Ok (native_currency env0 (ongAddr env0) 18 ''ONG'')"
proof -
  obtain s where s: "NewStore env0 mem_badger (Inr []) [] True 9 = Ok s" "tokens s = native_tokens env0"
    by (simp add: NewStore_def Let_def make_tokens_def)
  then have "tokens s (ongAddr env0) = Some (native_currency env0 (ongAddr env0) 18 ''ONG'')"
    by (simp add: native_tokens_def)
  then show ?thesis
    using validateCurrency_exact [OF env_ok_env0 _ s(1)] s(1) by simp
qed

end
