(* ===== verification/Events.thy ===== *)
theory Events
  imports Model Keys
begin

text \<open>
  Transfer events (src/services/store.go): how the notifications of a block's transactions are
  decoded to transfers (\<^verbatim>\<open>decodeTransfer\<close>, \<^verbatim>\<open>parseEvmOngTransferLog\<close>), which of them are counted
  (\<^verbatim>\<open>checkgasVerified\<close>), and how they are added to the balance differences (\<^verbatim>\<open>balanceCal\<close>). The
  EVM log conversion and the ABI decoder are third-party: fields of \<open>evm_lib\<close>.
\<close>

section \<open>Notifications\<close>

text \<open>
  An element of the state of an event, as far as the reflection of \<^verbatim>\<open>decodeTransfer\<close> tells them
  apart: a string, a \<^verbatim>\<open>json.Number\<close> (whose kind is string as well), another value, or nil.
\<close>

datatype elem = EString string | ENumber string | EOther | ENil

datatype states = SList "elem list" | SOther

record notify =
  ev_contract :: address
  ev_states :: states

record execute_notify =
  en_tx_hash :: hash256
  en_failed :: bool  \<comment> \<open>\<^verbatim>\<open>State == event.CONTRACT_STATE_FAIL\<close>\<close>
  en_gas_consumed :: u64
  en_notify :: "notify list"

record evm_log =
  log_address :: bytes
  log_topics :: "bytes list"
  log_data :: bytes

record erc20_transfer =
  erc_from :: bytes
  erc_to :: bytes
  erc_value :: int

record evm_lib =
  NotifyEventInfoToEvmLog :: "notify \<Rightarrow> string + evm_log"
  UnpackLog :: "evm_log \<Rightarrow> string + erc20_transfer"
  HexToAddress :: "string \<Rightarrow> bytes"

text \<open>The ABI decoder yields 20-byte addresses and an unsigned value.\<close>

definition evm_ok :: "evm_lib \<Rightarrow> bool" where
  "evm_ok L \<longleftrightarrow> (\<forall>log t. UnpackLog L log = Inr t \<longrightarrow>
     is_addr (erc_from t) \<and> is_addr (erc_to t) \<and> 0 \<le> erc_value t)"

definition ONG_ADDR :: "evm_lib \<Rightarrow> bytes" where
  "ONG_ADDR L = HexToAddress L ''0x0000000000000000000000000000000000000002''"

definition GOV_ADDR :: "evm_lib \<Rightarrow> bytes" where
  "GOV_ADDR L = HexToAddress L ''0x0000000000000000000000000000000000000007''"

section \<open>Standard library\<close>

fun is_kind_string :: "elem \<Rightarrow> bool" where
  "is_kind_string (EString _) = True"
| "is_kind_string (ENumber _) = True"
| "is_kind_string _ = False"

fun elem_string :: "elem \<Rightarrow> string" where
  "elem_string (EString s) = s"
| "elem_string (ENumber s) = s"
| "elem_string _ = []"

text \<open>\<^verbatim>\<open>json.Number.Int64\<close> is \<^verbatim>\<open>strconv.ParseInt(s, 10, 64)\<close>.\<close>

definition Int64 :: "string \<Rightarrow> int option" where
  "Int64 s =
     (case big_parse s of
        None \<Rightarrow> None
      | Some i \<Rightarrow> if - (2 ^ 63) \<le> i \<and> i < 2 ^ 63 then Some i else None)"

text \<open>
  \<^verbatim>\<open>bytes.EqualFold\<close> against lower-case ASCII letters: each matches its upper case, and \<^verbatim>\<open>s\<close>
  matches the long s (U+017F), \<^verbatim>\<open>k\<close> the Kelvin sign (U+212A), in their UTF-8 encodings.
\<close>

fun EqualFold :: "bytes \<Rightarrow> bytes \<Rightarrow> bool" where
  "EqualFold xs [] \<longleftrightarrow> xs = []"
| "EqualFold [] (p # ps) \<longleftrightarrow> False"
| "EqualFold (x # xs) (p # ps) \<longleftrightarrow>
     (if x = p \<or> x = p - 32 then EqualFold xs ps
      else if p = 115 \<and> x = 197 \<and> take 1 xs = [191] then EqualFold (drop 1 xs) ps
      else if p = 107 \<and> x = 226 \<and> take 2 xs = [132, 170] then EqualFold (drop 2 xs) ps
      else False)"

text \<open>\<^verbatim>\<open>[]byte("transfer")\<close>\<close>

definition transfer_bytes :: bytes where
  "transfer_bytes = [116, 114, 97, 110, 115, 102, 101, 114]"

section \<open>\<^verbatim>\<open>decodeTransfer\<close>\<close>

text \<open>
  \<open>Ok None\<close> is the result nil (the event is ignored, with a log message); \<^verbatim>\<open>rv.Type()\<close> of a nil
  element panics. A negative amount of a native contract calls \<^verbatim>\<open>log.Fatalf\<close>, hence \<^verbatim>\<open>process.Exit\<close>
  (src/process/process.go): it does not return (\<open>Panic\<close>), unless an exit of the process is under
  way already; then it returns at once and the decoding goes on with the negative amount. The
  argument \<open>exiting\<close> tells the two apart. One truth value serves a whole block: the flag is only
  ever set, and a call that finds it unset never returns.
\<close>

fun native_strings :: "elem list \<Rightarrow> (go_error, string list option) res" where
  "native_strings [] = Ok (Some [])"
| "native_strings (e # es) =
     (if \<not> is_kind_string e then (if e = ENil then Panic else Ok None)
      else bind_res (native_strings es) (\<lambda>r. Ok (map_option (\<lambda>ss. elem_string e # ss) r)))"

text \<open>A number of the native branch: its type is checked, then it is read, then its sign.\<close>

fun native_number :: "bool \<Rightarrow> elem \<Rightarrow> (go_error, int option) res" where
  "native_number exiting (ENumber raw) =
     (case Int64 raw of None \<Rightarrow> Ok None | Some i \<Rightarrow> if i < 0 \<and> \<not> exiting then Panic else Ok (Some i))"
| "native_number exiting ENil = Panic"
| "native_number exiting _ = Ok None"

definition native_gas :: "env \<Rightarrow> execute_notify \<Rightarrow> notify \<Rightarrow> address \<Rightarrow> int \<Rightarrow> bool" where
  "native_gas E info evt to amount \<longleftrightarrow>
     ev_contract evt = ongAddr E \<and> to = govAddr E \<and> word_of_int amount = en_gas_consumed info"

definition decode_native ::
  "env \<Rightarrow> bool \<Rightarrow> execute_notify \<Rightarrow> notify \<Rightarrow> elem list \<Rightarrow> (go_error, transfer option) res" where
  "decode_native E exiting info evt elems =
     bind_res (native_strings (take 3 elems)) (\<lambda>r. case r of
       None \<Rightarrow> Ok None
     | Some state \<Rightarrow>
         if state ! 0 \<noteq> ''transfer'' then Ok None
         else
           (case AddressFromBase58 E (state ! 1) of
              Inl err \<Rightarrow> Ok None
            | Inr from \<Rightarrow>
           (case AddressFromBase58 E (state ! 2) of
              Inl err \<Rightarrow> Ok None
            | Inr to \<Rightarrow>
           bind_res (native_number exiting (elems ! 3)) (\<lambda>r. case r of
             None \<Rightarrow> Ok None
           | Some amount \<Rightarrow>
               if length elems = 5 then
                 bind_res (native_number exiting (elems ! 4)) (\<lambda>r. case r of
                   None \<Rightarrow> Ok None
                 | Some val \<Rightarrow>
                     Ok (Some \<lparr>tr_amount = amount * GWei E + val, tr_from = from,
                       tr_isGas = native_gas E info evt to amount, tr_to = to\<rparr>))
               else
                 Ok (Some \<lparr>tr_amount = amount * GWei E, tr_from = from,
                   tr_isGas = native_gas E info evt to amount, tr_to = to\<rparr>)))))"

fun oep4_strings :: "elem list \<Rightarrow> bytes list option" where
  "oep4_strings [] = Some []"
| "oep4_strings (e # es) =
     (if \<not> is_kind_string e then None
      else (case hex_decode (elem_string e) of
              None \<Rightarrow> None
            | Some val \<Rightarrow> map_option (\<lambda>vs. val # vs) (oep4_strings es)))"

text \<open>A null address leaves the zero value of the field.\<close>

definition oep4_address :: "env \<Rightarrow> bytes \<Rightarrow> address option" where
  "oep4_address E v =
     (if isNull v then Some (replicate 20 0)
      else (case AddressParseFromBytes E v of Inl err \<Rightarrow> None | Inr a \<Rightarrow> Some a))"

definition decode_oep4 :: "env \<Rightarrow> elem list \<Rightarrow> transfer option" where
  "decode_oep4 E elems =
     (case oep4_strings (take 4 elems) of
        None \<Rightarrow> None
      | Some state \<Rightarrow>
          if \<not> EqualFold (state ! 0) transfer_bytes then None
          else
            (case oep4_address E (state ! 1) of
               None \<Rightarrow> None
             | Some from \<Rightarrow>
            (case oep4_address E (state ! 2) of
               None \<Rightarrow> None
             | Some to \<Rightarrow>
                 (let amount = BigIntFromNeoBytes E (state ! 3)
                  in if amount < 0 then None
                     else Some \<lparr>tr_amount = amount, tr_from = from, tr_isGas = False, tr_to = to\<rparr>))))"

definition decodeTransfer :: "env \<Rightarrow> bool \<Rightarrow> execute_notify \<Rightarrow> notify \<Rightarrow> (go_error, transfer option) res" where
  "decodeTransfer E exiting info evt =
     (case ev_states evt of
        SOther \<Rightarrow> Ok None
      | SList elems \<Rightarrow>
          if length elems \<noteq> 4 \<and> length elems \<noteq> 5 then Ok None
          else if ev_contract evt = ontAddr E \<or> ev_contract evt = ongAddr E then decode_native E exiting info evt elems
          else Ok (decode_oep4 E elems))"

section \<open>EVM transfers\<close>

definition checkEvmEventLog :: "evm_lib \<Rightarrow> notify \<Rightarrow> evm_log option" where
  "checkEvmEventLog L evt =
     (case NotifyEventInfoToEvmLog L evt of Inl err \<Rightarrow> None | Inr log \<Rightarrow> Some log)"

definition parseEvmOngTransferLog ::
  "env \<Rightarrow> evm_lib \<Rightarrow> evm_log \<Rightarrow> u64 \<Rightarrow> (go_error, transfer) res" where
  "parseEvmOngTransferLog E L log gasConsumed =
     (if log_address log = ONG_ADDR L then
        (case UnpackLog L log of
           Inl err \<Rightarrow> Err (ExtError err)
         | Inr tf \<Rightarrow>
             Ok \<lparr>tr_amount = erc_value tf, tr_from = erc_from tf,
                 tr_isGas = (erc_to tf = GOV_ADDR L \<and>
                   word_of_int \<bar>erc_value tf\<bar> div word_of_int (GWei E) = gasConsumed),
                 tr_to = erc_to tf\<rparr>)
      else Err (Errorf ''parse evm ong transfer error'' []))"

section \<open>\<^verbatim>\<open>checkgasVerified\<close>\<close>

text \<open>The result: \<^verbatim>\<open>gasVerified\<close>, \<^verbatim>\<open>isGas\<close>, \<^verbatim>\<open>isContinue\<close>.\<close>

definition checkgasVerified ::
  "env \<Rightarrow> address \<Rightarrow> address \<Rightarrow> address \<Rightarrow> bool \<Rightarrow> bool \<Rightarrow> bool \<Rightarrow> bool \<times> bool \<times> bool" where
  "checkgasVerified E contractAddress payer from failed gasVerified isGas =
     (if failed \<and> contractAddress \<noteq> ongAddr E then (False, False, True)
      else if failed \<and> gasVerified then (False, False, True)
      else if gasVerified then (gasVerified, False, False)
      else if isGas then
        (if payer = from then (True, isGas, False) else (gasVerified, False, False))
      else (False, False, False))"

section \<open>\<^verbatim>\<open>balanceCal\<close>\<close>

type_synonym diffs = "address \<rightharpoonup> (address \<rightharpoonup> int)"

definition sub_from :: "diffs \<Rightarrow> address \<Rightarrow> address \<Rightarrow> int \<Rightarrow> diffs" where
  "sub_from diffs acct contract amount =
     (case diffs acct of
        Some accts \<Rightarrow>
          (case accts contract of
             Some balance \<Rightarrow> diffs(acct \<mapsto> accts(contract \<mapsto> balance - amount))
           | None \<Rightarrow> diffs(acct \<mapsto> accts(contract \<mapsto> - amount)))
      | None \<Rightarrow> diffs(acct \<mapsto> [contract \<mapsto> - amount]))"

definition add_to :: "diffs \<Rightarrow> address \<Rightarrow> address \<Rightarrow> int \<Rightarrow> diffs" where
  "add_to diffs acct contract amount =
     (case diffs acct of
        Some accts \<Rightarrow>
          (case accts contract of
             Some balance \<Rightarrow> diffs(acct \<mapsto> accts(contract \<mapsto> balance + amount))
           | None \<Rightarrow> diffs(acct \<mapsto> accts(contract \<mapsto> amount)))
      | None \<Rightarrow> diffs(acct \<mapsto> [contract \<mapsto> amount]))"

text \<open>
  The numbers are values here: each transfer has a \<^verbatim>\<open>big.Int\<close> of its own, which at most one entry
  of \<^verbatim>\<open>diffs\<close> shares, and \<^verbatim>\<open>Bytes\<close> copies it before a later transfer updates that entry.
\<close>

definition balanceCal :: "env \<Rightarrow> transfer \<Rightarrow> address \<Rightarrow> diffs \<Rightarrow> mtransfer \<times> diffs" where
  "balanceCal E xfer contract diffs =
     (let diffs1 = (if tr_from xfer \<noteq> nullAddr E
            then sub_from diffs (tr_from xfer) contract (tr_amount xfer) else diffs);
          diffs2 = (if tr_to xfer \<noteq> nullAddr E
            then add_to diffs1 (tr_to xfer) contract (tr_amount xfer) else diffs1)
      in (\<lparr>mx_amount = big_bytes (tr_amount xfer), mx_contract = addr2slice E contract,
           mx_from = addr2slice E (tr_from xfer), mx_is_gas = tr_isGas xfer,
           mx_to = addr2slice E (tr_to xfer)\<rparr>, diffs2))"

section \<open>What a transfer means\<close>

text \<open>
  The difference recorded for an account and a contract, and the difference one transfer (as
  decoded, and as stored in the block) makes to an account. The null address is no account:
  a transfer from it mints, a transfer to it burns.
\<close>

definition diff_at :: "diffs \<Rightarrow> address \<Rightarrow> address \<Rightarrow> int" where
  "diff_at diffs a c = (case diffs a of None \<Rightarrow> 0 | Some m \<Rightarrow> (case m c of None \<Rightarrow> 0 | Some d \<Rightarrow> d))"

definition delta :: "env \<Rightarrow> transfer \<Rightarrow> address \<Rightarrow> int" where
  "delta E x a =
     (if a = nullAddr E then 0
      else (if tr_to x = a then tr_amount x else 0) - (if tr_from x = a then tr_amount x else 0))"

definition mdelta :: "env \<Rightarrow> mtransfer \<Rightarrow> address \<Rightarrow> address \<Rightarrow> int" where
  "mdelta E t c a =
     (if a = nullAddr E \<or> mx_contract t \<noteq> addr2slice E c then 0
      else (if mx_to t = addr2slice E a then big_set_bytes (mx_amount t) else 0) -
           (if mx_from t = addr2slice E a then big_set_bytes (mx_amount t) else 0))"

definition xfer_ok :: "env \<Rightarrow> transfer \<Rightarrow> bool" where
  "xfer_ok E x \<longleftrightarrow> is_addr (tr_from x) \<and> is_addr (tr_to x) \<and> 0 \<le> tr_amount x"

lemma addr2slice_inj:
  assumes "env_ok E" "is_addr a" "is_addr b"
  shows "addr2slice E a = addr2slice E b \<longleftrightarrow> a = b"
  using assms addr2slice_prefix_free [of E a b "[]" "[]"] by auto

lemma diff_at_sub_from [simp]:
  "diff_at (sub_from diffs b c amt) a c' = diff_at diffs a c' - (if a = b \<and> c' = c then amt else 0)"
  by (auto simp: diff_at_def sub_from_def split: option.split)

lemma diff_at_add_to [simp]:
  "diff_at (add_to diffs b c amt) a c' = diff_at diffs a c' + (if a = b \<and> c' = c then amt else 0)"
  by (auto simp: diff_at_def add_to_def split: option.split)

lemma diff_at_empty [simp]: "diff_at (\<lambda>x. None) a c = 0"
  by (simp add: diff_at_def)

lemma balanceCal_diff:
  "diff_at (snd (balanceCal E x c diffs)) a c' = diff_at diffs a c' + (if c' = c then delta E x a else 0)"
  by (auto simp: balanceCal_def Let_def delta_def)

lemma balanceCal_mdelta:
  assumes "env_ok E" "xfer_ok E x" "is_addr a" "is_addr c" "is_addr c'"
  shows "mdelta E (fst (balanceCal E x c diffs)) c' a = (if c' = c then delta E x a else 0)"
  using assms by (auto simp: balanceCal_def Let_def mdelta_def delta_def xfer_ok_def addr2slice_inj go_simps)

text \<open>The accounts and contracts the differences mention.\<close>

definition diffs_valid :: "env \<Rightarrow> diffs \<Rightarrow> bool" where
  "diffs_valid E diffs \<longleftrightarrow>
     (\<forall>a m. diffs a = Some m \<longrightarrow> is_addr a \<and> a \<noteq> nullAddr E \<and> (\<forall>c. m c \<noteq> None \<longrightarrow> is_addr c))"

lemma diffs_valid_empty [simp]: "diffs_valid E (\<lambda>x. None)"
  by (simp add: diffs_valid_def)

lemma diffs_valid_sub_from:
  "diffs_valid E diffs \<Longrightarrow> is_addr a \<Longrightarrow> a \<noteq> nullAddr E \<Longrightarrow> is_addr c \<Longrightarrow> diffs_valid E (sub_from diffs a c amt)"
  by (auto simp: diffs_valid_def sub_from_def split: option.split)

lemma diffs_valid_add_to:
  "diffs_valid E diffs \<Longrightarrow> is_addr a \<Longrightarrow> a \<noteq> nullAddr E \<Longrightarrow> is_addr c \<Longrightarrow> diffs_valid E (add_to diffs a c amt)"
  by (auto simp: diffs_valid_def add_to_def split: option.split)

lemma balanceCal_valid:
  "diffs_valid E diffs \<Longrightarrow> xfer_ok E x \<Longrightarrow> is_addr c \<Longrightarrow> diffs_valid E (snd (balanceCal E x c diffs))"
  by (auto simp: balanceCal_def Let_def xfer_ok_def diffs_valid_sub_from diffs_valid_add_to)

section \<open>Decoded transfers are well-formed\<close>

lemma native_number_nonneg: "native_number False e = Ok (Some i) \<Longrightarrow> 0 \<le> i"
  by (cases e) (auto split: option.splits if_splits)

lemma bind_res_option_iff:
  "bind_res m (\<lambda>r. case r of None \<Rightarrow> Ok None | Some a \<Rightarrow> f a) = Ok (Some b) \<longleftrightarrow>
   (\<exists>a. m = Ok (Some a) \<and> f a = Ok (Some b))"
  by (cases m) (auto split: option.split)

lemma decode_native_ok:
  assumes "env_ok E" "decode_native E False info evt elems = Ok (Some x)"
  shows "xfer_ok E x \<and> (tr_isGas x \<longrightarrow> tr_to x = govAddr E \<and> ev_contract evt = ongAddr E)"
proof -
  have "0 < GWei E" using assms(1) by (simp add: env_ok_def)
  then show ?thesis
    using assms by (auto simp: decode_native_def bind_res_option_iff xfer_ok_def native_gas_def
        dest!: native_number_nonneg dest: addr_base58_is_addr intro!: add_nonneg_nonneg
        split: if_splits sum.splits)
qed

lemma oep4_address_is_addr: "env_ok E \<Longrightarrow> oep4_address E v = Some a \<Longrightarrow> is_addr a"
  by (auto simp: oep4_address_def parse_addr_iff is_addr_def split: if_splits sum.splits)

lemma decode_oep4_ok:
  "env_ok E \<Longrightarrow> decode_oep4 E elems = Some x \<Longrightarrow> xfer_ok E x \<and> \<not> tr_isGas x"
  by (auto simp: decode_oep4_def xfer_ok_def Let_def dest: oep4_address_is_addr
      split: option.splits if_splits)

lemma decodeTransfer_ok:
  assumes "env_ok E" "decodeTransfer E False info evt = Ok (Some x)"
  shows "xfer_ok E x \<and> (tr_isGas x \<longrightarrow> tr_to x = govAddr E \<and> ev_contract evt = ongAddr E)"
  using assms decode_native_ok decode_oep4_ok
  by (auto simp: decodeTransfer_def split: states.splits if_splits)

text \<open>An exit under way only turns calls that do not return into calls that do.\<close>

lemma native_number_exiting: "native_number False e = Ok r \<Longrightarrow> native_number True e = Ok r"
  by (cases e) (auto split: option.splits if_splits)

lemma bind_res_mono:
  assumes "bind_res m f = Ok r" "\<And>a. m = Ok a \<Longrightarrow> m' = Ok a" "\<And>a. f a = Ok r \<Longrightarrow> g a = Ok r"
  shows "bind_res m' g = Ok r"
  using assms by (auto simp: res_simps)

lemma decodeTransfer_exiting:
  assumes "decodeTransfer E False info evt = Ok r"
  shows "decodeTransfer E True info evt = Ok r"
proof -
  have "decode_native E True info evt elems = Ok r" if "decode_native E False info evt elems = Ok r" for elems
    using that unfolding decode_native_def
    by (rule bind_res_mono) (auto elim!: bind_res_mono dest: native_number_exiting split: option.splits sum.splits if_splits)
  then show ?thesis using assms by (auto simp: decodeTransfer_def split: states.splits if_splits)
qed

lemma parseEvmOngTransferLog_ok:
  "evm_ok L \<Longrightarrow> parseEvmOngTransferLog E L log gas = Ok x \<Longrightarrow> xfer_ok E x"
  by (auto simp: parseEvmOngTransferLog_def evm_ok_def xfer_ok_def split: if_splits sum.splits)

end
