(* ===== verification/Indexer.thy ===== *)
theory Indexer
  imports Events Lookup
begin

text \<open>
  The block indexer (\<^verbatim>\<open>IndexBlocks\<close> of src/services/store.go): one block at a time, the node's
  blocks and events become a stored block, its transaction hashes and its balance changes.
  The node is an argument: what \<^verbatim>\<open>actor\<close> returns during one round of the outer loop. Rounds are
  composed by the step relation \<open>index_step\<close>.
\<close>

section \<open>The node\<close>

record mutable_tx =
  mut_GasLimit :: u64
  mut_GasPrice :: u64
  mut_Nonce :: u32
  mut_Payer :: address
  mut_Payload :: bytes
  mut_TxType :: byte
  mut_Version :: byte

text \<open>A transaction of a block: these fields, its signatures, and its hash.\<close>

record src_tx = mutable_tx +
  stx_Sigs :: "bytes list"
  stx_Hash :: hash256

record src_block =
  sb_Hash :: hash256
  sb_Timestamp :: u32
  sb_Transactions :: "src_tx list"

text \<open>What \<^verbatim>\<open>GetEventNotifyByHeight\<close> returns; the list may be nil.\<close>

datatype events_result = EvNotFound | EvError string | Ev "execute_notify list option"

text \<open>
  One round: the latest height; the blocks by height, where a block may be nil without an error
  (\<open>None\<close>; \<^verbatim>\<open>src.Hash()\<close> then panics); the events by height; the iteration order the map
  of differences has at a height; whether the context is cancelled when the round starts and
  when a height is reached; and whether an exit of the process (\<^verbatim>\<open>exiting\<close> of
  src/process/process.go) is under way when the block of a height first reaches \<^verbatim>\<open>log.Fatalf\<close>.
\<close>

type_synonym map_order = "(address \<times> address list) list"

record node =
  nd_latest :: u32
  nd_block :: "u32 \<Rightarrow> string + src_block option"
  nd_events :: "u32 \<Rightarrow> events_result"
  nd_order :: "u32 \<Rightarrow> map_order"
  nd_cancel_round :: bool
  nd_cancel :: "u32 \<Rightarrow> bool"
  nd_exiting :: "u32 \<Rightarrow> bool"

text \<open>The unsigned transaction and its hash, computed by the node's library.\<close>

definition unsigned_tx :: "src_tx \<Rightarrow> mutable_tx" where
  "unsigned_tx txn =
     \<lparr>mut_GasLimit = mut_GasLimit txn, mut_GasPrice = mut_GasPrice txn, mut_Nonce = mut_Nonce txn,
      mut_Payer = mut_Payer txn, mut_Payload = mut_Payload txn, mut_TxType = mut_TxType txn,
      mut_Version = mut_Version txn\<rparr>"

section \<open>One block\<close>

definition new_transactions :: "src_block \<Rightarrow> mtransaction list" where
  "new_transactions src =
     map (\<lambda>txn. \<lparr>mt_failed = False, mt_hash = stx_Hash txn, mt_transfers = []\<rparr>) (sb_Transactions src)"

text \<open>A later transaction of the same hash wins, as in the Go map; an unknown hash is offset 0.\<close>

definition offset_of :: "src_block \<Rightarrow> hash256 \<Rightarrow> nat" where
  "offset_of src h =
     (let txs = sb_Transactions src;
          offsets = foldl (\<lambda>m i. m(stx_Hash (txs ! i) \<mapsto> i)) Map.empty [0..<length txs]
      in case offsets h of None \<Rightarrow> 0 | Some i \<Rightarrow> i)"

text \<open>
  One notification: \<open>None\<close> when it is skipped (\<^verbatim>\<open>continue\<close>), else the new value of \<^verbatim>\<open>gasVerified\<close>
  and the transfer to count. \<open>exiting\<close> is that of \<open>native_number\<close>.
\<close>

definition decode_event ::
  "env \<Rightarrow> evm_lib \<Rightarrow> bool \<Rightarrow> execute_notify \<Rightarrow> notify \<Rightarrow> (go_error, transfer option) res" where
  "decode_event E L exiting info evt =
     (case checkEvmEventLog L evt of
        Some log \<Rightarrow>
          (case parseEvmOngTransferLog E L log (en_gas_consumed info) of
             Ok xfer \<Rightarrow> Ok (Some xfer)
           | Err err \<Rightarrow> Ok None
           | Panic \<Rightarrow> Panic)
      | None \<Rightarrow> decodeTransfer E exiting info evt)"

definition select_event ::
  "env \<Rightarrow> evm_lib \<Rightarrow> (address \<rightharpoonup> currencyInfo) \<Rightarrow> bool \<Rightarrow> address \<Rightarrow> execute_notify \<Rightarrow> bool \<Rightarrow> notify \<Rightarrow>
   (go_error, (bool \<times> transfer) option) res" where
  "select_event E L toks exiting payer info gasVerified evt =
     (if toks (ev_contract evt) = None then Ok None
      else
        bind_res (decode_event E L exiting info evt) (\<lambda>r. case r of
          None \<Rightarrow> Ok None
        | Some xfer \<Rightarrow>
            (case checkgasVerified E (ev_contract evt) payer (tr_from xfer) (en_failed info) gasVerified
                    (tr_isGas xfer) of
               (gasverified, isgas, isContinue) \<Rightarrow>
                 if isContinue then Ok None
                 else Ok (Some (gasverified, xfer\<lparr>tr_isGas := isgas\<rparr>)))))"

fun notify_loop ::
  "env \<Rightarrow> evm_lib \<Rightarrow> (address \<rightharpoonup> currencyInfo) \<Rightarrow> bool \<Rightarrow> address \<Rightarrow> execute_notify \<Rightarrow> bool \<Rightarrow> notify list \<Rightarrow>
   mtransfer list \<Rightarrow> diffs \<Rightarrow> (go_error, mtransfer list \<times> diffs) res" where
  "notify_loop E L toks exiting payer info gasVerified [] transfers diffs = Ok (transfers, diffs)"
| "notify_loop E L toks exiting payer info gasVerified (evt # evts) transfers diffs =
     bind_res (select_event E L toks exiting payer info gasVerified evt) (\<lambda>r. case r of
       None \<Rightarrow> notify_loop E L toks exiting payer info gasVerified evts transfers diffs
     | Some (gasverified, xfer) \<Rightarrow>
         (case balanceCal E xfer (ev_contract evt) diffs of
            (t, diffs') \<Rightarrow>
              notify_loop E L toks exiting payer info gasverified evts (transfers @ [t]) diffs'))"

text \<open>\<^verbatim>\<open>src.Transactions[offset]\<close> panics on a block without transactions.\<close>

fun events_loop ::
  "env \<Rightarrow> evm_lib \<Rightarrow> (address \<rightharpoonup> currencyInfo) \<Rightarrow> bool \<Rightarrow> src_block \<Rightarrow> execute_notify list \<Rightarrow>
   mtransaction list \<Rightarrow> diffs \<Rightarrow> (go_error, mtransaction list \<times> diffs) res" where
  "events_loop E L toks exiting src [] txs diffs = Ok (txs, diffs)"
| "events_loop E L toks exiting src (info # infos) txs diffs =
     (let offset = offset_of src (en_tx_hash info)
      in if length (sb_Transactions src) \<le> offset then Panic
         else
           bind_res
             (notify_loop E L toks exiting (mut_Payer (sb_Transactions src ! offset)) info False (en_notify info)
                (mt_transfers (txs ! offset)) diffs)
             (\<lambda>(transfers, diffs'). events_loop E L toks exiting src infos
                (txs[offset := (txs ! offset)\<lparr>mt_failed := en_failed info, mt_transfers := transfers\<rparr>]) diffs'))"

text \<open>The keys of the changes, in the order of the iteration over the two levels of the map.\<close>

definition encode_change :: "env \<Rightarrow> diffs \<Rightarrow> u32 \<Rightarrow> address \<Rightarrow> address \<Rightarrow> balanceChange" where
  "encode_change E diffs height addr contract =
     (let base = [97] @ addr2slice E addr;
          caddr = addr2slice E contract;
          pre = copy_at (copy_at (replicate (length base + length caddr) 0) 0 base) (length base) caddr
      in \<lparr>bc_diff = the (the (diffs addr) contract), bc_key = accountKey pre (encode_height height),
          bc_prefix = pre\<rparr>)"

definition encode_changes :: "env \<Rightarrow> diffs \<Rightarrow> u32 \<Rightarrow> map_order \<Rightarrow> balanceChange list" where
  "encode_changes E diffs height ord =
     concat (map (\<lambda>(addr, cs). map (encode_change E diffs height addr) cs) ord)"

text \<open>
  An error of \<^verbatim>\<open>GetEventNotifyByHeight\<close> is fatal; when \<^verbatim>\<open>log.Fatalf\<close> returns, because an exit is
  under way, the block goes to \<^verbatim>\<open>done\<close> without its events.
\<close>

definition index_block ::
  "env \<Rightarrow> evm_lib \<Rightarrow> (mutable_tx \<Rightarrow> hash256) \<Rightarrow> (address \<rightharpoonup> currencyInfo) \<Rightarrow> bool \<Rightarrow> u32 \<Rightarrow> u32 \<Rightarrow> src_block \<Rightarrow>
   events_result \<Rightarrow> map_order \<Rightarrow> (go_error, blockState) res" where
  "index_block E L MutHash toks exiting height newest src evts ord =
     (let dst = (\<lambda>txs. \<lparr>mb_timestamp = sb_Timestamp src, mb_transactions = txs\<rparr>);
          hashes = map (\<lambda>txn. MutHash (unsigned_tx txn)) (sb_Transactions src);
          ident = \<lparr>bid_byHeight = False, bid_hash = sb_Hash src, bid_height = height\<rparr>;
          state = (\<lambda>txs changes. \<lparr>bs_block = dst txs, bs_changes = changes, bs_hashes = hashes,
                    bs_id = ident, bs_synced = newest\<rparr>)
      in case evts of
           EvNotFound \<Rightarrow> Ok (state (new_transactions src) [])
         | EvError err \<Rightarrow> if exiting then Ok (state (new_transactions src) []) else Panic
         | Ev None \<Rightarrow> Ok (state (new_transactions src) [])
         | Ev (Some infos) \<Rightarrow>
             bind_res (events_loop E L toks exiting src infos (new_transactions src) Map.empty)
               (\<lambda>(txs, diffs). Ok (state txs (encode_changes E diffs height ord))))"

section \<open>The loops\<close>

text \<open>
  How a round of the outer loop ends: the context was cancelled or the indexer exits
  (\<open>Returned\<close>), the next round starts (\<open>Again\<close>), or the goroutine never goes on: a panic ends
  the process, a \<^verbatim>\<open>log.Fatalf\<close> that starts the exit itself ends it or hangs in it (\<open>Died\<close>).
\<close>

datatype 's outcome = Returned 's | Again 's | Died

text \<open>
  The inner loop \<^verbatim>\<open>for ; height <= latest; height++\<close>. It does not end when \<^verbatim>\<open>latest\<close> is the
  greatest \<^verbatim>\<open>uint32\<close>, hence the partial function.
\<close>

partial_function (option) index_loop ::
  "env \<Rightarrow> evm_lib \<Rightarrow> (mutable_tx \<Rightarrow> hash256) \<Rightarrow> 'db badger \<Rightarrow> codec \<Rightarrow> node \<Rightarrow> u32 \<Rightarrow> 'db store \<Rightarrow>
   'db store outcome option" where
  "index_loop E L MutHash B C nd height s =
     (if height > nd_latest nd then Some (Again s)
      else if nd_cancel nd height then Some (Returned s)
      else
        (case nd_block nd height of
           Inl err \<Rightarrow> Some (Again s)
         | Inr None \<Rightarrow> Some Died
         | Inr (Some src) \<Rightarrow>
             (case index_block E L MutHash (tokens s) (nd_exiting nd height) height (nd_latest nd) src
                     (nd_events nd height) (nd_order nd height) of
                Ok state \<Rightarrow>
                  (case setBlock B C s state of
                     Ok s' \<Rightarrow> index_loop E L MutHash B C nd (height + 1) s'
                   | Err err \<Rightarrow> Some (Again s)
                   | Panic \<Rightarrow> Some Died)
              | _ \<Rightarrow> Some Died)))"

definition next_height :: "'db store \<Rightarrow> u32" where
  "next_height s = (let height = getHeight s in if height > 0 then height + 1 else height)"

definition index_round ::
  "env \<Rightarrow> evm_lib \<Rightarrow> (mutable_tx \<Rightarrow> hash256) \<Rightarrow> 'db badger \<Rightarrow> codec \<Rightarrow> bool \<Rightarrow> node \<Rightarrow> 'db store \<Rightarrow>
   'db store outcome option" where
  "index_round E L MutHash B C exitEarly nd s =
     (if nd_cancel_round nd then Some (Returned s)
      else if exitEarly \<and> next_height s = nd_latest nd + 1 then Some (Returned s)
      else index_loop E L MutHash B C nd (next_height s) s)"

text \<open>
  The outer loop, in an environment where every round may see another node. The relation
  relates the store at the start of a round to the store at the start of the next one.
\<close>

inductive index_step ::
  "env \<Rightarrow> evm_lib \<Rightarrow> (mutable_tx \<Rightarrow> hash256) \<Rightarrow> 'db badger \<Rightarrow> codec \<Rightarrow> (node \<Rightarrow> bool) \<Rightarrow> bool \<Rightarrow> 'db store \<Rightarrow>
   'db store \<Rightarrow> bool"
  for E L MutHash B C serves exitEarly where
  round: "serves nd \<Longrightarrow> index_round E L MutHash B C exitEarly nd s = Some (Again s') \<Longrightarrow>
    index_step E L MutHash B C serves exitEarly s s'"

inductive_simps index_step_iff: "index_step E L MutHash B C serves exitEarly s s'"

text \<open>
  The life of a data directory: rounds of the indexer, an indexer that returns (also in the
  middle of a round, which is what a reader can see of one), and restarts on the same database.
\<close>

inductive server_step ::
  "env \<Rightarrow> evm_lib \<Rightarrow> (mutable_tx \<Rightarrow> hash256) \<Rightarrow> 'db badger \<Rightarrow> codec \<Rightarrow> (node \<Rightarrow> bool) \<Rightarrow> OEP4Token list \<Rightarrow>
   'db store \<Rightarrow> 'db store \<Rightarrow> bool"
  for E L MutHash B C serves oep4 where
  next_round: "index_step E L MutHash B C serves exitEarly s s' \<Longrightarrow> server_step E L MutHash B C serves oep4 s s'"
| stops: "serves nd \<Longrightarrow> index_round E L MutHash B C exitEarly nd s = Some (Returned s') \<Longrightarrow>
    server_step E L MutHash B C serves oep4 s s'"
| restart: "NewStore E B (Inr (st_db s)) oep4 False current = Ok s' \<Longrightarrow>
    server_step E L MutHash B C serves oep4 s s'"

section \<open>The transfers of a block\<close>

text \<open>The difference the stored transactions make to an account.\<close>

definition transfers_delta :: "env \<Rightarrow> mtransfer list \<Rightarrow> address \<Rightarrow> address \<Rightarrow> int" where
  "transfers_delta E ts c a = sum_list (map (\<lambda>t. mdelta E t c a) ts)"

definition block_delta :: "env \<Rightarrow> mtransaction list \<Rightarrow> address \<Rightarrow> address \<Rightarrow> int" where
  "block_delta E txs c a = sum_list (map (\<lambda>tx. transfers_delta E (mt_transfers tx) c a) txs)"

lemma transfers_delta_snoc [simp]:
  "transfers_delta E (ts @ [t]) c a = transfers_delta E ts c a + mdelta E t c a"
  by (simp add: transfers_delta_def)

lemma transfers_delta_Nil [simp]: "transfers_delta E [] c a = 0"
  by (simp add: transfers_delta_def)

lemma block_delta_update:
  "i < length txs \<Longrightarrow> block_delta E (txs[i := tx]) c a =
     block_delta E txs c a + transfers_delta E (mt_transfers tx) c a - transfers_delta E (mt_transfers (txs ! i)) c a"
  unfolding block_delta_def by (induction txs arbitrary: i) (auto split: nat.split simp: nth_Cons')

lemma block_delta_new [simp]: "block_delta E (new_transactions src) c a = 0"
  by (simp add: block_delta_def new_transactions_def comp_def)

definition toks_ok :: "(address \<rightharpoonup> currencyInfo) \<Rightarrow> bool" where
  "toks_ok toks \<longleftrightarrow> (\<forall>a. toks a \<noteq> None \<longrightarrow> is_addr a)"

text \<open>What a block comes to without an exit under way, it comes to during one as well.\<close>

lemma select_event_exiting:
  assumes "select_event E L toks False payer info g evt = Ok r"
  shows "select_event E L toks True payer info g evt = Ok r"
  using assms
  by (auto simp: select_event_def decode_event_def elim!: bind_res_mono dest: decodeTransfer_exiting
      split: option.splits res.splits if_splits)

lemma notify_loop_exiting:
  "notify_loop E L toks False payer info g evts ts d = Ok r \<Longrightarrow> notify_loop E L toks True payer info g evts ts d = Ok r"
proof (induction evts arbitrary: g ts d)
  case (Cons evt evts)
  then show ?case
    by (auto elim!: bind_res_mono intro: select_event_exiting split: option.splits prod.splits)
qed simp

lemma events_loop_exiting:
  "events_loop E L toks False src infos txs d = Ok r \<Longrightarrow> events_loop E L toks True src infos txs d = Ok r"
proof (induction infos arbitrary: txs d)
  case (Cons info infos)
  then show ?case
    by (auto simp: Let_def elim!: bind_res_mono intro: notify_loop_exiting split: if_splits)
qed simp

lemma decode_event_ok:
  assumes "env_ok E" "evm_ok L" "decode_event E L False info evt = Ok (Some x)"
  shows "xfer_ok E x"
  using assms decodeTransfer_ok parseEvmOngTransferLog_ok
  by (auto simp: decode_event_def split: option.splits res.splits)

lemma select_event_ok:
  assumes "env_ok E" "evm_ok L" "select_event E L toks False payer info g evt = Ok (Some (g', x))"
  shows "xfer_ok E x \<and> toks (ev_contract evt) \<noteq> None"
proof -
  obtain y gas where y: "decode_event E L False info evt = Ok (Some y)" "toks (ev_contract evt) \<noteq> None"
    "x = y\<lparr>tr_isGas := gas\<rparr>"
    using assms(3) by (auto simp: select_event_def bind_res_option_iff case_prod_beta split: if_splits)
  then show ?thesis using decode_event_ok [OF assms(1,2)] by (simp add: xfer_ok_def)
qed

text \<open>The differences and the stored transfers are kept in step.\<close>

lemma notify_loop_delta:
  assumes "env_ok E" "evm_ok L" "toks_ok toks" "is_addr a" "is_addr c"
  shows "notify_loop E L toks False payer info g evts ts d = Ok (ts', d') \<Longrightarrow>
    diff_at d' a c - transfers_delta E ts' c a = diff_at d a c - transfers_delta E ts c a"
proof (induction evts arbitrary: g ts d)
  case (Cons evt evts)
  then obtain r where r: "select_event E L toks False payer info g evt = Ok r" by (auto simp: res_simps)
  show ?case
  proof (cases r)
    case None
    then show ?thesis using Cons r by simp
  next
    case (Some gx)
    then obtain g' x where x: "r = Some (g', x)" by (cases gx) auto
    let ?b = "balanceCal E x (ev_contract evt) d"
    have ok: "xfer_ok E x" "is_addr (ev_contract evt)"
      using select_event_ok [OF assms(1,2)] r x assms(3) by (auto simp: toks_ok_def)
    have "notify_loop E L toks False payer info g' evts (ts @ [fst ?b]) (snd ?b) = Ok (ts', d')"
      using Cons.prems r x by (simp add: case_prod_beta)
    from Cons.IH [OF this] show ?thesis
      using ok assms by (simp add: balanceCal_diff balanceCal_mdelta)
  qed
qed simp

lemma notify_loop_valid:
  assumes "env_ok E" "evm_ok L" "toks_ok toks"
  shows "notify_loop E L toks False payer info g evts ts d = Ok (ts', d') \<Longrightarrow> diffs_valid E d \<Longrightarrow> diffs_valid E d'"
proof (induction evts arbitrary: g ts d)
  case (Cons evt evts)
  then obtain r where r: "select_event E L toks False payer info g evt = Ok r" by (auto simp: res_simps)
  show ?case
  proof (cases r)
    case None
    then show ?thesis using Cons r by simp
  next
    case (Some gx)
    then obtain g' x where x: "r = Some (g', x)" by (cases gx) auto
    have ok: "xfer_ok E x" "is_addr (ev_contract evt)"
      using select_event_ok [OF assms(1,2)] r x assms(3) by (auto simp: toks_ok_def)
    show ?thesis
      using Cons r x ok by (simp add: case_prod_beta balanceCal_valid)
  qed
qed simp

lemma events_loop_delta:
  assumes "env_ok E" "evm_ok L" "toks_ok toks" "is_addr a" "is_addr c"
  shows "events_loop E L toks False src infos txs d = Ok (txs', d') \<Longrightarrow>
    length txs = length (sb_Transactions src) \<Longrightarrow>
    diff_at d' a c - block_delta E txs' c a = diff_at d a c - block_delta E txs c a"
proof (induction infos arbitrary: txs d)
  case (Cons info infos)
  let ?o = "offset_of src (en_tx_hash info)"
  obtain ts d1 where *: "?o < length txs"
    "notify_loop E L toks False (mut_Payer (sb_Transactions src ! ?o)) info False (en_notify info)
       (mt_transfers (txs ! ?o)) d = Ok (ts, d1)"
    "events_loop E L toks False src infos
       (txs[?o := (txs ! ?o)\<lparr>mt_failed := en_failed info, mt_transfers := ts\<rparr>]) d1 = Ok (txs', d')"
    using Cons.prems by (auto simp: Let_def res_simps split: if_splits)
  show ?case
    using Cons.IH [OF *(3)] notify_loop_delta [OF assms *(2)] Cons.prems(2)
    by (simp add: block_delta_update [OF *(1)])
qed simp

lemma events_loop_valid:
  assumes "env_ok E" "evm_ok L" "toks_ok toks"
  shows "events_loop E L toks False src infos txs d = Ok (txs', d') \<Longrightarrow> diffs_valid E d \<Longrightarrow> diffs_valid E d'"
proof (induction infos arbitrary: txs d)
  case (Cons info infos)
  then show ?case using notify_loop_valid [OF assms] by (auto simp: Let_def res_simps split: if_splits)
qed simp

section \<open>The changes of a block\<close>

text \<open>An enumeration of the two levels of the map of differences, in any order.\<close>

definition order_ok :: "diffs \<Rightarrow> map_order \<Rightarrow> bool" where
  "order_ok diffs ord \<longleftrightarrow>
     distinct (map fst ord) \<and> fst ` set ord = dom diffs \<and>
     (\<forall>x\<in>set ord. distinct (snd x) \<and> set (snd x) = dom (the (diffs (fst x))))"

definition flat_diffs :: "diffs \<Rightarrow> map_order \<Rightarrow> diff list" where
  "flat_diffs diffs ord =
     concat (map (\<lambda>(a, cs). map (\<lambda>c. ((a, c), the (the (diffs a) c))) cs) ord)"

lemma encode_change_eq:
  "encode_change E diffs h a c = change_at E h ((a, c), the (the (diffs a) c))"
proof -
  have "copy_at (replicate (length xs + n) 0) 0 xs = xs @ replicate n (0 :: byte)" for xs and n
    by (simp add: copy_at_def replicate_add)
  moreover have "copy_at (xs @ replicate (length ys) 0) (length xs) ys = xs @ ys" for xs ys :: bytes
    by (rule copy_at_fill) simp_all
  ultimately have "copy_at (copy_at (replicate (length xs + length ys) 0) 0 xs) (length xs) ys = xs @ ys" for xs ys
    by simp
  from this [of "97 # addr2slice E a" "addr2slice E c"] show ?thesis
    by (simp add: encode_change_def Let_def change_at_def acct_key_def acct_prefix_eq)
qed

lemma encode_changes_eq: "encode_changes E diffs h ord = map (change_at E h) (flat_diffs diffs ord)"
proof -
  have "encode_change E diffs h = (\<lambda>a c. change_at E h ((a, c), the (the (diffs a) c)))"
    by (intro ext encode_change_eq)
  then show ?thesis by (simp add: encode_changes_def flat_diffs_def map_concat comp_def split_def)
qed

lemma flat_diffs_Cons:
  "flat_diffs diffs ((b, cs) # xs) = map (\<lambda>c. ((b, c), the (the (diffs b) c))) cs @ flat_diffs diffs xs"
  "flat_diffs diffs [] = []"
  by (simp_all add: flat_diffs_def)

lemma map_of_map_key:
  "map_of (map (\<lambda>c. ((a, c), f c)) cs) (b, c) = (if a = b \<and> c \<in> set cs then Some (f c) else None)"
  by (induction cs) auto

lemma map_of_flat_diffs:
  "distinct (map fst ord) \<Longrightarrow>
   map_of (flat_diffs diffs ord) (a, c) =
     (case map_of ord a of None \<Rightarrow> None
      | Some cs \<Rightarrow> if c \<in> set cs then Some (the (the (diffs a) c)) else None)"
proof (induction ord)
  case (Cons x ord)
  obtain b cs where x: "x = (b, cs)" by fastforce
  have "map_of ord b = None" using Cons.prems by (simp add: x map_of_eq_None_iff)
  then show ?case
    using Cons by (auto simp: flat_diffs_def x map_of_append map_add_def map_of_map_key split: option.split)
qed (simp add: flat_diffs_def)

lemma map_of_order:
  "order_ok diffs ord \<Longrightarrow> map_of (flat_diffs diffs ord) (a, c) =
     (case diffs a of None \<Rightarrow> None | Some m \<Rightarrow> m c)"
proof -
  assume ord: "order_ok diffs ord"
  then have *: "map_of (flat_diffs diffs ord) (a, c) =
     (case map_of ord a of None \<Rightarrow> None
      | Some cs \<Rightarrow> if c \<in> set cs then Some (the (the (diffs a) c)) else None)"
    by (intro map_of_flat_diffs) (simp add: order_ok_def)
  show ?thesis
  proof (cases "diffs a")
    case None
    then have "map_of ord a = None" using ord by (force simp: order_ok_def map_of_eq_None_iff)
    then show ?thesis using * None by simp
  next
    case (Some m)
    then have "a \<in> fst ` set ord" using ord by (auto simp: order_ok_def)
    then obtain cs where cs: "map_of ord a = Some cs" by (metis map_of_eq_None_iff option.exhaust)
    then have "set cs = dom m" using ord Some map_of_SomeD [OF cs] by (force simp: order_ok_def)
    then show ?thesis using * cs Some by (auto simp: dom_def split: option.split)
  qed
qed

lemma flat_diffs_ok:
  assumes "diffs_valid E diffs" "order_ok diffs ord"
  shows "diffs_ok (flat_diffs diffs ord)"
proof -
  have *: "distinct (map fst (flat_diffs diffs xs)) \<and> fst ` fst ` set (flat_diffs diffs xs) \<subseteq> fst ` set xs"
    if "distinct (map fst xs)" "\<forall>x\<in>set xs. distinct (snd x)" for xs
    using that
  proof (induction xs)
    case (Cons x xs)
    obtain b cs where x: "x = (b, cs)" by fastforce
    have 1: "distinct (map (\<lambda>c. (b, c)) cs)" using Cons.prems by (simp add: x distinct_map inj_on_def)
    have IH: "distinct (map fst (flat_diffs diffs xs))" "fst ` fst ` set (flat_diffs diffs xs) \<subseteq> fst ` set xs"
      using Cons by simp_all
    have "b \<notin> fst ` fst ` set (flat_diffs diffs xs)" using Cons.prems IH(2) by (auto simp: x)
    then have 2: "set (map (\<lambda>c. (b, c)) cs) \<inter> set (map fst (flat_diffs diffs xs)) = {}" by force
    have 3: "map fst (flat_diffs diffs (x # xs)) = map (\<lambda>c. (b, c)) cs @ map fst (flat_diffs diffs xs)"
      by (simp add: x flat_diffs_Cons comp_def)
    have "fst ` fst ` set (flat_diffs diffs (x # xs)) \<subseteq> fst ` set (x # xs)"
      using IH(2) by (auto simp: x flat_diffs_Cons)
    then show ?case using 1 2 3 IH(1) by simp
  qed (simp add: flat_diffs_Cons)
  have "is_addr a \<and> is_addr c" if d: "((a, c), d) \<in> set (flat_diffs diffs ord)" for a c d
  proof -
    obtain cs where "(a, cs) \<in> set ord" "c \<in> set cs" using d by (auto simp: flat_diffs_def)
    then have "a \<in> dom diffs" "c \<in> dom (the (diffs a))" using assms(2) by (force simp: order_ok_def)+
    then show ?thesis using assms(1) by (auto simp: diffs_valid_def)
  qed
  then show ?thesis using * [of ord] assms(2) by (auto simp: diffs_ok_def order_ok_def)
qed

end
