(* ===== verification/Sync.thy ===== *)
theory Sync
  imports Indexer
begin

text \<open>
  The indexer against a chain: if every round of the outer loop sees nodes that serve the same
  chain, the store holds exactly the first blocks of that chain, its account entries are the
  history of the chain's transfers, and this survives failed rounds, repeated blocks and a
  restart. The node's documented behaviour is \<open>serves\<close> and \<open>chain_ok\<close>. One thing breaks the invariant:
  a \<^verbatim>\<open>log.Fatalf\<close> that returns because the process is exiting. \<open>serves\<close> excludes it, and the last
  section shows what it does to the store.
\<close>

section \<open>The chain\<close>

record chain =
  ch_block :: "u32 \<Rightarrow> src_block"
  ch_events :: "u32 \<Rightarrow> events_result"

text \<open>The stored transactions and the differences of a block.\<close>

definition round_data ::
  "env \<Rightarrow> evm_lib \<Rightarrow> (address \<rightharpoonup> currencyInfo) \<Rightarrow> bool \<Rightarrow> src_block \<Rightarrow> events_result \<Rightarrow>
   (go_error, mtransaction list \<times> diffs) res" where
  "round_data E L toks exiting src evts =
     (case evts of
        EvError err \<Rightarrow> if exiting then Ok (new_transactions src, Map.empty) else Panic
      | Ev (Some infos) \<Rightarrow> events_loop E L toks exiting src infos (new_transactions src) Map.empty
      | _ \<Rightarrow> Ok (new_transactions src, Map.empty))"

text \<open>What a block of the chain means: no exit of the process is under way.\<close>

definition block_data ::
  "env \<Rightarrow> evm_lib \<Rightarrow> (address \<rightharpoonup> currencyInfo) \<Rightarrow> src_block \<Rightarrow> events_result \<Rightarrow>
   (go_error, mtransaction list \<times> diffs) res" where
  "block_data E L toks src evts = round_data E L toks False src evts"

text \<open>
  A block is produced although \<^verbatim>\<open>log.Fatalf\<close> was called on the way: the call returned, because an
  exit of the process was under way, and the block lacks its events or has a negative amount.
\<close>

definition fatal_returns ::
  "env \<Rightarrow> evm_lib \<Rightarrow> (address \<rightharpoonup> currencyInfo) \<Rightarrow> src_block \<Rightarrow> node \<Rightarrow> u32 \<Rightarrow> bool" where
  "fatal_returns E L toks src nd h \<longleftrightarrow>
     nd_exiting nd h \<and>
     round_data E L toks True src (nd_events nd h) \<noteq> round_data E L toks False src (nd_events nd h)"

lemmas data_defs = block_data_def round_data_def

definition data_at :: "env \<Rightarrow> evm_lib \<Rightarrow> (address \<rightharpoonup> currencyInfo) \<Rightarrow> chain \<Rightarrow> u32 \<Rightarrow> mtransaction list \<times> diffs" where
  "data_at E L toks ch h = ok_val (block_data E L toks (ch_block ch h) (ch_events ch h))"

definition stored_block :: "env \<Rightarrow> evm_lib \<Rightarrow> (address \<rightharpoonup> currencyInfo) \<Rightarrow> chain \<Rightarrow> u32 \<Rightarrow> mblock" where
  "stored_block E L toks ch h =
     \<lparr>mb_timestamp = sb_Timestamp (ch_block ch h), mb_transactions = fst (data_at E L toks ch h)\<rparr>"

definition diff_of ::
  "env \<Rightarrow> evm_lib \<Rightarrow> (address \<rightharpoonup> currencyInfo) \<Rightarrow> chain \<Rightarrow> address \<Rightarrow> address \<Rightarrow> nat \<Rightarrow> int option" where
  "diff_of E L toks ch a c n =
     (case snd (data_at E L toks ch (word_of_nat n)) a of None \<Rightarrow> None | Some m \<Rightarrow> m c)"

text \<open>The history of an account: each block with a difference posts it.\<close>

primrec chain_hist :: "(nat \<Rightarrow> int option) \<Rightarrow> nat \<Rightarrow> history" where
  "chain_hist D 0 = Map.empty"
| "chain_hist D (Suc n) = (case D n of None \<Rightarrow> chain_hist D n | Some d \<Rightarrow> post n d (chain_hist D n))"

section \<open>Assumptions on the node\<close>

text \<open>
  The nodes of all rounds serve one chain up to their latest height, which is below the greatest
  \<^verbatim>\<open>uint32\<close>; a call may fail at any time. The iteration order of a Go map enumerates it. The
  last clause is about the process, not the node: no block is stored over a \<^verbatim>\<open>log.Fatalf\<close> that
  returned during an exit; the last section of this theory shows what happens to such a block.
\<close>

definition serves ::
  "env \<Rightarrow> evm_lib \<Rightarrow> (address \<rightharpoonup> currencyInfo) \<Rightarrow> chain \<Rightarrow> node \<Rightarrow> bool" where
  "serves E L toks ch nd \<longleftrightarrow>
     nd_latest nd < 4294967295 \<and>
     (\<forall>h\<le>nd_latest nd.
          (\<forall>src. nd_block nd h = Inr (Some src) \<longrightarrow> src = ch_block ch h) \<and>
          (nd_events nd h = ch_events ch h \<or> (\<exists>e. nd_events nd h = EvError e)) \<and>
          (\<forall>txs d. block_data E L toks (ch_block ch h) (ch_events ch h) = Ok (txs, d) \<longrightarrow>
             order_ok d (nd_order nd h)) \<and>
          \<not> fatal_returns E L toks (ch_block ch h) nd h)"

text \<open>Hashes are 32 bytes, and different blocks have different hashes.\<close>

definition chain_ok :: "(mutable_tx \<Rightarrow> hash256) \<Rightarrow> chain \<Rightarrow> bool" where
  "chain_ok MutHash ch \<longleftrightarrow>
     (\<forall>h. is_hash (sb_Hash (ch_block ch h))) \<and> inj (\<lambda>h. sb_Hash (ch_block ch h)) \<and>
     (\<forall>t. is_hash (MutHash t))"

section \<open>The invariant\<close>

text \<open>The store holds the first \<open>n\<close> blocks of the chain.\<close>

definition synced ::
  "env \<Rightarrow> evm_lib \<Rightarrow> (mutable_tx \<Rightarrow> hash256) \<Rightarrow> codec \<Rightarrow> (address \<rightharpoonup> currencyInfo) \<Rightarrow> chain \<Rightarrow>
   ('db \<Rightarrow> bytes \<rightharpoonup> bytes) \<Rightarrow> nat \<Rightarrow> 'db store \<Rightarrow> bool" where
  "synced E L MutHash C toks ch con n s \<longleftrightarrow>
     n < 2 ^ 32 \<and> tokens s = toks \<and>
     heightIndexed s = (if n = 0 then None else Some (int n - 1)) \<and>
     con (st_db s) heightKey = (if n = 0 then None else Some (le_put32 (word_of_nat (n - 1)))) \<and>
     acct_keys_ok E (con (st_db s)) \<and>
     (\<forall>h. n \<le> unat h \<longrightarrow> con (st_db s) (blockHeight2HashKey h) = None) \<and>
     (\<forall>x. is_hash x \<longrightarrow> (\<forall>h. unat h < n \<longrightarrow> x \<noteq> sb_Hash (ch_block ch h)) \<longrightarrow>
        con (st_db s) (blockHash2HeightKey x) = None) \<and>
     (\<forall>a c. is_addr a \<longrightarrow> is_addr c \<longrightarrow>
        acct_hist E (con (st_db s)) a c = chain_hist (diff_of E L toks ch a c) n) \<and>
     (\<forall>h. unat h < n \<longrightarrow>
        block_data E L toks (ch_block ch h) (ch_events ch h) = Ok (data_at E L toks ch h) \<and>
        block_at C (con (st_db s)) h (sb_Hash (ch_block ch h)) (stored_block E L toks ch h) \<and>
        (\<forall>t\<in>set (sb_Transactions (ch_block ch h)).
           con (st_db s) (txnHashKey (MutHash (unsigned_tx t))) = Some []))"

lemma post_chain_hist:
  assumes "n = k \<or> n = Suc k"
  shows "(case D k of None \<Rightarrow> chain_hist D n | Some d \<Rightarrow> post k d (chain_hist D n)) = chain_hist D (Suc k)"
  using assms by (auto split: option.split)

lemma block_data_valid:
  assumes "env_ok E" "evm_ok L" "toks_ok toks" "block_data E L toks src evts = Ok (txs, d)"
  shows "diffs_valid E d"
  using assms(4) events_loop_valid [OF assms(1-3)]
  by (auto simp: data_defs split: events_result.splits option.splits)

lemma block_data_delta:
  assumes "env_ok E" "evm_ok L" "toks_ok toks" "block_data E L toks src evts = Ok (txs, d)"
    and "is_addr a" "is_addr c"
  shows "diff_at d a c = block_delta E txs c a"
  using assms(4) events_loop_delta [OF assms(1-3,5,6), of src _ "new_transactions src" Map.empty txs d]
  by (auto simp: data_defs split: events_result.splits option.splits)
    (simp_all add: new_transactions_def)

lemma servesD:
  assumes "serves E L toks ch nd"
  shows "h \<le> nd_latest nd \<Longrightarrow> nd_block nd h = Inr (Some src) \<Longrightarrow> src = ch_block ch h"
    "h \<le> nd_latest nd \<Longrightarrow> nd_events nd h = ch_events ch h \<or> (\<exists>e. nd_events nd h = EvError e)"
    "h \<le> nd_latest nd \<Longrightarrow> block_data E L toks (ch_block ch h) (ch_events ch h) = Ok (txs, d) \<Longrightarrow>
       order_ok d (nd_order nd h)"
    "nd_latest nd < 4294967295" "h \<le> nd_latest nd \<Longrightarrow> \<not> fatal_returns E L toks (ch_block ch h) nd h"
  using assms unfolding serves_def by blast+

text \<open>Only a block that comes to nothing without an exit under way can be meant.\<close>

lemma fatal_returns_panics:
  "fatal_returns E L toks src nd h \<Longrightarrow> \<forall>x. block_data E L toks src (nd_events nd h) \<noteq> Ok x"
  using events_loop_exiting
  by (fastforce simp: fatal_returns_def data_defs split: events_result.splits option.splits)

text \<open>Where no \<^verbatim>\<open>log.Fatalf\<close> returns, the exit makes no difference to the block.\<close>

lemma index_block_exiting:
  assumes "\<not> fatal_returns E L toks src nd h"
  shows "index_block E L MutHash toks (nd_exiting nd h) height newest src (nd_events nd h) ord =
    index_block E L MutHash toks False height newest src (nd_events nd h) ord"
  using assms
  by (cases "nd_exiting nd h")
    (auto simp: fatal_returns_def round_data_def index_block_def Let_def split: events_result.splits option.splits)

lemma index_block_served:
  assumes "serves E L toks ch nd" "h \<le> nd_latest nd" "nd_block nd h = Inr (Some src)"
  shows "index_block E L MutHash toks (nd_exiting nd h) height newest src (nd_events nd h) ord =
    index_block E L MutHash toks False height newest src (nd_events nd h) ord"
  using index_block_exiting servesD(5) [OF assms(1,2)] servesD(1) [OF assms] by blast

text \<open>The state that \<^verbatim>\<open>IndexBlocks\<close> hands to \<^verbatim>\<open>setBlock\<close>.\<close>

lemma index_block_state:
  assumes "serves E L toks ch nd" "h \<le> nd_latest nd" "nd_block nd h = Inr (Some src)"
    and "index_block E L MutHash toks (nd_exiting nd h) h newest src (nd_events nd h) (nd_order nd h) = Ok state"
  obtains txs d where "block_data E L toks (ch_block ch h) (ch_events ch h) = Ok (txs, d)"
    "src = ch_block ch h" "data_at E L toks ch h = (txs, d)" "order_ok d (nd_order nd h)"
    "state = \<lparr>bs_block = \<lparr>mb_timestamp = sb_Timestamp src, mb_transactions = txs\<rparr>,
       bs_changes = map (change_at E h) (flat_diffs d (nd_order nd h)),
       bs_hashes = map (\<lambda>txn. MutHash (unsigned_tx txn)) (sb_Transactions src),
       bs_id = \<lparr>bid_byHeight = False, bid_hash = sb_Hash src, bid_height = h\<rparr>, bs_synced = newest\<rparr>"
proof -
  have src: "src = ch_block ch h" using servesD(1) [OF assms(1-3)] .
  have block: "index_block E L MutHash toks False h newest src (nd_events nd h) (nd_order nd h) = Ok state"
    using assms(4) index_block_served [OF assms(1-3)] by simp
  have evts: "nd_events nd h = ch_events ch h"
    using servesD(2) [OF assms(1,2)] block by (auto simp: index_block_def Let_def)
  obtain txs d where data: "block_data E L toks src (ch_events ch h) = Ok (txs, d)"
    using block unfolding evts
    by (auto simp: data_defs index_block_def Let_def res_simps split: events_result.splits option.splits)
  have ord: "order_ok d (nd_order nd h)" using servesD(3) [OF assms(1,2)] data by (simp add: src)
  have empty: "flat_diffs Map.empty (nd_order nd h) = []" if "d = Map.empty"
    using ord that by (simp add: order_ok_def flat_diffs_def)
  have "state = \<lparr>bs_block = \<lparr>mb_timestamp = sb_Timestamp src, mb_transactions = txs\<rparr>,
       bs_changes = map (change_at E h) (flat_diffs d (nd_order nd h)),
       bs_hashes = map (\<lambda>txn. MutHash (unsigned_tx txn)) (sb_Transactions src),
       bs_id = \<lparr>bid_byHeight = False, bid_hash = sb_Hash src, bid_height = h\<rparr>, bs_synced = newest\<rparr>"
    using block data unfolding evts
    by (auto simp: data_defs index_block_def Let_def res_simps encode_changes_eq empty
        split: events_result.splits option.splits)
  with data ord src show thesis by (intro that) (simp_all add: data_at_def)
qed

section \<open>One block keeps the invariant\<close>

text \<open>The invariant on the contents alone, so that its parts can be proved one at a time.\<close>

definition contents_ok ::
  "env \<Rightarrow> evm_lib \<Rightarrow> (mutable_tx \<Rightarrow> hash256) \<Rightarrow> codec \<Rightarrow> (address \<rightharpoonup> currencyInfo) \<Rightarrow> chain \<Rightarrow>
   nat \<Rightarrow> (bytes \<rightharpoonup> bytes) \<Rightarrow> bool" where
  "contents_ok E L MutHash C toks ch n m \<longleftrightarrow>
     m heightKey = (if n = 0 then None else Some (le_put32 (word_of_nat (n - 1)))) \<and>
     acct_keys_ok E m \<and>
     (\<forall>h. n \<le> unat h \<longrightarrow> m (blockHeight2HashKey h) = None) \<and>
     (\<forall>x. is_hash x \<longrightarrow> (\<forall>h. unat h < n \<longrightarrow> x \<noteq> sb_Hash (ch_block ch h)) \<longrightarrow>
        m (blockHash2HeightKey x) = None) \<and>
     (\<forall>a c. is_addr a \<longrightarrow> is_addr c \<longrightarrow> acct_hist E m a c = chain_hist (diff_of E L toks ch a c) n) \<and>
     (\<forall>h. unat h < n \<longrightarrow>
        block_data E L toks (ch_block ch h) (ch_events ch h) = Ok (data_at E L toks ch h) \<and>
        block_at C m h (sb_Hash (ch_block ch h)) (stored_block E L toks ch h) \<and>
        (\<forall>t\<in>set (sb_Transactions (ch_block ch h)). m (txnHashKey (MutHash (unsigned_tx t))) = Some []))"

lemma synced_alt:
  "synced E L MutHash C toks ch con n s \<longleftrightarrow>
     n < 2 ^ 32 \<and> tokens s = toks \<and> heightIndexed s = (if n = 0 then None else Some (int n - 1)) \<and>
     contents_ok E L MutHash C toks ch n (con (st_db s))"
  by (auto simp: synced_def contents_ok_def)

lemma less_Suc_unat: "unat k < Suc (unat h) \<longleftrightarrow> k = h \<or> unat k < unat (h :: u32)"
  by (auto simp: less_Suc_eq word_unat_eq_iff)

lemma contents_ok_step:
  assumes env: "env_ok E" "evm_ok L" "toks_ok toks" "codec_ok C" "chain_ok MutHash ch"
    and data: "block_data E L toks (ch_block ch h) (ch_events ch h) = Ok (txs, d)" "order_ok d ord"
    and m: "contents_ok E L MutHash C toks ch n m" "n = unat h \<or> n = Suc (unat h)"
    and state: "bs_block state = stored_block E L toks ch h" "bs_id state = \<lparr>bid_byHeight = False, bid_hash = sb_Hash (ch_block ch h), bid_height = h\<rparr>"
      "bs_hashes state = map (\<lambda>txn. MutHash (unsigned_tx txn)) (sb_Transactions (ch_block ch h))"
      "MarshalBlock C (bs_block state) = Inr bytes"
  shows "contents_ok E L MutHash C toks ch (Suc (unat h)) (block_contents E m (flat_diffs d ord) state bytes)"
proof -
  let ?ds = "flat_diffs d ord" and ?m = "block_contents E m (flat_diffs d ord) state bytes"
  have ds: "diffs_ok ?ds" using flat_diffs_ok block_data_valid [OF env(1-3) data(1)] data(2) by blast
  have hash: "is_hash (sb_Hash (ch_block ch k))" "is_hash (MutHash t)" for k t
    using env(5) by (simp_all add: chain_ok_def)
  have inj: "sb_Hash (ch_block ch k) = sb_Hash (ch_block ch h) \<longleftrightarrow> k = h" for k
    using env(5) by (metis chain_ok_def injD)
  have key: "?m heightKey = Some (le_put32 (word_of_nat (unat h)))"
    by (simp add: block_contents_keys state)
  have acct: "acct_keys_ok E ?m" using acct_keys_ok_block [OF env(1) ds] m(1) by (simp add: contents_ok_def)
  have hist: "acct_hist E ?m a c = chain_hist (diff_of E L toks ch a c) (Suc (unat h))"
    if "is_addr a" "is_addr c" for a c
  proof -
    have "map_of ?ds (a, c) = diff_of E L toks ch a c (unat h)"
      using data by (simp add: map_of_order diff_of_def data_at_def)
    moreover have "acct_hist E m a c = chain_hist (diff_of E L toks ch a c) n"
      using m(1) that unfolding contents_ok_def by blast
    ultimately have "acct_hist E ?m a c = (case diff_of E L toks ch a c (unat h) of
        None \<Rightarrow> chain_hist (diff_of E L toks ch a c) n
      | Some \<delta> \<Rightarrow> post (unat h) \<delta> (chain_hist (diff_of E L toks ch a c) n))"
      using acct_hist_block [OF env(1) ds that] by (simp add: state split: option.split)
    then show ?thesis using post_chain_hist [OF m(2)] by simp
  qed
  have here: "block_at C ?m h (sb_Hash (ch_block ch h)) (stored_block E L toks ch h)"
    using block_at_new [OF env(4) state(4), where E = E and m = m and ds = ?ds and state = state] hash by (simp add: state)
  have old: "block_data E L toks (ch_block ch k) (ch_events ch k) = Ok (data_at E L toks ch k) \<and>
      block_at C m k (sb_Hash (ch_block ch k)) (stored_block E L toks ch k) \<and>
      (\<forall>t\<in>set (sb_Transactions (ch_block ch k)). m (txnHashKey (MutHash (unsigned_tx t))) = Some [])"
    if "unat k < unat h" for k
  proof -
    have "unat k < n" using that m(2) by auto
    then show ?thesis using m(1) unfolding contents_ok_def by blast
  qed
  have there: "block_at C ?m k (sb_Hash (ch_block ch k)) (stored_block E L toks ch k)" if "unat k < unat h" for k
    using that old hash inj by (intro block_at_frame) (auto simp: state)
  have txn: "?m (txnHashKey (MutHash (unsigned_tx t))) = Some []"
    if "t \<in> set (sb_Transactions (ch_block ch k))" "k = h \<or> unat k < unat h" for t k
  proof -
    have "MutHash (unsigned_tx t) \<in> set (bs_hashes state) \<or> m (txnHashKey (MutHash (unsigned_tx t))) = Some []"
      using that old by (auto simp: state)
    then show ?thesis using hash by (subst block_contents_keys(5)) (auto simp: state(3))
  qed
  have ok: "block_data E L toks (ch_block ch k) (ch_events ch k) = Ok (data_at E L toks ch k)"
    if "k = h \<or> unat k < unat h" for k
    using that old data(1) by (auto simp: data_at_def)
  have above: "?m (blockHeight2HashKey k) = None" if "Suc (unat h) \<le> unat k" for k
  proof -
    have "k \<noteq> h" "n \<le> unat k" using that m(2) by auto
    then show ?thesis using m(1) by (simp add: block_contents_keys state contents_ok_def)
  qed
  have other: "\<forall>x. is_hash x \<longrightarrow> (\<forall>k. k = h \<or> unat k < unat h \<longrightarrow> x \<noteq> sb_Hash (ch_block ch k)) \<longrightarrow>
      ?m (blockHash2HeightKey x) = None"
  proof (intro allI impI)
    fix x assume x: "is_hash x" "\<forall>k. k = h \<or> unat k < unat h \<longrightarrow> x \<noteq> sb_Hash (ch_block ch k)"
    have "x \<noteq> sb_Hash (ch_block ch k)" if "unat k < n" for k
      using that m(2) less_Suc_unat x(2) by auto
    then have "m (blockHash2HeightKey x) = None" using m(1) x(1) by (simp add: contents_ok_def)
    then show "?m (blockHash2HeightKey x) = None" using x hash by (simp add: block_contents_keys state)
  qed
  show ?thesis
    unfolding contents_ok_def less_Suc_unat using key acct hist here there txn ok above other
    by (intro conjI) auto
qed

lemma synced_step:
  assumes "badger_ok B con" "env_ok E" "evm_ok L" "toks_ok toks" "codec_ok C" "chain_ok MutHash ch"
    and "serves E L toks ch nd"
    and "synced E L MutHash C toks ch con n s" "n = unat h \<or> n = Suc (unat h)" "h \<le> nd_latest nd"
    and "nd_block nd h = Inr (Some src)"
    and "index_block E L MutHash toks (nd_exiting nd h) h newest src (nd_events nd h) (nd_order nd h) = Ok state"
    and "setBlock B C s state = Ok s'"
  shows "synced E L MutHash C toks ch con (Suc (unat h)) s'"
proof -
  from index_block_state [OF assms(7,10-12)] obtain txs d where
    data: "block_data E L toks (ch_block ch h) (ch_events ch h) = Ok (txs, d)" "data_at E L toks ch h = (txs, d)"
      "order_ok d (nd_order nd h)" "src = ch_block ch h"
    and state: "state = \<lparr>bs_block = \<lparr>mb_timestamp = sb_Timestamp src, mb_transactions = txs\<rparr>,
       bs_changes = map (change_at E h) (flat_diffs d (nd_order nd h)),
       bs_hashes = map (\<lambda>txn. MutHash (unsigned_tx txn)) (sb_Transactions src),
       bs_id = \<lparr>bid_byHeight = False, bid_hash = sb_Hash src, bid_height = h\<rparr>, bs_synced = newest\<rparr>"
    by metis
  have ds: "diffs_ok (flat_diffs d (nd_order nd h))"
    using flat_diffs_ok block_data_valid [OF assms(2-4) data(1)] data(3) by blast
  have s: "contents_ok E L MutHash C toks ch n (con (st_db s))" "tokens s = toks"
    using assms(8) by (simp_all add: synced_alt)
  have acct: "acct_keys_ok E (con (st_db s))" using s(1) by (simp add: contents_ok_def)
  have changes: "bs_changes state = map (change_at E (bid_height (bs_id state))) (flat_diffs d (nd_order nd h))"
    by (simp add: state)
  obtain bytes where
    eff: "MarshalBlock C (bs_block state) = Inr bytes"
    "con (st_db s') = block_contents E (con (st_db s)) (flat_diffs d (nd_order nd h)) state bytes"
    "heightIndexed s' = Some (uint h)" "tokens s' = tokens s"
    using setBlock_effect [OF assms(1,2) acct ds changes assms(13)] by (metis blockID.select_convs(3) blockState.select_convs(4) state)
  have "contents_ok E L MutHash C toks ch (Suc (unat h)) (con (st_db s'))"
    unfolding eff(2) by (rule contents_ok_step [OF assms(2-6) data(1,3) s(1) assms(9)])
      (use eff(1) in \<open>simp_all add: state stored_block_def data\<close>)
  moreover have "Suc (unat h) < 2 ^ 32"
    using assms(10) servesD(4) [OF assms(7)] by (simp add: word_less_nat_alt word_le_nat_alt)
  ultimately show ?thesis using eff(3,4) s(2) by (simp add: synced_alt)
qed

section \<open>Rounds keep the invariant\<close>

text \<open>The inner loop returns, and what it leaves behind satisfies the invariant.\<close>

lemma index_loop_synced:
  assumes "badger_ok B con" "env_ok E" "evm_ok L" "toks_ok toks" "codec_ok C" "chain_ok MutHash ch"
    and "serves E L toks ch nd"
    and "synced E L MutHash C toks ch con n s" "n = unat h \<or> n = Suc (unat h)"
  shows "\<exists>out. index_loop E L MutHash B C nd h s = Some out \<and>
    (\<forall>s'. out = Again s' \<or> out = Returned s' \<longrightarrow> (\<exists>n'\<ge>n. synced E L MutHash C toks ch con n' s'))"
  using assms(8,9)
proof (induction "Suc (unat (nd_latest nd)) - unat h" arbitrary: h s n rule: less_induct)
  case less
  have toks: "tokens s = toks" using less.prems(1) by (simp add: synced_def)
  have same: ?case if "index_loop E L MutHash B C nd h s \<in> {Some (Again s), Some (Returned s), Some Died}"
    using that less.prems by auto
  show ?case
  proof (cases "\<exists>src state s'. h \<le> nd_latest nd \<and> \<not> nd_cancel nd h \<and> nd_block nd h = Inr (Some src) \<and>
      index_block E L MutHash toks (nd_exiting nd h) h (nd_latest nd) src (nd_events nd h) (nd_order nd h) = Ok state \<and>
      setBlock B C s state = Ok s'")
    case True
    then obtain src state s' where *: "h \<le> nd_latest nd" "\<not> nd_cancel nd h" "nd_block nd h = Inr (Some src)"
      "index_block E L MutHash toks (nd_exiting nd h) h (nd_latest nd) src (nd_events nd h) (nd_order nd h) = Ok state"
      "setBlock B C s state = Ok s'" by blast
    have h: "h < 4294967295" using * servesD(4) [OF assms(7)] by simp
    have next_h: "unat (h + 1) = Suc (unat h)"
      using h by (simp add: word_less_nat_alt unat_word_ariths)
    have "synced E L MutHash C toks ch con (Suc (unat h)) s'"
      by (rule synced_step [OF assms(1-7) less.prems *(1,3-5)])
    moreover have "Suc (unat (nd_latest nd)) - unat (h + 1) < Suc (unat (nd_latest nd)) - unat h"
      using * by (simp add: next_h word_le_nat_alt)
    ultimately obtain out where "index_loop E L MutHash B C nd (h + 1) s' = Some out"
      "\<forall>s'. out = Again s' \<or> out = Returned s' \<longrightarrow> (\<exists>n'\<ge>Suc (unat h). synced E L MutHash C toks ch con n' s')"
      using less.hyps [of "h + 1" "Suc (unat h)" s'] next_h by auto
    moreover have "n \<le> Suc (unat h)" using less.prems(2) by auto
    ultimately show ?thesis
      using * toks by (subst index_loop.simps) (auto intro: le_trans)
  next
    case False
    then have "index_loop E L MutHash B C nd h s \<in> {Some (Again s), Some (Returned s), Some Died}"
      using toks by (subst index_loop.simps) (auto split: sum.split option.split res.split simp: not_less)
    then show ?thesis by (rule same)
  qed
qed

lemma synced_next_height:
  assumes "synced E L MutHash C toks ch con n s"
  shows "n = unat (next_height s) \<or> n = Suc (unat (next_height s))"
    and "n \<noteq> 0 \<Longrightarrow> unat (getHeight s) = n - 1"
proof -
  have n: "n < 4294967296" "heightIndexed s = (if n = 0 then None else Some (int n - 1))"
    using assms by (simp_all add: synced_def)
  have "(n = unat (next_height s) \<or> n = Suc (unat (next_height s))) \<and> (n \<noteq> 0 \<longrightarrow> unat (getHeight s) = n - 1)"
  proof (cases n)
    case 0
    then show ?thesis using n by (simp add: next_height_def getHeight_def)
  next
    case (Suc m)
    have h: "getHeight s = word_of_nat m" using n by (simp add: getHeight_def Suc)
    have m: "unat (word_of_nat m :: u32) = m" "unat (1 + word_of_nat m :: u32) = Suc m"
      using n unat_of_nat_u32 [of m] unat_of_nat_u32 [of "Suc m"] by (simp_all add: Suc)
    then show ?thesis
      by (cases "m = 0") (simp_all add: h Suc next_height_def Let_def word_less_nat_alt add.commute)
  qed
  then show "n = unat (next_height s) \<or> n = Suc (unat (next_height s))"
    and "n \<noteq> 0 \<Longrightarrow> unat (getHeight s) = n - 1" by blast+
qed

lemma index_round_synced:
  assumes "badger_ok B con" "env_ok E" "evm_ok L" "toks_ok toks" "codec_ok C" "chain_ok MutHash ch"
    and "serves E L toks ch nd" "synced E L MutHash C toks ch con n s"
  shows "\<exists>out. index_round E L MutHash B C exitEarly nd s = Some out \<and>
    (\<forall>s'. out = Again s' \<or> out = Returned s' \<longrightarrow> (\<exists>n'\<ge>n. synced E L MutHash C toks ch con n' s'))"
  using index_loop_synced [OF assms synced_next_height(1) [OF assms(8)]] assms(8)
  by (auto simp: index_round_def)

lemma NewStore_synced:
  assumes "badger_ok B con" "con d0 = Map.empty" "NewStore E B (Inr d0) oep4 False current = Ok s"
  shows "synced E L MutHash C (make_tokens E oep4) ch con 0 s"
proof -
  have "db_get B d0 heightKey = Inl ErrKeyNotFound" using badger_get [OF assms(1)] assms(2) by simp
  then have "s = \<lparr>st_db = d0, heightIndexed = None, heightSynced = Some (uint current), tokens = make_tokens E oep4\<rparr>"
    using assms(3) by (simp add: NewStore_def read_height_def Let_def)
  then show ?thesis using assms(2) by (simp add: synced_def acct_keys_ok_def acct_hist_def fun_eq_iff)
qed

text \<open>A restart reads the height back, so it keeps the invariant too.\<close>

lemma NewStore_keeps_synced:
  assumes "badger_ok B con" "synced E L MutHash C (make_tokens E oep4) ch con n s"
    and "NewStore E B (Inr (st_db s)) oep4 False current = Ok s'"
  shows "synced E L MutHash C (make_tokens E oep4) ch con n s'"
proof -
  have n: "n < 4294967296" using assms(2) by (simp add: synced_def)
  have key: "con (st_db s) heightKey = (if n = 0 then None else Some (le_put32 (word_of_nat (n - 1))))"
    using assms(2) by (simp add: synced_def)
  have "uint (word_of_nat (n - 1) :: u32) = int n - 1" if "n \<noteq> 0"
    using that n unat_of_nat_u32 [of "n - 1"] by (simp add: uint_nat)
  then have "st_db s' = st_db s" "tokens s' = make_tokens E oep4"
    "heightIndexed s' = (if n = 0 then None else Some (int n - 1))"
    using assms(3) key
    by (cases "n = 0"; auto simp: NewStore_def read_height_def badger_get [OF assms(1)] Let_def go_simps)+
  then show ?thesis using assms(2) by (simp add: synced_def)
qed

lemma server_steps_synced:
  assumes "badger_ok B con" "env_ok E" "evm_ok L" "toks_ok (make_tokens E oep4)" "codec_ok C" "chain_ok MutHash ch"
    and "(server_step E L MutHash B C (serves E L (make_tokens E oep4) ch) oep4)\<^sup>*\<^sup>* s s'"
    and "synced E L MutHash C (make_tokens E oep4) ch con n s"
  shows "\<exists>n'\<ge>n. synced E L MutHash C (make_tokens E oep4) ch con n' s'"
  using assms(7,8)
proof (induction rule: rtranclp_induct)
  case (step y z)
  then obtain n1 where n1: "n1 \<ge> n" "synced E L MutHash C (make_tokens E oep4) ch con n1 y" by blast
  have "\<exists>n2\<ge>n1. synced E L MutHash C (make_tokens E oep4) ch con n2 z"
    using step.hyps(2)
  proof (cases rule: server_step.cases)
    case (next_round exitEarly)
    then obtain nd where "serves E L (make_tokens E oep4) ch nd"
      "index_round E L MutHash B C exitEarly nd y = Some (Again z)"
      by (auto simp: index_step_iff)
    then show ?thesis using index_round_synced [OF assms(1-6) _ n1(2), of nd exitEarly] by auto
  next
    case (stops nd exitEarly)
    then show ?thesis using index_round_synced [OF assms(1-6) _ n1(2), of nd exitEarly] by auto
  next
    case (restart current)
    then show ?thesis using NewStore_keeps_synced [OF assms(1) n1(2)] by blast
  qed
  with n1(1) show ?case by (meson le_trans)
qed auto

section \<open>Balances are sums\<close>

definition diff_val :: "(nat \<Rightarrow> int option) \<Rightarrow> nat \<Rightarrow> int" where
  "diff_val D k = (case D k of None \<Rightarrow> 0 | Some d \<Rightarrow> d)"

lemma chain_hist_above: "n \<le> k \<Longrightarrow> chain_hist D n k = None"
  by (induction n) (auto simp: post_def split: option.split)

lemma latest_chain_hist_stable:
  assumes "h < n"
  shows "latest (chain_hist D n) h = latest (chain_hist D (Suc h)) h"
  using assms by (induction n) (auto simp: less_Suc_eq latest_post_below split: option.split)

lemma latest_chain_hist_Suc:
  "latest (chain_hist D (Suc h)) h =
     (case D h of None \<Rightarrow> latest_before (chain_hist D h) h | Some d \<Rightarrow> \<bar>latest_before (chain_hist D h) h + d\<bar>)"
proof (cases "D h")
  case None
  have "chain_hist D h h = None" by (simp add: chain_hist_above)
  then have "latest (chain_hist D h) h = latest_before (chain_hist D h) h"
    by (cases h) simp_all
  then show ?thesis by (simp add: None)
qed simp

lemma latest_chain_hist:
  assumes "\<forall>k\<le>h. 0 \<le> (\<Sum>j\<le>k. diff_val D j)"
  shows "latest (chain_hist D (Suc h)) h = (\<Sum>j\<le>h. diff_val D j)"
  using assms
proof (induction h)
  case 0
  have "latest (chain_hist D (Suc 0)) 0 = (case D 0 of None \<Rightarrow> 0 | Some d \<Rightarrow> \<bar>d\<bar>)"
    unfolding latest_chain_hist_Suc by (simp split: option.split)
  with 0 show ?case by (simp add: diff_val_def del: chain_hist.simps latest.simps split: option.splits)
next
  case (Suc h)
  then have "latest (chain_hist D (Suc h)) h = (\<Sum>j\<le>h. diff_val D j)" by simp
  moreover have "0 \<le> (\<Sum>j\<le>h. diff_val D j) + diff_val D (Suc h)" using Suc.prems by (metis le_refl sum.atMost_Suc)
  moreover have "latest (chain_hist D (Suc (Suc h))) (Suc h) =
      (case D (Suc h) of None \<Rightarrow> latest (chain_hist D (Suc h)) h | Some d \<Rightarrow> \<bar>latest (chain_hist D (Suc h)) h + d\<bar>)"
    by (simp only: latest_chain_hist_Suc latest_before_Suc)
  ultimately show ?case
    using diff_val_def [of D "Suc h"] by (cases "D (Suc h)") (simp_all del: chain_hist.simps latest.simps)
qed

section \<open>A healthy round\<close>

text \<open>
  A node that serves the blocks up to its latest height without failing, and a database and a
  codec that accept every one of these blocks.
\<close>

definition healthy ::
  "env \<Rightarrow> evm_lib \<Rightarrow> 'db badger \<Rightarrow> codec \<Rightarrow> (address \<rightharpoonup> currencyInfo) \<Rightarrow> chain \<Rightarrow> node \<Rightarrow> bool" where
  "healthy E L B C toks ch nd \<longleftrightarrow>
     \<not> nd_cancel_round nd \<and>
     (\<forall>h\<le>nd_latest nd.
        \<not> nd_cancel nd h \<and> nd_block nd h = Inr (Some (ch_block ch h)) \<and> nd_events nd h = ch_events ch h \<and>
        (\<exists>x. block_data E L toks (ch_block ch h) (ch_events ch h) = Ok x) \<and>
        (\<forall>s state. bs_block state = stored_block E L toks ch h \<longrightarrow> (\<exists>s'. setBlock B C s state = Ok s')))"

lemma index_block_Ok:
  assumes "block_data E L toks src evts = Ok x"
  obtains state where "index_block E L MutHash toks False h newest src evts ord = Ok state"
    "bs_block state = \<lparr>mb_timestamp = sb_Timestamp src, mb_transactions = fst x\<rparr>" "bs_synced state = newest"
  using assms that
  by (cases x) (fastforce simp: data_defs index_block_def Let_def split: events_result.splits option.splits)

lemma setBlock_synced: "setBlock B C s state = Ok s' \<Longrightarrow> heightSynced s' = Some (uint (bs_synced state))"
  by (auto simp: setBlock_def setHeight_def split: sum.splits)

lemma index_loop_complete:
  assumes "badger_ok B con" "env_ok E" "evm_ok L" "toks_ok toks" "codec_ok C" "chain_ok MutHash ch"
    and "serves E L toks ch nd" "healthy E L B C toks ch nd"
    and "synced E L MutHash C toks ch con n s" "n = unat h \<or> n = Suc (unat h)" "h \<le> nd_latest nd"
  shows "\<exists>s'. index_loop E L MutHash B C nd h s = Some (Again s') \<and>
    synced E L MutHash C toks ch con (Suc (unat (nd_latest nd))) s' \<and> heightSynced s' = Some (uint (nd_latest nd))"
  using assms(9-11)
proof (induction "unat (nd_latest nd) - unat h" arbitrary: h s n rule: less_induct)
  case less
  let ?src = "ch_block ch h"
  have toks: "tokens s = toks" using less.prems(1) by (simp add: synced_def)
  obtain x where node: "\<not> nd_cancel nd h" "nd_block nd h = Inr (Some ?src)" "nd_events nd h = ch_events ch h"
    "block_data E L toks ?src (ch_events ch h) = Ok x"
    "\<And>s state. bs_block state = stored_block E L toks ch h \<Longrightarrow> \<exists>s'. setBlock B C s state = Ok s'"
    using assms(8) less.prems(3) by (auto simp: healthy_def)
  obtain state where state: "index_block E L MutHash toks (nd_exiting nd h) h (nd_latest nd) ?src (nd_events nd h) (nd_order nd h) = Ok state"
    "bs_block state = stored_block E L toks ch h" "bs_synced state = nd_latest nd"
    using index_block_Ok [OF node(4)] node(3,4) unfolding index_block_served [OF assms(7) less.prems(3) node(2)]
    by (metis stored_block_def data_at_def res.sel(1))
  obtain s' where s': "setBlock B C s state = Ok s'" using node(5) state(2) by blast
  have h: "h < 4294967295" using less.prems(3) servesD(4) [OF assms(7)] by simp
  have next_h: "unat (h + 1) = Suc (unat h)" using h by (simp add: word_less_nat_alt unat_word_ariths)
  have synced: "synced E L MutHash C toks ch con (Suc (unat h)) s'"
    by (rule synced_step [OF assms(1-7) less.prems node(2) state(1) s'])
  have step: "index_loop E L MutHash B C nd h s = index_loop E L MutHash B C nd (h + 1) s'"
    using leD [OF less.prems(3)] node toks state(1) s' by (subst index_loop.simps) simp
  show ?case
  proof (cases "h = nd_latest nd")
    case True
    have "index_loop E L MutHash B C nd (h + 1) s' = Some (Again s')"
      using True next_h by (subst index_loop.simps) (simp add: word_less_nat_alt)
    then show ?thesis using step synced True setBlock_synced [OF s'] state(3) by simp
  next
    case False
    then have lt: "unat h < unat (nd_latest nd)"
      using less.prems(3) by (metis order_less_le word_less_nat_alt)
    then have le: "h + 1 \<le> nd_latest nd" by (simp add: word_le_nat_alt next_h)
    have "unat (nd_latest nd) - unat (h + 1) < unat (nd_latest nd) - unat h" using lt by (simp add: next_h)
    from less.hyps [OF this synced _ le] next_h show ?thesis by (simp add: step)
  qed
qed

section \<open>A concrete chain\<close>

text \<open>
  A codec for a fixed list of blocks, and a chain whose first block mints 7 ONT for Alice, at
  which the properties are applied.
\<close>

definition table_codec :: "mblock list \<Rightarrow> codec" where
  "table_codec bs =
     \<lparr>MarshalBlock = (\<lambda>b. if b \<in> set bs then Inr (replicate (length (takeWhile (\<lambda>x. x \<noteq> b) bs)) 0) else Inl ''unsupported''),
      UnmarshalBlock = (\<lambda>x. if length x < length bs then Inr (bs ! length x) else Inl ''unknown''),
      MarshalOptions = (\<lambda>m. if m = no_options then Inr [] else Inl ''unsupported''),
      UnmarshalOptions = (\<lambda>bs. Inr no_options)\<rparr>"

lemma codec_ok_table [simp]: "codec_ok (table_codec bs)"
proof -
  have "length (takeWhile (\<lambda>x. x \<noteq> b) bs) < length bs \<and> bs ! length (takeWhile (\<lambda>x. x \<noteq> b) bs) = b"
    if b: "b \<in> set bs" for b
  proof -
    obtain xs ys where "bs = xs @ b # ys" "b \<notin> set xs" using split_list_first [OF b] by blast
    moreover from this have "takeWhile (\<lambda>x. x \<noteq> b) bs = xs" by (auto simp: takeWhile_append)
    ultimately show ?thesis by simp
  qed
  then show ?thesis by (auto simp: codec_ok_def table_codec_def split: if_splits)
qed

definition evm0 :: evm_lib where
  "evm0 = \<lparr>NotifyEventInfoToEvmLog = (\<lambda>e. Inl ''no evm log''), UnpackLog = (\<lambda>l. Inl ''no transfer''),
     HexToAddress = (\<lambda>s. replicate 20 0)\<rparr>"

lemma evm_ok_evm0 [simp]: "evm_ok evm0"
  by (simp add: evm_ok_def evm0_def)

definition mut_hash0 :: "mutable_tx \<Rightarrow> hash256" where
  "mut_hash0 t = replicate 28 0 @ le_put32 (mut_Nonce t)"

definition tx0 :: src_tx where
  "tx0 = \<lparr>mut_GasLimit = 20000, mut_GasPrice = 2500, mut_Nonce = 1, mut_Payer = alice, mut_Payload = [],
     mut_TxType = 209, mut_Version = 0, stx_Sigs = [], stx_Hash = replicate 32 8\<rparr>"

definition mint_event0 :: notify where
  "mint_event0 = \<lparr>ev_contract = ontAddr env0, ev_states = SList [EString ''transfer'',
     EString (ToBase58 env0 (nullAddr env0)), EString (ToBase58 env0 alice), ENumber ''7'']\<rparr>"

definition mint0 :: execute_notify where
  "mint0 = \<lparr>en_tx_hash = replicate 32 8, en_failed = False, en_gas_consumed = 0,
     en_notify = [mint_event0]\<rparr>"

definition chain0 :: chain where
  "chain0 = \<lparr>ch_block = (\<lambda>h. \<lparr>sb_Hash = replicate 28 1 @ le_put32 h, sb_Timestamp = 5, sb_Transactions = [tx0]\<rparr>),
     ch_events = (\<lambda>h. if h = 0 then Ev (Some [mint0]) else EvNotFound)\<rparr>"

lemma chain_ok_chain0 [simp]: "chain_ok mut_hash0 chain0"
  by (simp add: chain_ok_def chain0_def is_hash_def mut_hash0_def inj_def le_put32_inj)

lemma from_hex_env0 [simp]: "is_addr a \<Longrightarrow> AddressFromBase58 env0 (hex_encode (rev a)) = Inr a"
  using addr_base58_roundtrip [OF env_ok_env0] by simp

definition transfer0 :: transfer where
  "transfer0 = \<lparr>tr_amount = 7000000000, tr_from = nullAddr env0, tr_isGas = False, tr_to = alice\<rparr>"

lemma decode_mint0: "decodeTransfer env0 exiting mint0 mint_event0 = Ok (Some transfer0)"
  by (simp add: decodeTransfer_def mint_event0_def decode_native_def native_gas_def Int64_def parse_digits_def
      dec_val_def numeral_eq_Suc transfer0_def)

definition xfer0 :: mtransfer where
  "xfer0 = \<lparr>mx_amount = big_bytes 7000000000, mx_contract = addr2slice env0 (ontAddr env0),
     mx_from = addr2slice env0 (nullAddr env0), mx_is_gas = False, mx_to = addr2slice env0 alice\<rparr>"

definition data0 :: "mtransaction list \<times> diffs" where
  "data0 = ([\<lparr>mt_failed = False, mt_hash = replicate 32 8, mt_transfers = [xfer0]\<rparr>],
     [alice \<mapsto> [ontAddr env0 \<mapsto> 7000000000]])"

lemma alice_null [simp]: "alice \<noteq> nullAddr env0" "nullAddr env0 \<noteq> alice"
  by (simp_all add: alice_def native_addrs(4) replicate_eq_replicate)

lemma notify_mint0:
  "notify_loop env0 evm0 (native_tokens env0) exiting alice mint0 False [mint_event0] [] Map.empty =
     Ok ([xfer0], [alice \<mapsto> [ontAddr env0 \<mapsto> 7000000000]])"
proof -
  have "checkEvmEventLog evm0 mint_event0 = None" by (simp add: checkEvmEventLog_def evm0_def)
  then have "decode_event env0 evm0 exiting mint0 mint_event0 = Ok (Some transfer0)"
    by (simp add: decode_event_def decode_mint0)
  moreover have "native_tokens env0 (ev_contract mint_event0) \<noteq> None"
    by (simp add: native_tokens_def mint_event0_def)
  moreover have "\<not> en_failed mint0" by (simp add: mint0_def)
  moreover have "\<not> tr_isGas transfer0" "transfer0\<lparr>tr_isGas := False\<rparr> = transfer0" by (simp_all add: transfer0_def)
  ultimately have "select_event env0 evm0 (native_tokens env0) exiting alice mint0 False mint_event0 = Ok (Some (False, transfer0))"
    by (simp add: select_event_def checkgasVerified_def)
  moreover have "balanceCal env0 transfer0 (ev_contract mint_event0) Map.empty =
      (xfer0, [alice \<mapsto> [ontAddr env0 \<mapsto> 7000000000]])"
    by (simp add: balanceCal_def add_to_def transfer0_def xfer0_def mint_event0_def)
  ultimately show ?thesis by simp
qed

lemma block_data0:
  "block_data env0 evm0 (native_tokens env0) (ch_block chain0 0) (ch_events chain0 0) = Ok data0"
proof -
  have "offset_of (ch_block chain0 0) (en_tx_hash mint0) = 0"
    by (simp add: offset_of_def chain0_def tx0_def mint0_def)
  then show ?thesis
    using notify_mint0
    by (simp add: data_defs chain0_def new_transactions_def data0_def)
      (simp add: tx0_def mint0_def)
qed

definition store1 :: "mem_db store" where
  "store1 = \<lparr>st_db = [], heightIndexed = None, heightSynced = Some 0, tokens = native_tokens env0\<rparr>"

definition node0 :: node where
  "node0 = \<lparr>nd_latest = 0, nd_block = (\<lambda>h. Inr (Some (ch_block chain0 h))), nd_events = ch_events chain0,
     nd_order = (\<lambda>h. if h = 0 then [(alice, [ontAddr env0])] else []), nd_cancel_round = False,
     nd_cancel = (\<lambda>h. False), nd_exiting = (\<lambda>h. False)\<rparr>"

text \<open>A block as it is stored without its events.\<close>

definition bare_block :: "src_block \<Rightarrow> mblock" where
  "bare_block src = \<lparr>mb_timestamp = sb_Timestamp src, mb_transactions = new_transactions src\<rparr>"

definition codec1 :: codec where
  "codec1 = table_codec [stored_block env0 evm0 (native_tokens env0) chain0 0, bare_block (ch_block chain0 1)]"

lemma store1_opened: "NewStore env0 mem_badger (Inr []) [] False 0 = Ok store1"
  by (simp add: NewStore_def read_height_def mem_badger_def make_tokens_def store1_def)

lemma serves_node0: "serves env0 evm0 (native_tokens env0) chain0 node0"
proof -
  have "order_ok d (nd_order node0 h)"
    if d: "block_data env0 evm0 (native_tokens env0) (ch_block chain0 h) (ch_events chain0 h) = Ok (txs, d)" for h txs d
  proof (cases "h = 0")
    case True
    then have "d = [alice \<mapsto> [ontAddr env0 \<mapsto> 7000000000]]" using d block_data0 by (simp add: data0_def)
    then show ?thesis by (simp add: True order_ok_def node0_def)
  next
    case False
    then have "d = Map.empty" using d by (simp add: data_defs chain0_def)
    then show ?thesis using False by (simp add: order_ok_def node0_def)
  qed
  then show ?thesis by (auto simp: serves_def fatal_returns_def) (simp_all add: node0_def)
qed

lemma healthy_node0: "healthy env0 evm0 mem_badger codec1 (native_tokens env0) chain0 node0"
proof -
  have "\<exists>data. MarshalBlock codec1 (stored_block env0 evm0 (native_tokens env0) chain0 0) = Inr data"
    by (simp add: codec1_def table_codec_def)
  then have "\<exists>s'. setBlock mem_badger codec1 s state = Ok s'"
    if "bs_block state = stored_block env0 evm0 (native_tokens env0) chain0 0" for s state
    using that setBlock_mem by metis
  then show ?thesis using block_data0 by (auto simp: healthy_def) (simp_all add: node0_def)
qed

lemma toks_ok_make_tokens:
  "env_ok E \<Longrightarrow> \<forall>t\<in>set oep4. is_addr (tk_contract t) \<Longrightarrow> toks_ok (make_tokens E oep4)"
  using make_tokens_ok by (fastforce simp: toks_ok_def token_ok_def)

lemma codec_ok_codec1 [simp]: "codec_ok codec1"
  by (simp add: codec1_def)

lemma native_only [simp]: "make_tokens E [] = native_tokens E"
  by (simp add: make_tokens_def)

lemma chain0_indexed:
  obtains s where "(server_step env0 evm0 mut_hash0 mem_badger codec1 (serves env0 evm0 (native_tokens env0) chain0) [])\<^sup>*\<^sup>* store1 s"
    "synced env0 evm0 mut_hash0 codec1 (native_tokens env0) chain0 map_of 1 s"
proof -
  have toks: "toks_ok (native_tokens env0)" using toks_ok_make_tokens [of env0 "[]"] by simp
  have s1: "synced env0 evm0 mut_hash0 codec1 (native_tokens env0) chain0 map_of 0 store1"
    using NewStore_synced [OF badger_ok_mem _ store1_opened] by simp
  have next_h: "next_height store1 = 0" by (simp add: next_height_def getHeight_def store1_def)
  obtain s where s: "index_loop env0 evm0 mut_hash0 mem_badger codec1 node0 0 store1 = Some (Again s)"
    "synced env0 evm0 mut_hash0 codec1 (native_tokens env0) chain0 map_of 1 s"
    using index_loop_complete [OF badger_ok_mem env_ok_env0 evm_ok_evm0 toks codec_ok_codec1 chain_ok_chain0
      serves_node0 healthy_node0 s1, of 0] by (auto simp: node0_def)
  have "index_round env0 evm0 mut_hash0 mem_badger codec1 False node0 store1 = Some (Again s)"
    using s(1) by (simp add: index_round_def next_h) (simp add: node0_def)
  then have "index_step env0 evm0 mut_hash0 mem_badger codec1 (serves env0 evm0 (native_tokens env0) chain0) False store1 s"
    using serves_node0 by (simp add: index_step_iff) blast
  then show thesis using that [OF _ s(2)] server_step.next_round by (metis r_into_rtranclp)
qed

section \<open>Early exit\<close>

lemma next_height_exit:
  assumes "nd_latest nd < 4294967295"
  shows "next_height s = nd_latest nd + 1 \<longleftrightarrow> 0 < getHeight s \<and> getHeight s = nd_latest nd"
proof -
  have "unat (nd_latest nd + 1) = Suc (unat (nd_latest nd))"
    using assms by (simp add: word_less_nat_alt unat_word_ariths)
  then have "nd_latest nd + 1 \<noteq> 0" by (metis nat.distinct(1) unat_0)
  then show ?thesis by (auto simp: next_height_def Let_def word_gt_0)
qed

text \<open>Without a cancellation the inner loop only ends in another round, or dies.\<close>

lemma index_loop_not_returned:
  assumes "\<forall>h. \<not> nd_cancel nd h"
  shows "index_loop E L MutHash B C nd h s \<noteq> Some (Returned s')"
proof
  assume out: "index_loop E L MutHash B C nd h s = Some (Returned s')"
  have "(\<forall>h. \<not> nd_cancel nd h) \<longrightarrow> (\<forall>t. Returned s' \<noteq> Returned t)"
    by (rule index_loop.raw_induct [where P = "\<lambda>E L MutHash B C nd h s out.
          (\<forall>h. \<not> nd_cancel nd h) \<longrightarrow> (\<forall>s'. out \<noteq> Returned s')", OF _ out])
      (auto split: if_splits sum.splits option.splits res.splits)
  then show False using assms by simp
qed

section \<open>Balances of a synced store\<close>

lemma synced_heights:
  assumes "synced E L MutHash C toks ch con n s" "heightIndexed s = Some i" "uint h \<le> i"
  shows "unat h < n"
proof -
  have "i < int n" using assms(1,2) by (auto simp: synced_def split: if_splits)
  moreover have "int (unat h) \<le> i" using assms(3) by simp
  ultimately have "int (unat h) < int n" by (rule le_less_trans [rotated])
  then show ?thesis by (simp only: of_nat_less_iff)
qed

lemma synced_balance:
  assumes "badger_ok B con" "env_ok E" "evm_ok L" "toks_ok toks"
    and "synced E L MutHash C toks ch con n s" "is_addr a" "is_addr c" "unat h < n"
    and "delta_at = (\<lambda>j. block_delta E (mb_transactions (stored_block E L toks ch (word_of_nat j))) c a)"
    and "\<forall>k\<le>unat h. 0 \<le> (\<Sum>j\<le>k. delta_at j)"
  shows "lookup_balance B (st_db s) (acct_prefix E a c) (acct_key E a c h) = Inr (\<Sum>j\<le>unat h. delta_at j)"
proof -
  let ?D = "diff_of E L toks ch a c"
  have val: "diff_val ?D j = delta_at j" if "j \<le> unat h" for j
  proof -
    have j: "unat (word_of_nat j :: u32) = j" using u32_nat_le [OF that] by blast
    let ?x = "data_at E L toks ch (word_of_nat j)"
    have "block_data E L toks (ch_block ch (word_of_nat j)) (ch_events ch (word_of_nat j)) = Ok (fst ?x, snd ?x)"
      using assms(5,8) that j by (simp add: synced_def)
    then have "diff_at (snd ?x) a c = block_delta E (fst ?x) c a"
      by (rule block_data_delta [OF assms(2-4) _ assms(6,7)])
    moreover have "diff_at (snd ?x) a c = diff_val ?D j"
      by (simp add: diff_val_def diff_of_def diff_at_def split: option.split)
    ultimately show ?thesis by (simp add: assms(9) stored_block_def)
  qed
  have sums: "(\<Sum>j\<le>k. diff_val ?D j) = (\<Sum>j\<le>k. delta_at j)" if "k \<le> unat h" for k
    using that val by (intro sum.cong) auto
  have "acct_hist E (con (st_db s)) a c = chain_hist ?D n" "acct_keys_ok E (con (st_db s))"
    using assms(5-7) by (simp_all add: synced_def)
  then show ?thesis
    using lookup_balance_latest [OF assms(1,2) _ assms(6,7), of "st_db s" h]
      latest_chain_hist_stable [OF assms(8)] latest_chain_hist [of "unat h" ?D] sums assms(10)
    by (simp del: chain_hist.simps)
qed

section \<open>Properties\<close>

text \<open>C1: the central property of the store. Start from an empty database and index, with any
  number of failed rounds, stops and restarts, from nodes that serve one chain, where no block
  is stored over a \<^verbatim>\<open>log.Fatalf\<close> that returned during an exit. Then for every account, contract and
  indexed height up to which these sums are never negative, the balance query returns the sum of
  what the stored transfers of the blocks up to that height make of the account.\<close>

theorem IndexBlocks_balances:
  assumes "badger_ok B con" "env_ok E" "evm_ok L" "codec_ok C" "chain_ok MutHash ch"
    and "\<forall>t\<in>set oep4. is_addr (tk_contract t)" "con d0 = Map.empty"
    and "NewStore E B (Inr d0) oep4 False current = Ok s0"
    and "(server_step E L MutHash B C (serves E L (make_tokens E oep4) ch) oep4)\<^sup>*\<^sup>* s0 s"
    and "is_addr a" "is_addr c" "heightIndexed s = Some i" "uint h \<le> i"
    and "delta_at = (\<lambda>j. block_delta E (mb_transactions (stored_block E L (make_tokens E oep4) ch (word_of_nat j))) c a)"
    and "\<forall>k\<le>unat h. 0 \<le> (\<Sum>j\<le>k. delta_at j)"
  shows "lookup_balance B (st_db s) (acct_prefix E a c) (acct_key E a c h) = Inr (\<Sum>j\<le>unat h. delta_at j)"
proof -
  have toks: "toks_ok (make_tokens E oep4)" using toks_ok_make_tokens assms(2,6) .
  obtain n where n: "synced E L MutHash C (make_tokens E oep4) ch con n s"
    using server_steps_synced [OF assms(1-3) toks assms(4,5,9) NewStore_synced [OF assms(1,7,8)]] by blast
  show ?thesis
    by (rule synced_balance [OF assms(1-3) toks n assms(10,11) synced_heights [OF n assms(12,13)] assms(14,15)])
qed

theorem IndexBlocks_balances_witness:
  "\<exists>s. (server_step env0 evm0 mut_hash0 mem_badger codec1 (serves env0 evm0 (make_tokens env0 []) chain0) [])\<^sup>*\<^sup>* store1 s \<and>
    lookup_balance mem_badger (st_db s) (acct_prefix env0 alice (ontAddr env0)) (acct_key env0 alice (ontAddr env0) 0) =
      Inr 7000000000"
proof (rule chain0_indexed)
  fix s
  assume s: "(server_step env0 evm0 mut_hash0 mem_badger codec1 (serves env0 evm0 (native_tokens env0) chain0) [])\<^sup>*\<^sup>* store1 s"
    "synced env0 evm0 mut_hash0 codec1 (native_tokens env0) chain0 map_of 1 s"
  have i: "heightIndexed s = Some 0" using s(2) by (simp add: synced_def)
  have "data_at env0 evm0 (native_tokens env0) chain0 0 = data0" by (simp add: data_at_def block_data0)
  then have "block_delta env0 (mb_transactions (stored_block env0 evm0 (native_tokens env0) chain0 0)) (ontAddr env0) alice = 7000000000"
    by (simp add: stored_block_def data0_def block_delta_def transfers_delta_def mdelta_def xfer0_def go_simps addr2slice_inj)
  then show ?thesis
    using IndexBlocks_balances [OF badger_ok_mem env_ok_env0 evm_ok_evm0 codec_ok_codec1 chain_ok_chain0 _ _
      store1_opened _ people_are_addr(1) native_addrs_is_addr(2) [OF env_ok_env0] i, where h = 0] s(1) by (intro exI [of _ s]) simp
qed

text \<open>C10: the same store, under the same proviso that no block is stored over a \<^verbatim>\<open>log.Fatalf\<close> that
  returned during an exit, serves every indexed block of the chain: by its height, with the hash,
  the timestamp and the transfers of that block; and every transaction of it, signed or not,
  is known by its unsigned hash.\<close>

theorem IndexBlocks_serves_chain:
  assumes "badger_ok B con" "env_ok E" "evm_ok L" "codec_ok C" "chain_ok MutHash ch"
    and "\<forall>t\<in>set oep4. is_addr (tk_contract t)" "con d0 = Map.empty"
    and "NewStore E B (Inr d0) oep4 False current = Ok s0"
    and "(server_step E L MutHash B C (serves E L (make_tokens E oep4) ch) oep4)\<^sup>*\<^sup>* s0 s"
    and "heightIndexed s = Some i" "uint h \<le> i"
  shows "getBlockInfoRaw E B C s (id_of_height h) True =
      Ok (info_of E h (sb_Hash (ch_block ch h)) (stored_block E L (make_tokens E oep4) ch h)) \<and>
    (\<forall>t\<in>set (sb_Transactions (ch_block ch h)). checkUnsignedTxHash B s (MutHash (unsigned_tx t)) = Ok True)"
proof -
  let ?toks = "make_tokens E oep4"
  have toks: "toks_ok ?toks" using toks_ok_make_tokens assms(2,6) .
  obtain n where n: "synced E L MutHash C ?toks ch con n s"
    using server_steps_synced [OF assms(1-3) toks assms(4,5,9) NewStore_synced [OF assms(1,7,8)]] by blast
  have h: "block_at C (con (st_db s)) h (sb_Hash (ch_block ch h)) (stored_block E L ?toks ch h)"
    "\<forall>t\<in>set (sb_Transactions (ch_block ch h)). con (st_db s) (txnHashKey (MutHash (unsigned_tx t))) = Some []"
    using n synced_heights [OF n assms(10,11)] unfolding synced_def by blast+
  show ?thesis
    using getBlockInfoRaw_height [OF assms(1) h(1)] h(2)
    by (auto simp: checkUnsignedTxHash_def badger_get [OF assms(1)])
qed

theorem IndexBlocks_serves_chain_witness:
  "\<exists>s. (server_step env0 evm0 mut_hash0 mem_badger codec1 (serves env0 evm0 (make_tokens env0 []) chain0) [])\<^sup>*\<^sup>* store1 s \<and>
    checkUnsignedTxHash mem_badger s (mut_hash0 (unsigned_tx tx0)) = Ok True"
proof (rule chain0_indexed)
  fix s
  assume s: "(server_step env0 evm0 mut_hash0 mem_badger codec1 (serves env0 evm0 (native_tokens env0) chain0) [])\<^sup>*\<^sup>* store1 s"
    "synced env0 evm0 mut_hash0 codec1 (native_tokens env0) chain0 map_of 1 s"
  have i: "heightIndexed s = Some 0" using s(2) by (simp add: synced_def)
  have "tx0 \<in> set (sb_Transactions (ch_block chain0 0))" by (simp add: chain0_def)
  then show ?thesis
    using IndexBlocks_serves_chain [OF badger_ok_mem env_ok_env0 evm_ok_evm0 codec_ok_codec1 chain_ok_chain0 _ _
      store1_opened _ i, where h = 0] s(1) by (intro exI [of _ s]) simp
qed

text \<open>C21: progress. One round against a node that serves its blocks, with a database that
  accepts them, indexes everything up to the node's latest height and reports itself synced.\<close>

theorem IndexBlocks_catches_up:
  assumes "badger_ok B con" "env_ok E" "evm_ok L" "toks_ok toks" "codec_ok C" "chain_ok MutHash ch"
    and "serves E L toks ch nd" "healthy E L B C toks ch nd"
    and "synced E L MutHash C toks ch con n s" "next_height s \<le> nd_latest nd"
  shows "\<exists>s'. index_round E L MutHash B C False nd s = Some (Again s') \<and>
    synced E L MutHash C toks ch con (Suc (unat (nd_latest nd))) s' \<and>
    syncStatus s' = Ok \<lparr>ss_current = Some (uint (nd_latest nd)), ss_synced = True, ss_target = Some (uint (nd_latest nd))\<rparr>"
proof -
  obtain s' where s': "index_loop E L MutHash B C nd (next_height s) s = Some (Again s')"
    "synced E L MutHash C toks ch con (Suc (unat (nd_latest nd))) s'" "heightSynced s' = Some (uint (nd_latest nd))"
    using index_loop_complete [OF assms(1-9) synced_next_height(1) [OF assms(9)] assms(10)] by blast
  moreover have "heightIndexed s' = Some (uint (nd_latest nd))"
    using s'(2) by (simp add: synced_def)
  moreover have "\<not> nd_cancel_round nd" using assms(8) by (simp add: healthy_def)
  ultimately show ?thesis by (simp add: index_round_def syncStatus_def)
qed

theorem IndexBlocks_catches_up_witness:
  "\<exists>s'. index_round env0 evm0 mut_hash0 mem_badger codec1 False node0 store1 = Some (Again s') \<and>
    syncStatus s' = Ok \<lparr>ss_current = Some 0, ss_synced = True, ss_target = Some 0\<rparr>"
proof -
  have toks: "toks_ok (native_tokens env0)" using toks_ok_make_tokens [of env0 "[]"] by simp
  have s1: "synced env0 evm0 mut_hash0 codec1 (native_tokens env0) chain0 map_of 0 store1"
    using NewStore_synced [OF badger_ok_mem _ store1_opened] by simp
  have next_h: "next_height store1 \<le> nd_latest node0" by (simp add: next_height_def getHeight_def store1_def)
  have latest: "nd_latest node0 = 0" by (simp add: node0_def)
  show ?thesis
    using IndexBlocks_catches_up [OF badger_ok_mem env_ok_env0 evm_ok_evm0 toks codec_ok_codec1 chain_ok_chain0
      serves_node0 healthy_node0 s1 next_h] by (auto simp: latest)
qed

text \<open>C36: early exit. A round that is asked to exit early and is not cancelled returns before
  indexing anything exactly when a positive indexed height has reached the latest height of
  the node: a chain that consists of its genesis block is indexed again and again instead.\<close>

theorem ExitEarly_condition:
  assumes "nd_latest nd < 4294967295" "\<not> nd_cancel_round nd" "\<forall>h. \<not> nd_cancel nd h"
    and "index_round E L MutHash B C True nd s = Some out"
  shows "(\<exists>s'. out = Returned s') \<longleftrightarrow> 0 < getHeight s \<and> getHeight s = nd_latest nd"
  using assms next_height_exit [OF assms(1), of s] index_loop_not_returned [OF assms(3), of E L MutHash B C "next_height s" s]
  by (auto simp: index_round_def split: if_splits)

theorem ExitEarly_condition_witness:
  "index_round env0 evm0 mut_hash0 mem_badger codec1 True (node0\<lparr>nd_latest := 3\<rparr>) (store1\<lparr>heightIndexed := Some 3\<rparr>) =
     Some (Returned (store1\<lparr>heightIndexed := Some 3\<rparr>)) \<and>
   getHeight (store1\<lparr>heightIndexed := Some 3\<rparr>) = 3"
proof -
  let ?nd = "node0\<lparr>nd_latest := 3\<rparr>" and ?s = "store1\<lparr>heightIndexed := Some 3\<rparr>"
  have round: "index_round env0 evm0 mut_hash0 mem_badger codec1 True ?nd ?s = Some (Returned ?s)"
    by (simp add: index_round_def next_height_def getHeight_def node0_def)
  have "nd_latest ?nd < 4294967295" "\<not> nd_cancel_round ?nd" "\<forall>h. \<not> nd_cancel ?nd h"
    by (simp_all add: node0_def)
  from ExitEarly_condition [OF this round] round show ?thesis by simp
qed

section \<open>A fatal error during an exit\<close>

text \<open>
  What the loop does with a block whose events cannot be read: without an exit under way nothing
  is stored, during one the block is, as a block of a chain that has no events.
\<close>

lemma events_error_block:
  assumes "index_block E L MutHash toks exiting h newest src (EvError err) ord = Ok state"
  shows "exiting" "bs_changes state = map (change_at E h) []" "bs_block state = bare_block src"
    "bs_id state = \<lparr>bid_byHeight = False, bid_hash = sb_Hash src, bid_height = h\<rparr>"
  using assms by (auto simp: index_block_def Let_def bare_block_def split: if_splits)

lemma bare_block_stored:
  assumes "badger_ok B con" "env_ok E" "acct_keys_ok E (con (st_db s))"
    and "index_block E L MutHash toks exiting h newest src (EvError err) ord = Ok state" "setBlock B C s state = Ok s'"
  obtains data where "MarshalBlock C (bare_block src) = Inr data"
    "con (st_db s') = block_contents E (con (st_db s)) [] state data" "con (st_db s') heightKey = Some (le_put32 h)"
proof -
  note bare = events_error_block [OF assms(4)]
  have none: "bs_changes state = map (change_at E (bid_height (bs_id state))) []" using bare by simp
  obtain data where m: "MarshalBlock C (bs_block state) = Inr data"
      "con (st_db s') = block_contents E (con (st_db s)) [] state data"
    using setBlock_effect [OF assms(1-3) diffs_ok_Nil none assms(5)] .
  then show thesis using that by (simp add: bare block_contents_keys)
qed

lemma next_height_NewStore:
  assumes "badger_ok B con" "con d heightKey = Some (le_put32 h)" "NewStore E B (Inr d) oep4 False current = Ok r"
  shows "st_db r = d" "0 < h \<Longrightarrow> next_height r = h + 1"
proof -
  have r: "st_db r = d \<and> heightIndexed r = Some (uint h)"
    using assms(2,3) by (auto simp: NewStore_def read_height_def badger_get [OF assms(1)] Let_def go_simps)
  then show "st_db r = d" by simp
  show "next_height r = h + 1" if "0 < h"
    using r that by (simp add: next_height_def getHeight_def)
qed


text \<open>The node that fails at height 1 of the example chain, during an exit.\<close>

definition node_exit :: node where
  "node_exit = node0\<lparr>nd_latest := 2, nd_events := (\<lambda>h. EvError ''failed''), nd_cancel := (\<lambda>h. h = 2),
     nd_exiting := (\<lambda>h. True)\<rparr>"


end
