(* ===== verification/Operations.thy ===== *)
theory Operations
  imports Sync
begin

text \<open>
  The read endpoints: operations of a stored transfer (\<^verbatim>\<open>appendOperations\<close>, \<^verbatim>\<open>transformTransaction\<close>),
  \<^verbatim>\<open>/block\<close> and \<^verbatim>\<open>/block/transaction\<close> of src/services/block_service.go, \<^verbatim>\<open>/account/balance\<close> of
  account_service.go and \<^verbatim>\<open>/network/status\<close> of network_service.go. The lemmas show that the
  operations of a block sum up to the balance changes the indexer stored for it.
\<close>

section \<open>Operations of a transfer\<close>

definition native_account :: "env \<Rightarrow> transferInfo \<Rightarrow> address \<Rightarrow> account_identifier" where
  "native_account E xfer a =
     \<lparr>ai_address = ToBase58 E a,
      ai_sub_account = (if \<not> ti_isNative E xfer then Some (ToHexString E (ti_contract xfer)) else None)\<rparr>"

definition appendOperations :: "env \<Rightarrow> operation list \<Rightarrow> transferInfo \<Rightarrow> bool \<Rightarrow> operation list" where
  "appendOperations E ops xfer setStatus =
     (let neg = - ti_amount xfer;
          status = (if setStatus then Some statusSuccess else None);
          related = (ti_from xfer \<noteq> nullAddr E);
          ops1 = (if ti_from xfer \<noteq> nullAddr E then
             ops @ [\<lparr>op_identifier = Some (int (length ops)), op_related = [],
               op_type = (if ti_to xfer = nullAddr E then opBurn
                          else if ti_isGas xfer then opGasFee else opTransfer),
               op_status = status, op_account = Some (native_account E xfer (ti_from xfer)),
               op_amount = Some \<lparr>am_value = big_string neg, am_currency = Some (ti_currency xfer)\<rparr>\<rparr>]
             else ops)
      in if ti_to xfer \<noteq> nullAddr E then
           ops1 @ [\<lparr>op_identifier = Some (int (length ops1)),
             op_related = (if related then [Some (int (length ops1) - 1)] else []),
             op_type = (if ti_from xfer = nullAddr E then opMint
                        else if ti_isGas xfer then opGasFee else opTransfer),
             op_status = status, op_account = Some (native_account E xfer (ti_to xfer)),
             op_amount = Some \<lparr>am_value = big_string (ti_amount xfer), am_currency = Some (ti_currency xfer)\<rparr>\<rparr>]
         else ops1)"

section \<open>Transactions and blocks\<close>

record rtransaction =
  rt_operations :: "operation list"
  rt_hash :: string

text \<open>The two error results of \<^verbatim>\<open>transformTransaction\<close>.\<close>

datatype tx_error = XErr xerror | GoErr go_error

fun transform_loop ::
  "env \<Rightarrow> 'db store \<Rightarrow> mtransfer list \<Rightarrow> operation list \<Rightarrow> (tx_error, operation list) res" where
  "transform_loop E s [] ops = Ok ops"
| "transform_loop E s (xfer # xfers) ops =
     (let amount = big_set_bytes (mx_amount xfer) in
      case slice2addr E (mx_contract xfer) of
        Err err \<Rightarrow> Err (GoErr (Errorf ''services: failed to decode contract address: %s'' [ArgErr err]))
      | Panic \<Rightarrow> Panic
      | Ok contract \<Rightarrow>
     (case getCurrencyInfo s contract of
        Err xerr \<Rightarrow> Err (XErr xerr)
      | Panic \<Rightarrow> Panic
      | Ok info \<Rightarrow>
     (case slice2addr E (mx_from xfer) of
        Err err \<Rightarrow> Err (GoErr (Errorf ''services: failed to decode \"from\" address: %s'' [ArgErr err]))
      | Panic \<Rightarrow> Panic
      | Ok from \<Rightarrow>
     (case slice2addr E (mx_to xfer) of
        Err err \<Rightarrow> Err (GoErr (Errorf ''services: failed to decode \"to\" address: %s'' [ArgErr err]))
      | Panic \<Rightarrow> Panic
      | Ok to \<Rightarrow>
          transform_loop E s xfers
            (appendOperations E ops
               \<lparr>ti_amount = amount, ti_contract = contract, ti_currency = ci_currency info,
                ti_from = from, ti_isGas = mx_is_gas xfer, ti_to = to\<rparr> True)))))"

definition transformTransaction :: "env \<Rightarrow> 'db store \<Rightarrow> mtransaction \<Rightarrow> (tx_error, rtransaction) res" where
  "transformTransaction E s txn =
     (case Uint256ParseFromBytes E (mt_hash txn) of
        Inl err \<Rightarrow> Err (GoErr (Errorf ''services: failed to decode txhash: %s'' [ArgErr (ExtError err)]))
      | Inr hash \<Rightarrow>
          bind_res (transform_loop E s (mt_transfers txn) []) (\<lambda>ops.
            Ok \<lparr>rt_operations = ops, rt_hash = Uint256ToHexString E hash\<rparr>))"

definition consistency :: "(tx_error, 'a) res \<Rightarrow> (xerror, 'a) res" where
  "consistency r =
     (case r of
        Ok a \<Rightarrow> Ok a
      | Err (XErr xerr) \<Rightarrow> Err xerr
      | Err (GoErr err) \<Rightarrow> Err (wrapErr errDatastoreConsistency err)
      | Panic \<Rightarrow> Panic)"

record rblock =
  rb_blockID :: block_identifier
  rb_parent :: block_identifier
  rb_timestamp :: int
  rb_transactions :: "rtransaction list"

definition Block ::
  "env \<Rightarrow> 'db badger \<Rightarrow> codec \<Rightarrow> bool \<Rightarrow> 'db store \<Rightarrow> partial_block_identifier option \<Rightarrow> (xerror, rblock) res" where
  "Block E B C offline s pid =
     (if offline then Err errOfflineMode
      else
        bind_res (getBlockInfo E B C s pid True) (\<lambda>info.
        bind_res
          (if info_height info > 0 then
             bind_res (getBlockInfoRaw E B C s (id_of_height (info_height info - 1)) False)
               (\<lambda>pinfo. Ok (info_blockID pinfo))
           else Ok (info_blockID info)) (\<lambda>parent.
        bind_res (map_res (\<lambda>src. consistency (transformTransaction E s src)) (mb_transactions (info_block info))) (\<lambda>txs.
        Ok \<lparr>rb_blockID = info_blockID info, rb_parent = parent, rb_timestamp = blockTimestamp info,
            rb_transactions = txs\<rparr>))))"

fun find_transaction :: "env \<Rightarrow> 'db store \<Rightarrow> hash256 \<Rightarrow> mtransaction list \<Rightarrow> (xerror, rtransaction) res" where
  "find_transaction E s hash [] = Err errInvalidTransactionHash"
| "find_transaction E s hash (src # srcs) =
     (if mt_hash src \<noteq> hash then find_transaction E s hash srcs
      else consistency (transformTransaction E s src))"

definition BlockTransaction ::
  "env \<Rightarrow> 'db badger \<Rightarrow> codec \<Rightarrow> bool \<Rightarrow> 'db store \<Rightarrow> block_identifier option \<Rightarrow> string option \<Rightarrow>
   (xerror, rtransaction) res" where
  "BlockTransaction E B C offline s bid txid =
     (if offline then Err errOfflineMode
      else
        (case txid of
           None \<Rightarrow> Err errInvalidTransactionHash
         | Some hs \<Rightarrow>
        (case Uint256FromHexString E hs of
           Inl err \<Rightarrow> Err errInvalidTransactionHash
         | Inr txhash \<Rightarrow>
        (case bid of
           None \<Rightarrow> Err errInvalidBlockIdentifier
         | Some b \<Rightarrow>
             bind_res (getBlockInfo E B C s (Some \<lparr>pbi_index = Some (bi_index b), pbi_hash = Some (bi_hash b)\<rparr>) True)
               (\<lambda>info. find_transaction E s txhash (mb_transactions (info_block info)))))))"

section \<open>Accounts and network\<close>

definition AccountBalance ::
  "env \<Rightarrow> 'db badger \<Rightarrow> codec \<Rightarrow> bool \<Rightarrow> 'db store \<Rightarrow> account_identifier option \<Rightarrow>
   partial_block_identifier option \<Rightarrow> currency option list \<Rightarrow> (xerror, balance_response) res" where
  "AccountBalance E B C offline s account pid currencies =
     (if offline then Err errOfflineMode
      else
        (case account of
           None \<Rightarrow> Err errInvalidAccountAddress
         | Some ident \<Rightarrow>
        (case AddressFromBase58 E (ai_address ident) of
           Inl err \<Rightarrow> Err errInvalidAccountAddress
         | Inr acct \<Rightarrow>
        (case ai_sub_account ident of
           None \<Rightarrow> getBalance E B C s pid acct currencies [ontAddr E, ongAddr E]
         | Some sub \<Rightarrow>
             (case AddressFromHexString E sub of
                Inl err \<Rightarrow> Err errInvalidContractAddress
              | Inr contract \<Rightarrow> getBalance E B C s pid acct currencies [contract])))))"

definition AccountCoins :: "bool \<Rightarrow> (xerror, unit) res" where
  "AccountCoins offline = (if offline then Err errOfflineMode else Err errNotImplemented)"

record options_response =
  no_errors :: "xerror list"
  no_historical :: bool
  no_statuses :: "(string \<times> bool) list"
  no_types :: "string list"

definition NetworkOptions :: "err_registry \<Rightarrow> options_response" where
  "NetworkOptions r =
     \<lparr>no_errors = serverErrors r, no_historical = True,
      no_statuses = [(statusSuccess, True), (statusFailed, False)], no_types = opTypes\<rparr>"

text \<open>
  The node's P2P server is an argument: \<open>Some peers\<close> answers its neighbours; \<open>None\<close> is the nil server
  that \<^verbatim>\<open>initP2PNode\<close> (src/main.go) returns for the consensus of a solo network, whose method
  \<^verbatim>\<open>GetNetwork\<close> reads a field of its receiver and so panics.
\<close>

record 'p status_response =
  ns_current :: block_identifier
  ns_timestamp :: int
  ns_genesis :: block_identifier
  ns_peers :: "'p list"
  ns_sync :: sync_status

definition NetworkStatus ::
  "env \<Rightarrow> 'db badger \<Rightarrow> codec \<Rightarrow> bool \<Rightarrow> 'db store \<Rightarrow> 'p list option \<Rightarrow> (xerror, 'p status_response) res" where
  "NetworkStatus E B C offline s node =
     (if offline then Err errOfflineMode
      else
        bind_res (getBlockInfoRaw E B C s (id_of_height (getHeight s)) True) (\<lambda>cur.
        bind_res (getBlockInfoRaw E B C s (id_of_height 0) False) (\<lambda>genesis.
        (case node of
           None \<Rightarrow> Panic
         | Some peers \<Rightarrow>
        (case syncStatus s of
           Ok st \<Rightarrow>
             Ok \<lparr>ns_current = info_blockID cur, ns_timestamp = blockTimestamp cur,
                 ns_genesis = info_blockID genesis, ns_peers = peers, ns_sync = st\<rparr>
         | _ \<Rightarrow> Panic)))))"

section \<open>What operations add up to\<close>

text \<open>The amount an operation moves on an account in the currency of a contract.\<close>

definition op_value :: "operation \<Rightarrow> int" where
  "op_value op =
     (case op_amount op of None \<Rightarrow> 0 | Some am \<Rightarrow> (case big_parse (am_value am) of None \<Rightarrow> 0 | Some v \<Rightarrow> v))"

definition account_of :: "env \<Rightarrow> address \<Rightarrow> address \<Rightarrow> account_identifier" where
  "account_of E c a =
     \<lparr>ai_address = ToBase58 E a,
      ai_sub_account = (if c = ongAddr E \<or> c = ontAddr E then None else Some (ToHexString E c))\<rparr>"

definition op_delta :: "env \<Rightarrow> (address \<rightharpoonup> currencyInfo) \<Rightarrow> address \<Rightarrow> address \<Rightarrow> operation \<Rightarrow> int" where
  "op_delta E toks c a op =
     (if op_account op = Some (account_of E c a) \<and>
         (\<exists>am. op_amount op = Some am \<and> am_currency am = Some (ci_currency (the (toks c))))
      then op_value op else 0)"

definition ops_delta :: "env \<Rightarrow> (address \<rightharpoonup> currencyInfo) \<Rightarrow> address \<Rightarrow> address \<Rightarrow> operation list \<Rightarrow> int" where
  "ops_delta E toks c a ops = sum_list (map (op_delta E toks c a) ops)"

definition info_delta :: "env \<Rightarrow> transferInfo \<Rightarrow> address \<Rightarrow> address \<Rightarrow> int" where
  "info_delta E x c a =
     (if a = nullAddr E \<or> ti_contract x \<noteq> c then 0
      else (if ti_to x = a then ti_amount x else 0) - (if ti_from x = a then ti_amount x else 0))"

lemma ToBase58_inj: "env_ok E \<Longrightarrow> is_addr a \<Longrightarrow> is_addr b \<Longrightarrow> ToBase58 E a = ToBase58 E b \<longleftrightarrow> a = b"
  by (metis addr_base58_roundtrip sum.inject(2))

lemma token_currency_inj:
  assumes "env_ok E" "token_ok E c info" "token_ok E d info'"
  shows "ci_currency info = ci_currency info' \<Longrightarrow> c = d"
  using assms by (auto simp: token_ok_def ToHexString_inj fun_upd_eqD dest!: arg_cong [of _ _ cur_metadata]
      map_upd_eqD1)

definition toks_wf :: "env \<Rightarrow> (address \<rightharpoonup> currencyInfo) \<Rightarrow> bool" where
  "toks_wf E toks \<longleftrightarrow> (\<forall>a info. toks a = Some info \<longrightarrow> token_ok E a info)"

lemma op_delta_new:
  assumes "env_ok E" "toks_wf E toks" "toks c = Some info" "toks (ti_contract x) = Some info'"
    and "ti_currency x = ci_currency info'" "is_addr a" "is_addr b"
    and "op_account op = Some (native_account E x b)"
    and "op_amount op = Some \<lparr>am_value = big_string v, am_currency = Some (ti_currency x)\<rparr>"
  shows "op_delta E toks c a op = (if a = b \<and> ti_contract x = c then v else 0)"
proof -
  have "ci_currency info' = ci_currency info \<longleftrightarrow> ti_contract x = c"
    using token_currency_inj [OF assms(1)] assms(2-4) by (metis option.inject toks_wf_def)
  moreover have "native_account E x b = account_of E (ti_contract x) b"
    by (simp add: native_account_def account_of_def ti_isNative_def)
  moreover have "account_of E c b = account_of E c a \<longleftrightarrow> b = a"
    using ToBase58_inj assms(1,6,7) by (simp add: account_of_def)
  ultimately show ?thesis
    using assms by (auto simp: op_delta_def op_value_def go_simps)
qed

lemma appendOperations_delta:
  assumes "env_ok E" "toks_wf E toks" "toks c = Some info" "toks (ti_contract x) = Some info'"
    and "ti_currency x = ci_currency info'" "is_addr a" "is_addr (ti_from x)" "is_addr (ti_to x)"
  shows "ops_delta E toks c a (appendOperations E ops x st) = ops_delta E toks c a ops + info_delta E x c a"
proof -
  have new: "op_delta E toks c a \<lparr>op_identifier = i, op_related = r, op_type = t, op_status = st,
      op_account = Some (native_account E x b),
      op_amount = Some \<lparr>am_value = big_string v, am_currency = Some (ti_currency x)\<rparr>\<rparr> =
      (if a = b \<and> ti_contract x = c then v else 0)" if "is_addr b" for i r t st b v
    by (rule op_delta_new [OF assms(1-6) that]) simp_all
  show ?thesis
    unfolding appendOperations_def Let_def ops_delta_def info_delta_def
    by (cases "ti_from x = nullAddr E"; cases "ti_to x = nullAddr E"; cases st)
      (simp_all add: new assms(7,8))
qed

section \<open>The stored transfers are well-formed\<close>

definition mtransfer_ok :: "env \<Rightarrow> (address \<rightharpoonup> currencyInfo) \<Rightarrow> mtransfer \<Rightarrow> bool" where
  "mtransfer_ok E toks t \<longleftrightarrow>
     (\<exists>c f r. is_addr c \<and> is_addr f \<and> is_addr r \<and> toks c \<noteq> None \<and> mx_contract t = addr2slice E c \<and>
        mx_from t = addr2slice E f \<and> mx_to t = addr2slice E r)"

lemma transform_loop_delta:
  assumes "env_ok E" "toks_wf E (tokens s)" "tokens s c = Some info" "is_addr a" "is_addr c"
  shows "\<forall>t\<in>set ts. mtransfer_ok E (tokens s) t \<Longrightarrow>
    \<exists>ops'. transform_loop E s ts ops = Ok ops' \<and>
      ops_delta E (tokens s) c a ops' = ops_delta E (tokens s) c a ops + transfers_delta E ts c a"
proof (induction ts arbitrary: ops)
  case (Cons t ts)
  then obtain c' f o' info' where t: "is_addr c'" "is_addr f" "is_addr o'" "tokens s c' = Some info'"
    "mx_contract t = addr2slice E c'" "mx_from t = addr2slice E f" "mx_to t = addr2slice E o'"
    by (auto simp: mtransfer_ok_def)
  let ?x = "\<lparr>ti_amount = big_set_bytes (mx_amount t), ti_contract = c', ti_currency = ci_currency info',
      ti_from = f, ti_isGas = mx_is_gas t, ti_to = o'\<rparr>"
  have "transform_loop E s (t # ts) ops = transform_loop E s ts (appendOperations E ops ?x True)"
    using t assms(1) by (simp add: getCurrencyInfo_def)
  moreover have "mdelta E t c a = info_delta E ?x c a"
    using t assms(1,4,5) by (simp add: mdelta_def info_delta_def addr2slice_inj)
  moreover have "ops_delta E (tokens s) c a (appendOperations E ops ?x True) =
      ops_delta E (tokens s) c a ops + info_delta E ?x c a"
    using t by (intro appendOperations_delta [OF assms(1-3) _ _ assms(4)]) simp_all
  moreover have "\<forall>t\<in>set ts. mtransfer_ok E (tokens s) t" using Cons.prems by simp
  ultimately show ?case
    using Cons.IH [of "appendOperations E ops ?x True"] by (auto simp: transfers_delta_def)
qed (simp add: transfers_delta_def)

lemma balanceCal_mtransfer_ok:
  "xfer_ok E x \<Longrightarrow> is_addr c \<Longrightarrow> toks c \<noteq> None \<Longrightarrow> mtransfer_ok E toks (fst (balanceCal E x c d))"
  by (auto simp: mtransfer_ok_def balanceCal_def Let_def xfer_ok_def)

lemma notify_loop_transfers_ok:
  assumes "env_ok E" "evm_ok L" "toks_ok toks"
  shows "notify_loop E L toks False payer info g evts ts d = Ok (ts', d') \<Longrightarrow>
    \<forall>t\<in>set ts. mtransfer_ok E toks t \<Longrightarrow> \<forall>t\<in>set ts'. mtransfer_ok E toks t"
proof (induction evts arbitrary: g ts d)
  case (Cons evt evts)
  then obtain r where r: "select_event E L toks False payer info g evt = Ok r" by (auto simp: res_simps)
  show ?case
  proof (cases r)
    case None
    then show ?thesis using Cons r by simp
  next
    case (Some gx)
    then obtain g' x where x: "r = Some (g', x)" by (cases gx) auto
    have ok: "xfer_ok E x" "is_addr (ev_contract evt)" "toks (ev_contract evt) \<noteq> None"
      using select_event_ok [OF assms(1,2)] r x assms(3) by (auto simp: toks_ok_def)
    show ?thesis
      using Cons.IH [of g' "ts @ [fst (balanceCal E x (ev_contract evt) d)]"] Cons.prems r x
        balanceCal_mtransfer_ok [where toks = toks and c = "ev_contract evt", OF ok]
      by (simp add: case_prod_beta)
  qed
qed simp

definition txs_wf :: "env \<Rightarrow> (address \<rightharpoonup> currencyInfo) \<Rightarrow> src_block \<Rightarrow> mtransaction list \<Rightarrow> bool" where
  "txs_wf E toks src txs \<longleftrightarrow>
     map mt_hash txs = map stx_Hash (sb_Transactions src) \<and>
     (\<forall>tx\<in>set txs. \<forall>t\<in>set (mt_transfers tx). mtransfer_ok E toks t)"

lemma txs_wf_new [simp]: "txs_wf E toks src (new_transactions src)"
  by (auto simp: txs_wf_def new_transactions_def)

lemma events_loop_wf:
  assumes "env_ok E" "evm_ok L" "toks_ok toks"
  shows "events_loop E L toks False src infos txs d = Ok (txs', d') \<Longrightarrow> txs_wf E toks src txs \<Longrightarrow> txs_wf E toks src txs'"
proof (induction infos arbitrary: txs d)
  case (Cons info infos)
  let ?o = "offset_of src (en_tx_hash info)"
  obtain ts d1 where *: "?o < length (sb_Transactions src)"
    "notify_loop E L toks False (mut_Payer (sb_Transactions src ! ?o)) info False (en_notify info)
       (mt_transfers (txs ! ?o)) d = Ok (ts, d1)"
    "events_loop E L toks False src infos
       (txs[?o := (txs ! ?o)\<lparr>mt_failed := en_failed info, mt_transfers := ts\<rparr>]) d1 = Ok (txs', d')"
    using Cons.prems by (auto simp: Let_def res_simps split: if_splits)
  have len: "?o < length txs" using *(1) Cons.prems(2) by (metis length_map txs_wf_def)
  have "\<forall>t\<in>set (mt_transfers (txs ! ?o)). mtransfer_ok E toks t"
    using Cons.prems(2) nth_mem [OF len] unfolding txs_wf_def by blast
  then have "\<forall>t\<in>set ts. mtransfer_ok E toks t" by (rule notify_loop_transfers_ok [OF assms *(2)])
  moreover have "map mt_hash (txs[?o := (txs ! ?o)\<lparr>mt_failed := en_failed info, mt_transfers := ts\<rparr>]) = map mt_hash txs"
    using len by (simp add: map_update list_update_same_conv)
  ultimately have "txs_wf E toks src (txs[?o := (txs ! ?o)\<lparr>mt_failed := en_failed info, mt_transfers := ts\<rparr>])"
    using Cons.prems(2) by (auto simp: txs_wf_def dest!: set_update_subset_insert [THEN subsetD])
  then show ?case using Cons.IH *(3) by blast
qed simp

lemma block_data_wf:
  assumes "env_ok E" "evm_ok L" "toks_ok toks" "block_data E L toks src evts = Ok (txs, d)"
  shows "txs_wf E toks src txs"
  using assms(4) events_loop_wf [OF assms(1-3)]
  by (auto simp: data_defs split: events_result.splits option.splits)

section \<open>Stored blocks are served\<close>

lemma transform_loop_Ok:
  assumes "env_ok E"
  shows "\<forall>t\<in>set ts. mtransfer_ok E (tokens s) t \<Longrightarrow> \<exists>ops'. transform_loop E s ts ops = Ok ops'"
proof (induction ts arbitrary: ops)
  case (Cons t ts)
  then obtain c' f r info' where "is_addr c'" "is_addr f" "is_addr r" "tokens s c' = Some info'"
    "mx_contract t = addr2slice E c'" "mx_from t = addr2slice E f" "mx_to t = addr2slice E r"
    by (auto simp: mtransfer_ok_def)
  then show ?case using Cons assms by (simp add: getCurrencyInfo_def)
qed simp

lemma transformTransaction_stored:
  assumes "env_ok E" "toks_wf E (tokens s)" "is_hash (mt_hash tx)"
    and "\<forall>t\<in>set (mt_transfers tx). mtransfer_ok E (tokens s) t"
  obtains r where "transformTransaction E s tx = Ok r" "rt_hash r = Uint256ToHexString E (mt_hash tx)"
    "\<And>a c info. tokens s c = Some info \<Longrightarrow> is_addr a \<Longrightarrow>
       ops_delta E (tokens s) c a (rt_operations r) = transfers_delta E (mt_transfers tx) c a"
proof -
  obtain ops where ops: "transform_loop E s (mt_transfers tx) [] = Ok ops"
    using transform_loop_Ok [OF assms(1,4)] by blast
  have delta: "ops_delta E (tokens s) c a ops = transfers_delta E (mt_transfers tx) c a"
    if "tokens s c = Some info" "is_addr a" for a c info
  proof -
    have "is_addr c" using assms(2) that(1) by (auto simp: toks_wf_def token_ok_def)
    then show ?thesis
      using transform_loop_delta [OF assms(1,2) that(1,2) _ assms(4), of "[]"] ops by (simp add: ops_delta_def)
  qed
  show thesis
    by (rule that [of "\<lparr>rt_operations = ops, rt_hash = Uint256ToHexString E (mt_hash tx)\<rparr>"])
      (use ops assms(1,3) delta in \<open>simp_all add: transformTransaction_def\<close>)
qed

text \<open>The sum of the operations of a whole block.\<close>

definition rblock_delta :: "env \<Rightarrow> (address \<rightharpoonup> currencyInfo) \<Rightarrow> address \<Rightarrow> address \<Rightarrow> rtransaction list \<Rightarrow> int" where
  "rblock_delta E toks c a rs = sum_list (map (\<lambda>r. ops_delta E toks c a (rt_operations r)) rs)"

lemma transform_block:
  assumes "env_ok E" "toks_wf E (tokens s)" "\<forall>tx\<in>set txs. is_hash (mt_hash tx)"
    and "\<forall>tx\<in>set txs. \<forall>t\<in>set (mt_transfers tx). mtransfer_ok E (tokens s) t"
  obtains rs where "map_res (\<lambda>src. consistency (transformTransaction E s src)) txs = Ok rs"
    "map rt_hash rs = map (\<lambda>tx. Uint256ToHexString E (mt_hash tx)) txs"
    "\<And>a c info. tokens s c = Some info \<Longrightarrow> is_addr a \<Longrightarrow>
       rblock_delta E (tokens s) c a rs = block_delta E txs c a"
  using assms(3,4)
proof (induction txs arbitrary: thesis)
  case Nil
  show ?case by (rule Nil.prems(1) [of "[]"]) (simp_all add: rblock_delta_def block_delta_def)
next
  case (Cons tx txs)
  obtain rs where rs: "map_res (\<lambda>src. consistency (transformTransaction E s src)) txs = Ok rs"
    "map rt_hash rs = map (\<lambda>tx. Uint256ToHexString E (mt_hash tx)) txs"
    "\<And>a c info. tokens s c = Some info \<Longrightarrow> is_addr a \<Longrightarrow>
       rblock_delta E (tokens s) c a rs = block_delta E txs c a"
    using Cons.IH Cons.prems(2,3) by auto
  have tx: "is_hash (mt_hash tx)" "\<forall>t\<in>set (mt_transfers tx). mtransfer_ok E (tokens s) t"
    using Cons.prems(2,3) by simp_all
  obtain r where r: "transformTransaction E s tx = Ok r" "rt_hash r = Uint256ToHexString E (mt_hash tx)"
    "\<And>a c info. tokens s c = Some info \<Longrightarrow> is_addr a \<Longrightarrow>
       ops_delta E (tokens s) c a (rt_operations r) = transfers_delta E (mt_transfers tx) c a"
    by (rule transformTransaction_stored [OF assms(1,2) tx]) blast
  show ?case
    by (rule Cons.prems(1) [of "r # rs"])
      (use rs r in \<open>simp_all add: consistency_def rblock_delta_def block_delta_def\<close>)
qed

lemma toks_wf_make_tokens: "env_ok E \<Longrightarrow> \<forall>t\<in>set oep4. is_addr (tk_contract t) \<Longrightarrow> toks_wf E (make_tokens E oep4)"
  using make_tokens_ok by (simp add: toks_wf_def)

text \<open>The node's transaction hashes are 32 bytes.\<close>

definition tx_hashes_ok :: "chain \<Rightarrow> bool" where
  "tx_hashes_ok ch \<longleftrightarrow> (\<forall>h. \<forall>t\<in>set (sb_Transactions (ch_block ch h)). is_hash (stx_Hash t))"

lemma synced_transforms:
  assumes "env_ok E" "evm_ok L" "\<forall>t\<in>set oep4. is_addr (tk_contract t)" "tx_hashes_ok ch"
    and "synced E L MutHash C (make_tokens E oep4) ch con n s" "unat h < n"
  obtains rs where
    "map_res (\<lambda>src. consistency (transformTransaction E s src))
       (mb_transactions (stored_block E L (make_tokens E oep4) ch h)) = Ok rs"
    "map rt_hash rs = map (\<lambda>t. Uint256ToHexString E (stx_Hash t)) (sb_Transactions (ch_block ch h))"
    "\<And>a c info. make_tokens E oep4 c = Some info \<Longrightarrow> is_addr a \<Longrightarrow>
       rblock_delta E (make_tokens E oep4) c a rs =
         block_delta E (mb_transactions (stored_block E L (make_tokens E oep4) ch h)) c a"
proof -
  let ?toks = "make_tokens E oep4" and ?txs = "mb_transactions (stored_block E L (make_tokens E oep4) ch h)"
  have s: "tokens s = ?toks" "block_data E L ?toks (ch_block ch h) (ch_events ch h) = Ok (data_at E L ?toks ch h)"
    using assms(5,6) unfolding synced_def by blast+
  have wf: "txs_wf E ?toks (ch_block ch h) ?txs"
    using block_data_wf [OF assms(1,2) toks_ok_make_tokens [OF assms(1,3)], of _ _ ?txs "snd (data_at E L ?toks ch h)"] s(2)
    by (simp add: stored_block_def)
  then have hashes: "map mt_hash ?txs = map stx_Hash (sb_Transactions (ch_block ch h))" by (simp add: txs_wf_def)
  have "is_hash x" if "x \<in> set (map mt_hash ?txs)" for x
    using that assms(4) unfolding hashes by (auto simp: tx_hashes_ok_def)
  then have txs: "\<forall>tx\<in>set ?txs. is_hash (mt_hash tx)"
    "\<forall>tx\<in>set ?txs. \<forall>t\<in>set (mt_transfers tx). mtransfer_ok E (tokens s) t"
    using wf s(1) by (auto simp: txs_wf_def)
  have "toks_wf E (tokens s)" using toks_wf_make_tokens [OF assms(1,3)] s(1) by simp
  from transform_block [OF assms(1) this txs] obtain rs where
    rs: "map_res (\<lambda>src. consistency (transformTransaction E s src)) ?txs = Ok rs"
    "map rt_hash rs = map (\<lambda>tx. Uint256ToHexString E (mt_hash tx)) ?txs"
    "\<And>a c info. ?toks c = Some info \<Longrightarrow> is_addr a \<Longrightarrow> rblock_delta E ?toks c a rs = block_delta E ?txs c a"
    unfolding s(1) by blast
  have "map (\<lambda>tx. Uint256ToHexString E (mt_hash tx)) ?txs = map (Uint256ToHexString E) (map mt_hash ?txs)" by simp
  then have "map rt_hash rs = map (\<lambda>t. Uint256ToHexString E (stx_Hash t)) (sb_Transactions (ch_block ch h))"
    unfolding hashes using rs(2) by simp
  with rs show thesis by (intro that)
qed

section \<open>Requests on a synced store\<close>

lemma getBlockID_forms:
  assumes "env_ok E" "getBlockID E s pid True = Ok ident"
  shows "(\<exists>h. ident = id_of_height h) \<or> (\<exists>x. is_hash x \<and> ident = empty_id\<lparr>bid_hash := x\<rparr>) \<or>
    (\<exists>h x. is_hash x \<and> ident = (id_of_height h)\<lparr>bid_hash := x\<rparr>)"
proof (cases "no_block_selected pid")
  case True
  then show ?thesis using assms(2) by (auto simp: getBlockID_def)
next
  case False
  then obtain p where p: "pid = Some p" "\<not> (pbi_hash p = None \<and> pbi_index p = None)"
    by (auto simp: no_block_selected_def split: option.splits)
  have hex: "Uint256FromHexString E hs = Inr x \<Longrightarrow> is_hash x" for hs x
    using hash_hex_iff [OF assms(1)] by blast
  have ids: "empty_id\<lparr>bid_byHeight := True, bid_height := h\<rparr> = id_of_height h"
    "empty_id\<lparr>bid_hash := x, bid_byHeight := True, bid_height := h\<rparr> = (id_of_height h)\<lparr>bid_hash := x\<rparr>" for h x
    by (simp_all add: id_of_height_def empty_id_def)
  show ?thesis
  proof (cases "pbi_hash p")
    case None
    then obtain idx where "pbi_index p = Some idx" using p by auto
    then have "ident = id_of_height (word_of_int idx)"
      using assms(2) False None p(1) by (simp add: getBlockID_def ids split: if_splits)
    then show ?thesis by blast
  next
    case (Some hs)
    then obtain x where x: "Uint256FromHexString E hs = Inr x"
      using assms(2) False p(1) by (cases "Uint256FromHexString E hs") (simp_all add: getBlockID_def)
    show ?thesis
    proof (cases "pbi_index p")
      case None
      then have "ident = empty_id\<lparr>bid_hash := x\<rparr>" using assms(2) False Some p(1) x by (simp add: getBlockID_def)
      then show ?thesis using hex [OF x] by blast
    next
      case (Some idx)
      then have "ident = (id_of_height (word_of_int idx))\<lparr>bid_hash := x\<rparr>"
        using assms(2) False \<open>pbi_hash p = Some hs\<close> p(1) x by (simp add: getBlockID_def ids split: if_splits)
      then show ?thesis using hex [OF x] by blast
    qed
  qed
qed

lemma getBlockID_no_panic: "getBlockID E s pid nullable \<noteq> Panic"
  by (auto simp: getBlockID_def res_simps split: option.splits if_splits sum.splits)

text \<open>A request on a synced store fails or yields an indexed block of the chain.\<close>

lemma raw_synced:
  assumes "badger_ok B con" "chain_ok MutHash ch" "synced E L MutHash C toks ch con n s"
  shows "getBlockInfoRaw E B C s (id_of_height h) w =
      (if unat h < n then Ok (info_of E h (sb_Hash (ch_block ch h)) (if w then stored_block E L toks ch h else empty_block))
       else Err errUnknownBlockIndex)"
    and "is_hash x \<Longrightarrow> getBlockInfoRaw E B C s (empty_id\<lparr>bid_hash := x\<rparr>) w = Err errUnknownBlockHash \<or>
      (\<exists>h. unat h < n \<and> getBlockInfoRaw E B C s (empty_id\<lparr>bid_hash := x\<rparr>) w =
        Ok (info_of E h (sb_Hash (ch_block ch h)) (if w then stored_block E L toks ch h else empty_block)))"
    and "is_hash x \<Longrightarrow> unat h < n \<Longrightarrow> getBlockInfoRaw E B C s ((id_of_height h)\<lparr>bid_hash := x\<rparr>) w = Err errInvalidBlockIdentifier \<or>
      getBlockInfoRaw E B C s ((id_of_height h)\<lparr>bid_hash := x\<rparr>) w =
        Ok (info_of E h (sb_Hash (ch_block ch h)) (if w then stored_block E L toks ch h else empty_block))"
proof -
  have stored: "block_at C (con (st_db s)) h (sb_Hash (ch_block ch h)) (stored_block E L toks ch h)" if "unat h < n" for h
    using assms(3) that unfolding synced_def by blast
  have none: "con (st_db s) (blockHeight2HashKey h) = None" if "\<not> unat h < n" for h
    using assms(3) that unfolding synced_def by (meson not_less)
  show "getBlockInfoRaw E B C s (id_of_height h) w =
      (if unat h < n then Ok (info_of E h (sb_Hash (ch_block ch h)) (if w then stored_block E L toks ch h else empty_block))
       else Err errUnknownBlockIndex)"
    using getBlockInfoRaw_height [OF assms(1) stored] getBlockInfoRaw_unknown [OF assms(1) none] by auto
  show "getBlockInfoRaw E B C s (empty_id\<lparr>bid_hash := x\<rparr>) w = Err errUnknownBlockHash \<or>
      (\<exists>h. unat h < n \<and> getBlockInfoRaw E B C s (empty_id\<lparr>bid_hash := x\<rparr>) w =
        Ok (info_of E h (sb_Hash (ch_block ch h)) (if w then stored_block E L toks ch h else empty_block)))" if "is_hash x"
  proof (cases "\<exists>h. unat h < n \<and> x = sb_Hash (ch_block ch h)")
    case True
    then show ?thesis using getBlockInfoRaw_hash [OF assms(1) stored] by blast
  next
    case False
    then have "con (st_db s) (blockHash2HeightKey x) = None"
      using assms(3) that unfolding synced_def by blast
    then show ?thesis
      by (simp add: getBlockInfoRaw_def resolve_block_id_def empty_id_def badger_get [OF assms(1)] finish_view_def)
  qed
  show "getBlockInfoRaw E B C s ((id_of_height h)\<lparr>bid_hash := x\<rparr>) w = Err errInvalidBlockIdentifier \<or>
      getBlockInfoRaw E B C s ((id_of_height h)\<lparr>bid_hash := x\<rparr>) w =
        Ok (info_of E h (sb_Hash (ch_block ch h)) (if w then stored_block E L toks ch h else empty_block))"
    if "is_hash x" "unat h < n"
    using getBlockInfoRaw_both [OF assms(1) stored [OF that(2)] that(1)] by simp
qed

lemma unknown_height_both:
  assumes "badger_ok B con" "con (st_db s) (blockHeight2HashKey h) = None"
  shows "getBlockInfoRaw E B C s ((id_of_height h)\<lparr>bid_hash := x\<rparr>) w = Err errUnknownBlockIndex"
  using assms by (simp add: getBlockInfoRaw_def resolve_block_id_def id_of_height_def empty_id_def
      badger_get finish_view_def)

lemma getBlockInfo_synced:
  assumes "badger_ok B con" "env_ok E" "chain_ok MutHash ch" "synced E L MutHash C toks ch con n s"
  shows "(\<exists>e. getBlockInfo E B C s pid w = Err e) \<or>
    (\<exists>h. unat h < n \<and> getBlockInfo E B C s pid w =
      Ok (info_of E h (sb_Hash (ch_block ch h)) (if w then stored_block E L toks ch h else empty_block)))"
proof (cases "getBlockID E s pid True")
  case (Ok ident)
  note raw = raw_synced [OF assms(1,3,4)]
  have both: "(\<exists>e. getBlockInfoRaw E B C s ((id_of_height h)\<lparr>bid_hash := x\<rparr>) w = Err e) \<or>
      (unat h < n \<and> getBlockInfoRaw E B C s ((id_of_height h)\<lparr>bid_hash := x\<rparr>) w =
        Ok (info_of E h (sb_Hash (ch_block ch h)) (if w then stored_block E L toks ch h else empty_block)))"
    if "is_hash x" for h x
  proof (cases "unat h < n")
    case False
    then have "con (st_db s) (blockHeight2HashKey h) = None" using assms(4) unfolding synced_def by (meson not_less)
    then show ?thesis using unknown_height_both [OF assms(1)] by simp
  qed (use raw(3) that in blast)
  have "(\<exists>e. getBlockInfoRaw E B C s ident w = Err e) \<or>
    (\<exists>h. unat h < n \<and> getBlockInfoRaw E B C s ident w =
      Ok (info_of E h (sb_Hash (ch_block ch h)) (if w then stored_block E L toks ch h else empty_block)))"
    using getBlockID_forms [OF assms(2) Ok] raw(1,2) both by metis
  then show ?thesis using Ok by (simp add: getBlockInfo_def)
qed (auto simp: getBlockInfo_def getBlockID_no_panic)

lemma transform_loop_no_panic: "transform_loop E s ts ops \<noteq> Panic"
proof (induction ts arbitrary: ops)
  case (Cons t ts)
  have "slice2addr E x \<noteq> Panic" "getCurrencyInfo s c \<noteq> Panic" for x c
    by (auto simp: slice2addr_def getCurrencyInfo_def split: if_splits sum.splits option.splits)
  then show ?case by (simp add: Let_def Cons split: res.split)
qed simp

lemma transformTransaction_no_panic: "consistency (transformTransaction E s tx) \<noteq> Panic"
  by (auto simp: consistency_def transformTransaction_def res_simps transform_loop_no_panic
      split: sum.splits res.splits tx_error.splits)

lemma map_res_no_panic: "(\<And>x. f x \<noteq> Panic) \<Longrightarrow> map_res f xs \<noteq> Panic"
  by (induction xs) (auto simp: res_simps)

lemma validateCurrency_no_panic: "validateCurrency E s c \<noteq> Panic"
  by (auto simp: validateCurrency_def split: option.splits jval.splits sum.splits if_splits)

lemma balance_loop_no_panic: "balance_loop E B s info acct filtered flt cs bs \<noteq> Panic"
proof (induction cs arbitrary: filtered bs)
  case (Cons c cs)
  have "getCurrencyInfo s c \<noteq> Panic" by (simp add: getCurrencyInfo_def split: option.split)
  then show ?case by (auto simp: res_simps Let_def Cons split: if_splits sum.splits)
qed simp

lemma getBalance_no_panic:
  assumes "getBlockInfo E B C s pid False \<noteq> Panic"
  shows "getBalance E B C s pid acct currencies contracts \<noteq> Panic"
  using assms map_res_no_panic [of "validateCurrency E s" currencies] validateCurrency_no_panic [of E s]
  by (auto simp: getBalance_def res_simps balance_filter_eq balance_loop_no_panic)

lemma find_transaction_no_panic: "find_transaction E s h txs \<noteq> Panic"
  by (induction txs) (auto simp: transformTransaction_no_panic)

text \<open>The endpoints panic only where the lookup of a block does.\<close>

lemma endpoints_no_panic:
  assumes info: "\<And>p w. getBlockInfo E B C s p w \<noteq> Panic" and raw: "\<And>h w. getBlockInfoRaw E B C s (id_of_height h) w \<noteq> Panic"
  shows "Block E B C offline s pid \<noteq> Panic" "BlockTransaction E B C offline s bid txid \<noteq> Panic"
    "AccountBalance E B C offline s account pid currencies \<noteq> Panic"
proof -
  show "Block E B C offline s pid \<noteq> Panic"
    using info raw map_res_no_panic [of "\<lambda>src. consistency (transformTransaction E s src)"]
      transformTransaction_no_panic [of E s]
    by (auto simp: Block_def res_simps split: if_splits)
  show "BlockTransaction E B C offline s bid txid \<noteq> Panic"
    using info find_transaction_no_panic [of E s] by (auto simp: BlockTransaction_def res_simps split: option.splits sum.splits)
  show "AccountBalance E B C offline s account pid currencies \<noteq> Panic"
    using getBalance_no_panic [OF info] by (auto simp: AccountBalance_def split: option.splits sum.splits)
qed

text \<open>The served block of a height, with its parent.\<close>

lemma Block_synced:
  assumes "badger_ok B con" "env_ok E" "evm_ok L" "chain_ok MutHash ch" "tx_hashes_ok ch"
    and "\<forall>t\<in>set oep4. is_addr (tk_contract t)"
    and "synced E L MutHash C (make_tokens E oep4) ch con n s" "unat h < n"
  obtains rs where
    "Block E B C False s (Some \<lparr>pbi_index = Some (uint h), pbi_hash = None\<rparr>) =
      Ok \<lparr>rb_blockID = \<lparr>bi_index = uint h, bi_hash = Uint256ToHexString E (sb_Hash (ch_block ch h))\<rparr>,
          rb_parent = (let p = if h > 0 then h - 1 else h in
            \<lparr>bi_index = uint p, bi_hash = Uint256ToHexString E (sb_Hash (ch_block ch p))\<rparr>),
          rb_timestamp = uint (sb_Timestamp (ch_block ch h)) * 1000, rb_transactions = rs\<rparr>"
    "map rt_hash rs = map (\<lambda>t. Uint256ToHexString E (stx_Hash t)) (sb_Transactions (ch_block ch h))"
    "\<And>a c info. make_tokens E oep4 c = Some info \<Longrightarrow> is_addr a \<Longrightarrow>
       rblock_delta E (make_tokens E oep4) c a rs =
         block_delta E (mb_transactions (stored_block E L (make_tokens E oep4) ch h)) c a"
proof -
  let ?toks = "make_tokens E oep4"
  note raw = raw_synced(1) [OF assms(1,4,7)]
  from synced_transforms [OF assms(2,3,6,5,7,8)] obtain rs where
    rs: "map_res (\<lambda>src. consistency (transformTransaction E s src)) (mb_transactions (stored_block E L ?toks ch h)) = Ok rs"
    "map rt_hash rs = map (\<lambda>t. Uint256ToHexString E (stx_Hash t)) (sb_Transactions (ch_block ch h))"
    "\<And>a c info. ?toks c = Some info \<Longrightarrow> is_addr a \<Longrightarrow>
       rblock_delta E ?toks c a rs = block_delta E (mb_transactions (stored_block E L ?toks ch h)) c a"
    by blast
  have "\<not> uint h < 0" "\<not> 4294967295 < uint h" "empty_id\<lparr>bid_byHeight := True, bid_height := h\<rparr> = id_of_height h"
    using unsigned_less [where ?'a = int, of h] by (simp_all add: id_of_height_def empty_id_def)
  then have ident: "getBlockID E s (Some \<lparr>pbi_index = Some (uint h), pbi_hash = None\<rparr>) True = Ok (id_of_height h)"
    by (simp add: getBlockID_def no_block_selected_def)
  have "n \<noteq> 0" using assms(8) by auto
  then have "\<not> getHeight s < h"
    using synced_next_height(2) [OF assms(7)] assms(8) by (simp add: word_less_nat_alt)
  then have info: "getBlockInfo E B C s (Some \<lparr>pbi_index = Some (uint h), pbi_hash = None\<rparr>) True =
      Ok (info_of E h (sb_Hash (ch_block ch h)) (stored_block E L ?toks ch h))"
    using ident raw [of h True] assms(8) by (simp add: getBlockInfo_def) (simp add: id_of_height_def)
  have parent: "getBlockInfoRaw E B C s (id_of_height (h - 1)) False =
      Ok (info_of E (h - 1) (sb_Hash (ch_block ch (h - 1))) empty_block)" if "h > 0"
  proof -
    have "unat (h - 1) < n" using that assms(8) by (simp add: unat_minus_one word_gt_0)
    then show ?thesis using raw [of "h - 1" False] by simp
  qed
  have "Block E B C False s (Some \<lparr>pbi_index = Some (uint h), pbi_hash = None\<rparr>) =
      Ok \<lparr>rb_blockID = \<lparr>bi_index = uint h, bi_hash = Uint256ToHexString E (sb_Hash (ch_block ch h))\<rparr>,
          rb_parent = (let p = if h > 0 then h - 1 else h in
            \<lparr>bi_index = uint p, bi_hash = Uint256ToHexString E (sb_Hash (ch_block ch p))\<rparr>),
          rb_timestamp = uint (sb_Timestamp (ch_block ch h)) * 1000, rb_transactions = rs\<rparr>"
    using rs(1) parent
    by (cases "h > 0") (simp_all add: Block_def Let_def info info_of_def blockTimestamp_def stored_block_def)
  with rs(2,3) show thesis by (intro that)
qed

section \<open>Properties\<close>

text \<open>C4: reconciliation. On every store the indexer can reach without storing a block over a
  \<^verbatim>\<open>log.Fatalf\<close> that returned during an exit, take an indexed height, an account and a registered
  currency such that the transfers of the blocks up to this height never add up to a negative
  number. Then \<^verbatim>\<open>/block\<close> answers with the block of the chain, its parent and its transactions in
  order, and the operations of the block add up to the difference between the stored balance
  looked up at its height and the one looked up at the height before.\<close>

theorem Block_reconciles:
  assumes "badger_ok B con" "env_ok E" "evm_ok L" "codec_ok C" "chain_ok MutHash ch" "tx_hashes_ok ch"
    and "\<forall>t\<in>set oep4. is_addr (tk_contract t)" "con d0 = Map.empty"
    and "NewStore E B (Inr d0) oep4 False current = Ok s0"
    and "(server_step E L MutHash B C (serves E L (make_tokens E oep4) ch) oep4)\<^sup>*\<^sup>* s0 s"
    and "heightIndexed s = Some i" "uint h \<le> i" "is_addr a" "make_tokens E oep4 c = Some info"
    and "\<forall>k\<le>unat h. 0 \<le> (\<Sum>j\<le>k. block_delta E
           (mb_transactions (stored_block E L (make_tokens E oep4) ch (word_of_nat j))) c a)"
  shows "\<exists>blk before after.
    Block E B C False s (Some \<lparr>pbi_index = Some (uint h), pbi_hash = None\<rparr>) = Ok blk \<and>
    rb_blockID blk = \<lparr>bi_index = uint h, bi_hash = Uint256ToHexString E (sb_Hash (ch_block ch h))\<rparr> \<and>
    bi_index (rb_parent blk) = max 0 (uint h - 1) \<and>
    map rt_hash (rb_transactions blk) = map (\<lambda>t. Uint256ToHexString E (stx_Hash t)) (sb_Transactions (ch_block ch h)) \<and>
    lookup_balance B (st_db s) (acct_prefix E a c) (acct_key E a c h) = Inr after \<and>
    (if h = 0 then before = 0
     else lookup_balance B (st_db s) (acct_prefix E a c) (acct_key E a c (h - 1)) = Inr before) \<and>
    after = before + rblock_delta E (make_tokens E oep4) c a (rb_transactions blk)"
proof -
  let ?toks = "make_tokens E oep4"
  let ?d = "\<lambda>j. block_delta E (mb_transactions (stored_block E L ?toks ch (word_of_nat j))) c a"
  have toks: "toks_ok ?toks" using toks_ok_make_tokens assms(2,7) .
  obtain n where n: "synced E L MutHash C ?toks ch con n s"
    using server_steps_synced [OF assms(1-3) toks assms(4,5,10) NewStore_synced [OF assms(1,8,9)]] by blast
  have hn: "unat h < n" using synced_heights [OF n assms(11,12)] .
  have c: "is_addr c" using toks assms(14) by (simp add: toks_ok_def)
  have at: "lookup_balance B (st_db s) (acct_prefix E a c) (acct_key E a c h) = Inr (\<Sum>j\<le>unat h. ?d j)"
    by (rule synced_balance [OF assms(1-3) toks n assms(13) c hn refl]) (use assms(15) in simp)
  have before: "lookup_balance B (st_db s) (acct_prefix E a c) (acct_key E a c (h - 1)) = Inr (\<Sum>j\<le>unat (h - 1). ?d j)"
    and Suc: "unat h = Suc (unat (h - 1))" if "h \<noteq> 0"
  proof -
    have m: "unat (h - 1) = unat h - 1" "unat h \<noteq> 0" using that by (simp_all add: unat_minus_one unat_eq_zero)
    then show "unat h = Suc (unat (h - 1))" by simp
    show "lookup_balance B (st_db s) (acct_prefix E a c) (acct_key E a c (h - 1)) = Inr (\<Sum>j\<le>unat (h - 1). ?d j)"
      by (rule synced_balance [OF assms(1-3) toks n assms(13) c _ refl]) (use m hn assms(15) in auto)
  qed
  have h: "word_of_nat (unat h) = h" by simp
  obtain rs where rs:
    "Block E B C False s (Some \<lparr>pbi_index = Some (uint h), pbi_hash = None\<rparr>) =
      Ok \<lparr>rb_blockID = \<lparr>bi_index = uint h, bi_hash = Uint256ToHexString E (sb_Hash (ch_block ch h))\<rparr>,
          rb_parent = (let p = if h > 0 then h - 1 else h in
            \<lparr>bi_index = uint p, bi_hash = Uint256ToHexString E (sb_Hash (ch_block ch p))\<rparr>),
          rb_timestamp = uint (sb_Timestamp (ch_block ch h)) * 1000, rb_transactions = rs\<rparr>"
    "map rt_hash rs = map (\<lambda>t. Uint256ToHexString E (stx_Hash t)) (sb_Transactions (ch_block ch h))"
    "rblock_delta E ?toks c a rs = ?d (unat h)"
    using Block_synced [OF assms(1-3,5,6,7) n hn] assms(13,14) h by metis
  show ?thesis
  proof (cases "h = 0")
    case True
    then show ?thesis using rs at by (simp add: Let_def)
  next
    case False
    have "uint (h - 1) = uint h - 1"
      using uint_minus_simple_alt [of 1 h] False by (simp add: word_le_nat_alt word_gt_0 Suc [OF False])
    moreover from this have "max 0 (uint h - 1) = uint h - 1"
      by (metis max.absorb2 uint_ge_0)
    ultimately show ?thesis using rs at before [OF False] Suc [OF False] False by (simp add: Let_def word_gt_0)
  qed
qed

lemma tx_hashes_ok_chain0: "tx_hashes_ok chain0"
  by (simp add: tx_hashes_ok_def chain0_def tx0_def is_hash_def)

theorem Block_reconciles_witness:
  "\<exists>s blk before. (server_step env0 evm0 mut_hash0 mem_badger codec1 (serves env0 evm0 (make_tokens env0 []) chain0) [])\<^sup>*\<^sup>* store1 s \<and>
    Block env0 mem_badger codec1 False s (Some \<lparr>pbi_index = Some 0, pbi_hash = None\<rparr>) = Ok blk \<and>
    lookup_balance mem_badger (st_db s) (acct_prefix env0 alice (ontAddr env0)) (acct_key env0 alice (ontAddr env0) 0) =
      Inr (rblock_delta env0 (make_tokens env0 []) (ontAddr env0) alice (rb_transactions blk))"
proof (rule chain0_indexed)
  fix s
  assume s: "(server_step env0 evm0 mut_hash0 mem_badger codec1 (serves env0 evm0 (native_tokens env0) chain0) [])\<^sup>*\<^sup>* store1 s"
    "synced env0 evm0 mut_hash0 codec1 (native_tokens env0) chain0 map_of 1 s"
  have i: "heightIndexed s = Some 0" using s(2) by (simp add: synced_def)
  have "data_at env0 evm0 (native_tokens env0) chain0 0 = data0" by (simp add: data_at_def block_data0)
  then have "0 \<le> block_delta env0 (mb_transactions (stored_block env0 evm0 (native_tokens env0) chain0 0)) (ontAddr env0) alice"
    by (simp add: stored_block_def data0_def block_delta_def transfers_delta_def mdelta_def xfer0_def go_simps addr2slice_inj)
  moreover have "make_tokens env0 [] (ontAddr env0) \<noteq> None"
    by (simp add: make_tokens_def native_tokens_def)
  ultimately show ?thesis
    using Block_reconciles [OF badger_ok_mem env_ok_env0 evm_ok_evm0 codec_ok_codec1 chain_ok_chain0 tx_hashes_ok_chain0 _ _
      store1_opened _ i _ people_are_addr(1), where h = 0] s(1) by fastforce
qed

text \<open>C24: panics of the data endpoints, for a request that runs alone on a store the indexer reaches
  (in rounds that \<open>serves\<close> admits).
  Whatever block, account, currency or transaction a client asks for, the answer of \<^verbatim>\<open>/block\<close>,
  \<^verbatim>\<open>/block/transaction\<close> and \<^verbatim>\<open>/account/balance\<close> is a result or an error of the API. \<^verbatim>\<open>/network/status\<close>
  panics exactly when there is an indexed block and no P2P server (a solo network), online.\<close>

theorem requests_panic_condition:
  assumes "badger_ok B con" "env_ok E" "evm_ok L" "codec_ok C" "chain_ok MutHash ch"
    and "\<forall>t\<in>set oep4. is_addr (tk_contract t)" "con d0 = Map.empty"
    and "NewStore E B (Inr d0) oep4 False current = Ok s0"
    and "(server_step E L MutHash B C (serves E L (make_tokens E oep4) ch) oep4)\<^sup>*\<^sup>* s0 s"
  shows "Block E B C offline s pid \<noteq> Panic \<and> BlockTransaction E B C offline s bid txid \<noteq> Panic \<and>
    AccountBalance E B C offline s account pid currencies \<noteq> Panic \<and>
    (NetworkStatus E B C offline s node = Panic \<longleftrightarrow> \<not> offline \<and> heightIndexed s \<noteq> None \<and> node = None)"
proof -
  let ?toks = "make_tokens E oep4"
  have toks: "toks_ok ?toks" using toks_ok_make_tokens assms(2,6) .
  obtain n where n: "synced E L MutHash C ?toks ch con n s"
    using server_steps_synced [OF assms(1-3) toks assms(4,5,9) NewStore_synced [OF assms(1,7,8)]] by blast
  have info: "getBlockInfo E B C s p w \<noteq> Panic" for p w
    using getBlockInfo_synced [OF assms(1,2,5) n, of p w] by auto
  have raw: "getBlockInfoRaw E B C s (id_of_height h) w \<noteq> Panic" for h w
    using raw_synced(1) [OF assms(1,5) n, of h w] by simp
  note data = endpoints_no_panic [where s = s, OF info raw]
  have "NetworkStatus E B C offline s node = Panic \<longleftrightarrow> \<not> offline \<and> heightIndexed s \<noteq> None \<and> node = None"
  proof (cases "n = 0")
    case True
    then have "getBlockInfoRaw E B C s (id_of_height (getHeight s)) True = Err errUnknownBlockIndex"
      using raw_synced(1) [OF assms(1,5) n] by simp
    moreover have "heightIndexed s = None" using n True by (simp add: synced_def)
    ultimately show ?thesis by (simp add: NetworkStatus_def)
  next
    case False
    then have h: "heightIndexed s \<noteq> None" "unat (getHeight s) < n" "unat (0 :: u32) < n"
      using n synced_next_height(2) [OF n] by (simp_all add: synced_def)
    then obtain cur genesis where "getBlockInfoRaw E B C s (id_of_height (getHeight s)) True = Ok cur"
      "getBlockInfoRaw E B C s (id_of_height 0) False = Ok genesis"
      using raw_synced(1) [OF assms(1,5) n] by simp
    then show ?thesis using h(1) by (auto simp: NetworkStatus_def syncStatus_def split: option.splits)
  qed
  with data show ?thesis by blast
qed

theorem requests_panic_condition_witness:
  "\<exists>s. (server_step env0 evm0 mut_hash0 mem_badger codec1 (serves env0 evm0 (make_tokens env0 []) chain0) [])\<^sup>*\<^sup>* store1 s \<and>
    NetworkStatus env0 mem_badger codec1 False s (Some [''peer'']) \<noteq> Panic \<and>
    NetworkStatus env0 mem_badger codec1 False s (None :: string list option) = Panic"
proof (rule chain0_indexed)
  fix s
  assume s: "(server_step env0 evm0 mut_hash0 mem_badger codec1 (serves env0 evm0 (native_tokens env0) chain0) [])\<^sup>*\<^sup>* store1 s"
    and n: "synced env0 evm0 mut_hash0 codec1 (native_tokens env0) chain0 map_of 1 s"
  have "heightIndexed s \<noteq> None" using n by (simp add: synced_def)
  then show ?thesis
    using s requests_panic_condition [OF badger_ok_mem env_ok_env0 evm_ok_evm0 codec_ok_codec1 chain_ok_chain0 _ _ store1_opened,
        of s False None None None None Nil "Some [''peer'']"]
      requests_panic_condition [OF badger_ok_mem env_ok_env0 evm_ok_evm0 codec_ok_codec1 chain_ok_chain0 _ _ store1_opened,
        of s False None None None None Nil "None :: string list option"] by (intro exI [of _ s]) simp
qed

section \<open>Well-typed operations\<close>

text \<open>
  The operation at a position of a transaction's list, as a client may rely on it: its identifier
  is its position, it is related to nothing or to the operation before it, its type is a
  registered one, its status is success, and it moves a decimal amount of a registered
  currency on an account, with a sub-account exactly for currencies that are not native.
\<close>

definition op_typed :: "env \<Rightarrow> (address \<rightharpoonup> currencyInfo) \<Rightarrow> nat \<Rightarrow> operation \<Rightarrow> bool" where
  "op_typed E toks i op \<longleftrightarrow>
     op_identifier op = Some (int i) \<and> (op_related op = [] \<or> 0 < i \<and> op_related op = [Some (int i - 1)]) \<and>
     op_type op \<in> set opTypes \<and> op_status op = Some statusSuccess \<and>
     (\<exists>c info a v. toks c = Some info \<and> is_addr a \<and> op_account op = Some (account_of E c a) \<and>
        op_amount op = Some \<lparr>am_value = big_string v, am_currency = Some (ci_currency info)\<rparr>)"

definition ops_typed :: "env \<Rightarrow> (address \<rightharpoonup> currencyInfo) \<Rightarrow> operation list \<Rightarrow> bool" where
  "ops_typed E toks ops \<longleftrightarrow> (\<forall>i<length ops. op_typed E toks i (ops ! i))"

lemma ops_typed_snoc:
  "ops_typed E toks (ops @ [op]) \<longleftrightarrow> ops_typed E toks ops \<and> op_typed E toks (length ops) op"
  by (auto simp: ops_typed_def nth_append less_Suc_eq)

lemma ops_typed_snoc2:
  "ops_typed E toks (ops @ [op, op']) \<longleftrightarrow>
   ops_typed E toks ops \<and> op_typed E toks (length ops) op \<and> op_typed E toks (Suc (length ops)) op'"
  using ops_typed_snoc [of E toks "ops @ [op]" op'] by (simp add: ops_typed_snoc)

lemma native_account_of: "native_account E x a = account_of E (ti_contract x) a"
  by (simp add: native_account_def account_of_def ti_isNative_def)

text \<open>Adding the operations of one more transfer keeps the list typed.\<close>

lemma appendOperations_typed:
  assumes "ops_typed E toks ops" "toks (ti_contract x) = Some info" "ti_currency x = ci_currency info"
    and "is_addr (ti_from x)" "is_addr (ti_to x)"
  shows "ops_typed E toks (appendOperations E ops x True)"
proof -
  have new: "op_typed E toks i \<lparr>op_identifier = Some (int i), op_related = r, op_type = t, op_status = Some statusSuccess,
      op_account = Some (native_account E x a), op_amount = Some \<lparr>am_value = big_string v, am_currency = Some (ti_currency x)\<rparr>\<rparr>"
    if "is_addr a" "t \<in> set opTypes" "r = [] \<or> 0 < i \<and> r = [Some (int i - 1)]" for i r t a v
    using that assms(2,3) by (auto simp: op_typed_def native_account_of)
  show ?thesis
    using assms(1,4,5) new [where i = "length ops"] new [where i = "Suc (length ops)"]
    by (simp add: appendOperations_def Let_def opTypes_def ops_typed_snoc ops_typed_snoc2)
qed

lemma transform_loop_typed:
  assumes "env_ok E"
  shows "transform_loop E s xs ops = Ok ops' \<Longrightarrow> ops_typed E (tokens s) ops \<Longrightarrow> ops_typed E (tokens s) ops'"
proof (induction xs arbitrary: ops)
  case (Cons x xs)
  then obtain c info f t where r: "slice2addr E (mx_from x) = Ok f" "slice2addr E (mx_to x) = Ok t" "tokens s c = Some info"
    "transform_loop E s xs (appendOperations E ops
       \<lparr>ti_amount = big_set_bytes (mx_amount x), ti_contract = c, ti_currency = ci_currency info, ti_from = f,
        ti_isGas = mx_is_gas x, ti_to = t\<rparr> True) = Ok ops'"
    by (auto simp: getCurrencyInfo_def Let_def split: res.splits option.splits)
  show ?case
    by (rule Cons.IH [OF r(4)], rule appendOperations_typed [OF Cons.prems(2)])
      (use r slice2addr_is_addr [OF assms] in simp_all)
qed simp

text \<open>C25: the operations of a transaction in a block are well-typed, whatever transfers the store
  holds: consecutive identifiers from 0, relations only to the operation right before, types
  and statuses that the network options declare, decimal amounts of registered currencies.\<close>

theorem transformTransaction_typed:
  assumes "env_ok E" "transformTransaction E s tx = Ok r"
  shows "ops_typed E (tokens s) (rt_operations r) \<and>
    set (map op_type (rt_operations r)) \<subseteq> set (no_types (NetworkOptions reg)) \<and>
    (\<forall>op\<in>set (rt_operations r). \<exists>status. op_status op = Some status \<and> (status, True) \<in> set (no_statuses (NetworkOptions reg)))"
proof -
  have typed: "ops_typed E (tokens s) (rt_operations r)"
    using assms transform_loop_typed [OF assms(1), of s _ "[]"]
    by (auto simp: transformTransaction_def res_simps ops_typed_def split: sum.splits)
  then have "\<forall>op\<in>set (rt_operations r). op_type op \<in> set opTypes \<and> op_status op = Some statusSuccess"
    by (auto simp: ops_typed_def op_typed_def in_set_conv_nth)
  with typed show ?thesis by (auto simp: NetworkOptions_def)
qed

theorem transformTransaction_typed_witness:
  "\<exists>r. transformTransaction env0 store1 \<lparr>mt_failed = False, mt_hash = replicate 32 8, mt_transfers = [xfer0]\<rparr> = Ok r \<and>
     rt_operations r \<noteq> [] \<and> ops_typed env0 (tokens store1) (rt_operations r)"
proof -
  let ?t = "\<lparr>mt_failed = False, mt_hash = replicate 32 8, mt_transfers = [xfer0]\<rparr>"
  have "\<exists>r. transformTransaction env0 store1 ?t = Ok r \<and> rt_operations r \<noteq> []"
    by (simp add: transformTransaction_def is_hash_def xfer0_def getCurrencyInfo_def store1_def native_tokens_def
        appendOperations_def Let_def)
  then show ?thesis using transformTransaction_typed [OF env_ok_env0, of store1 ?t] by blast
qed

end
