(* ===== verification/Payload.thy ===== *)
theory Payload
  imports Model
begin

text \<open>
  Reading the transfers out of a transaction's payload (src/chain/payload.go). The NeoVM that
  runs the code and the conversions of its values are an external package: the record \<open>neovm\<close>,
  whose fields are the methods the code calls. The relation \<open>call_denotes\<close> says which
  invocations mean which transfers; \<open>ParsePayload\<close> answers exactly those.
\<close>

section \<open>The virtual machine\<close>

text \<open>
  \<^verbatim>\<open>Execute\<close> returns nil, the error for an opcode that needs the node, or another error.
\<close>

datatype vm_result = VmHalt | VmNotSupported | VmFailed string

text \<open>
  What the code looks at after \<^verbatim>\<open>Execute\<close>: its error, the current context's code, reader position
  and reader (\<open>ex_read n\<close> is \<^verbatim>\<open>ReadBytesInto\<close> a buffer of \<open>n\<close> bytes), and the evaluation stack.
\<close>

record 's executor =
  ex_result :: vm_result
  ex_code :: bytes
  ex_position :: u64
  ex_read :: "nat \<Rightarrow> string + bytes"
  ex_stack :: 's

text \<open>A popping method returns the value and the stack left, or an error.\<close>

record ('v, 's) neovm =
  vm_execute :: "bytes \<Rightarrow> 's executor"
  APPCALL :: byte
  SYSCALL :: byte
  PopAsBytes :: "'s \<Rightarrow> string + bytes \<times> 's"
  PopAsArray :: "'s \<Rightarrow> string + 'v list \<times> 's"
  PopAsStruct :: "'s \<Rightarrow> string + 'v list \<times> 's"
  AsBytes :: "'v \<Rightarrow> string + bytes"
  AsBigInt :: "'v \<Rightarrow> string + int"
  AsArrayValue :: "'v \<Rightarrow> string + 'v list"
  AsStructValue :: "'v \<Rightarrow> string + 'v list"

definition nilAddr :: address where
  "nilAddr = replicate 20 0"

record payload_transfer =
  px_Payer :: address
  px_From :: address
  px_To :: address
  px_Amount :: int

text \<open>A library's error under a message of the code.\<close>

definition wrap_lib :: "string \<Rightarrow> string + 'a \<Rightarrow> (go_error, 'a) res" where
  "wrap_lib msg r = (case r of Inl e \<Rightarrow> Err (Errorf msg [ArgErr (ExtError e)]) | Inr a \<Rightarrow> Ok a)"

text \<open>\<^verbatim>\<open>xs[i]\<close>, with Go's bounds check; \<^verbatim>\<open>string(b)\<close> as a list of characters.\<close>

definition index :: "'a list \<Rightarrow> nat \<Rightarrow> ('e, 'a) res" where
  "index xs i = (if i < length xs then Ok (xs ! i) else Panic)"

definition go_string :: "bytes \<Rightarrow> string" where
  "go_string bs = map (\<lambda>b. char_of (unat b)) bs"

section \<open>Fields of a transfer\<close>

definition parseTransferFields ::
  "('v, 's) neovm \<Rightarrow> env \<Rightarrow> 'v list \<Rightarrow> (go_error, payload_transfer) res" where
  "parseTransferFields V E data =
     bind_res (index data 0) (\<lambda>v0.
     bind_res (wrap_lib ''chain: invalid from field: %s'' (AsBytes V v0)) (\<lambda>raw.
     bind_res (wrap_lib ''chain: unable to parse from field: %s'' (AddressParseFromBytes E raw)) (\<lambda>from.
     bind_res (index data 1) (\<lambda>v1.
     bind_res (wrap_lib ''chain: invalid to field: %s'' (AsBytes V v1)) (\<lambda>raw.
     bind_res (wrap_lib ''chain: unable to parse to field: %s'' (AddressParseFromBytes E raw)) (\<lambda>to.
     bind_res (index data 2) (\<lambda>v2.
     bind_res (wrap_lib ''chain: invalid amount field: %s'' (AsBigInt V v2)) (\<lambda>amount.
     Ok \<lparr>px_Payer = nilAddr, px_From = from, px_To = to, px_Amount = amount\<rparr>))))))))"

text \<open>\<^verbatim>\<open>data[1:]\<close> of a slice that the first access showed to be non-empty.\<close>

definition parseTransferFromFields ::
  "('v, 's) neovm \<Rightarrow> env \<Rightarrow> 'v list \<Rightarrow> (go_error, payload_transfer) res" where
  "parseTransferFromFields V E data =
     bind_res (index data 0) (\<lambda>v0.
     bind_res (wrap_lib ''chain: invalid payer field: %s'' (AsBytes V v0)) (\<lambda>raw.
     bind_res (wrap_lib ''chain: unable to parse payer field: %s'' (AddressParseFromBytes E raw)) (\<lambda>payer.
     bind_res (parseTransferFields V E (drop 1 data)) (\<lambda>xfer.
     Ok (xfer\<lparr>px_Payer := payer\<rparr>)))))"

definition parseTransfer ::
  "('v, 's) neovm \<Rightarrow> env \<Rightarrow> 'v \<Rightarrow> (go_error, payload_transfer) res" where
  "parseTransfer V E data =
     bind_res (wrap_lib ''chain: invalid transfer struct: %s'' (AsStructValue V data)) (\<lambda>fields.
     if length fields \<noteq> 3
     then Err (Errorf ''chain: unexpected transfer struct field length: %d'' [ArgInt (int (length fields))])
     else parseTransferFields V E fields)"

definition parseTransfers ::
  "('v, 's) neovm \<Rightarrow> env \<Rightarrow> 'v list \<Rightarrow> (go_error, payload_transfer list) res" where
  "parseTransfers V E params = map_res (parseTransfer V E) params"

section \<open>The two call opcodes\<close>

definition parseAppTransferMulti ::
  "('v, 's) neovm \<Rightarrow> env \<Rightarrow> 'v list \<Rightarrow> (go_error, payload_transfer list) res" where
  "parseAppTransferMulti V E params =
     bind_res (index params 0) (\<lambda>v0.
     bind_res (wrap_lib ''chain: failed to get transferMulti internal params: %s'' (AsArrayValue V v0)) (\<lambda>xs.
     parseTransfers V E xs))"

text \<open>The contract follows the opcode; a null contract is read from the stack.\<close>

definition app_contract ::
  "('v, 's) neovm \<Rightarrow> env \<Rightarrow> 's executor \<Rightarrow> (go_error, address \<times> 's) res" where
  "app_contract V E e =
     bind_res (wrap_lib ''chain: failed to read contract address: %s'' (ex_read e 20)) (\<lambda>contract.
     if contract = nilAddr then
       bind_res (wrap_lib ''chain: failed to get contract address: %s'' (PopAsBytes V (ex_stack e))) (\<lambda>(raw, s).
       bind_res (wrap_lib ''chain: unable to parse contract address: %s'' (AddressParseFromBytes E raw)) (\<lambda>c.
       Ok (c, s)))
     else Ok (contract, ex_stack e))"

text \<open>The \<^verbatim>\<open>switch\<close> on the method.\<close>

definition app_method ::
  "('v, 's) neovm \<Rightarrow> env \<Rightarrow> address \<Rightarrow> bytes \<Rightarrow> 'v list \<Rightarrow> (go_error, payload_transfer list \<times> address) res" where
  "app_method V E contract meth params =
     (if go_string meth = ''transfer'' then
        (if length params \<noteq> 3
         then Err (Errorf ''chain: unexpected transfer params length: %d'' [ArgInt (int (length params))])
         else bind_res (parseTransferFields V E params) (\<lambda>xfer. Ok ([xfer], contract)))
      else if go_string meth = ''transferFrom'' then
        (if length params \<noteq> 4
         then Err (Errorf ''chain: unexpected transferFrom params length: %d'' [ArgInt (int (length params))])
         else bind_res (parseTransferFromFields V E params) (\<lambda>xfer. Ok ([xfer], contract)))
      else if go_string meth = ''transferMulti'' then
        (if length params \<noteq> 1
         then Err (Errorf ''chain: unexpected transferMulti params length: %d'' [ArgInt (int (length params))])
         else bind_res (parseAppTransferMulti V E params) (\<lambda>xfers. Ok (xfers, contract)))
      else Err (Errorf ''chain: unknown method: %s'' [ArgBytes meth]))"

definition parseApp ::
  "('v, 's) neovm \<Rightarrow> env \<Rightarrow> 's executor \<Rightarrow> (go_error, payload_transfer list \<times> address) res" where
  "parseApp V E e =
     bind_res (app_contract V E e) (\<lambda>(contract, s).
     bind_res (wrap_lib ''chain: failed to get method: %s'' (PopAsBytes V s)) (\<lambda>(meth, s).
     bind_res (wrap_lib ''chain: failed to get contract params: %s'' (PopAsArray V s)) (\<lambda>(params, s).
     app_method V E contract meth params)))"

definition parseSysTransfers ::
  "('v, 's) neovm \<Rightarrow> env \<Rightarrow> 's \<Rightarrow> (go_error, payload_transfer list) res" where
  "parseSysTransfers V E s =
     bind_res (wrap_lib ''chain: failed to get contract params: %s'' (PopAsArray V s)) (\<lambda>(xs, s).
     parseTransfers V E xs)"

definition parseSysTransferFrom ::
  "('v, 's) neovm \<Rightarrow> env \<Rightarrow> 's \<Rightarrow> (go_error, payload_transfer) res" where
  "parseSysTransferFrom V E s =
     bind_res (wrap_lib ''chain: failed to get contract params: %s'' (PopAsStruct V s)) (\<lambda>(xs, s).
     if length xs \<noteq> 4
     then Err (Errorf ''chain: unexpected transferFrom params length: %d'' [ArgInt (int (length xs))])
     else parseTransferFromFields V E xs)"

definition sys_method ::
  "('v, 's) neovm \<Rightarrow> env \<Rightarrow> address \<Rightarrow> bytes \<Rightarrow> 's \<Rightarrow> (go_error, payload_transfer list \<times> address) res" where
  "sys_method V E contract meth s =
     (if go_string meth = ''transfer'' \<or> go_string meth = ''transferV2'' then
        bind_res (parseSysTransfers V E s) (\<lambda>xfers. Ok (xfers, contract))
      else if go_string meth = ''transferFrom'' \<or> go_string meth = ''transferFromV2'' then
        bind_res (parseSysTransferFrom V E s) (\<lambda>xfer. Ok ([xfer], contract))
      else Err (Errorf ''chain: unknown method: %s'' [ArgBytes meth]))"

definition parseSys ::
  "('v, 's) neovm \<Rightarrow> env \<Rightarrow> 's \<Rightarrow> (go_error, payload_transfer list \<times> address) res" where
  "parseSys V E s =
     bind_res (wrap_lib ''chain: invalid params: %s'' (PopAsBytes V s)) (\<lambda>(version, s).
     bind_res (wrap_lib ''chain: failed to get contract address: %s'' (PopAsBytes V s)) (\<lambda>(raw, s).
     bind_res (wrap_lib ''chain: unable to parse contract address: %s'' (AddressParseFromBytes E raw)) (\<lambda>contract.
     bind_res (wrap_lib ''chain: failed to get method: %s'' (PopAsBytes V s)) (\<lambda>(meth, s).
     sys_method V E contract meth s))))"

text \<open>The position is unsigned, so position 0 reads far outside the code.\<close>

definition ParsePayload ::
  "('v, 's) neovm \<Rightarrow> env \<Rightarrow> bytes \<Rightarrow> (go_error, payload_transfer list \<times> address) res" where
  "ParsePayload V E code =
     (let e = vm_execute V code in
      case ex_result e of
        VmNotSupported \<Rightarrow>
          bind_res (index (ex_code e) (unat (ex_position e - 1))) (\<lambda>opcode.
            if opcode = APPCALL V then parseApp V E e
            else if opcode = SYSCALL V then parseSys V E (ex_stack e)
            else Err (Errorf ''chain: unexpected opcode: %v'' [ArgInt (uint opcode)]))
      | VmHalt \<Rightarrow> Err (Errorf ''chain: failed to parse payload: %s'' [])
      | VmFailed msg \<Rightarrow> Err (Errorf ''chain: failed to parse payload: %s'' [ArgErr (ExtError msg)]))"

section \<open>Which invocations denote which transfers\<close>

text \<open>A field that holds an address, and three fields that describe a transfer.\<close>

definition addr_field :: "('v, 's) neovm \<Rightarrow> 'v \<Rightarrow> address \<Rightarrow> bool" where
  "addr_field V v a \<longleftrightarrow> AsBytes V v = Inr a \<and> is_addr a"

definition fields_denote :: "('v, 's) neovm \<Rightarrow> 'v list \<Rightarrow> payload_transfer \<Rightarrow> bool" where
  "fields_denote V fs x \<longleftrightarrow>
     (\<exists>f t n. fs = [f, t, n] \<and> addr_field V f (px_From x) \<and> addr_field V t (px_To x) \<and>
        AsBigInt V n = Inr (px_Amount x))"

definition from_fields_denote :: "('v, 's) neovm \<Rightarrow> 'v list \<Rightarrow> payload_transfer \<Rightarrow> bool" where
  "from_fields_denote V fs x \<longleftrightarrow>
     (\<exists>p fs'. fs = p # fs' \<and> addr_field V p (px_Payer x) \<and> fields_denote V fs' x)"

definition struct_denotes :: "('v, 's) neovm \<Rightarrow> 'v \<Rightarrow> payload_transfer \<Rightarrow> bool" where
  "struct_denotes V v x \<longleftrightarrow>
     px_Payer x = nilAddr \<and> (\<exists>fs. AsStructValue V v = Inr fs \<and> fields_denote V fs x)"

text \<open>The contract of an application call and the stack below it.\<close>

inductive app_target :: "('v, 's) neovm \<Rightarrow> 's executor \<Rightarrow> address \<Rightarrow> 's \<Rightarrow> bool" where
  inline: "ex_read e 20 = Inr c \<Longrightarrow> c \<noteq> nilAddr \<Longrightarrow> app_target V e c (ex_stack e)"
| dynamic: "ex_read e 20 = Inr nilAddr \<Longrightarrow> PopAsBytes V (ex_stack e) = Inr (c, s) \<Longrightarrow> is_addr c \<Longrightarrow>
    app_target V e c s"

inductive app_denotes :: "('v, 's) neovm \<Rightarrow> string \<Rightarrow> 'v list \<Rightarrow> payload_transfer list \<Rightarrow> bool" where
  transfer: "fields_denote V params x \<Longrightarrow> px_Payer x = nilAddr \<Longrightarrow> app_denotes V ''transfer'' params [x]"
| transferFrom: "from_fields_denote V params x \<Longrightarrow> app_denotes V ''transferFrom'' params [x]"
| transferMulti: "AsArrayValue V v = Inr vs \<Longrightarrow> list_all2 (struct_denotes V) vs xs \<Longrightarrow>
    app_denotes V ''transferMulti'' [v] xs"

inductive sys_denotes :: "('v, 's) neovm \<Rightarrow> string \<Rightarrow> 's \<Rightarrow> payload_transfer list \<Rightarrow> bool" where
  transfers: "m \<in> {''transfer'', ''transferV2''} \<Longrightarrow> PopAsArray V s = Inr (vs, s') \<Longrightarrow>
    list_all2 (struct_denotes V) vs xs \<Longrightarrow> sys_denotes V m s xs"
| transfer_from: "m \<in> {''transferFrom'', ''transferFromV2''} \<Longrightarrow> PopAsStruct V s = Inr (fs, s') \<Longrightarrow>
    from_fields_denote V fs x \<Longrightarrow> sys_denotes V m s [x]"

inductive call_denotes ::
  "('v, 's) neovm \<Rightarrow> 's executor \<Rightarrow> payload_transfer list \<Rightarrow> address \<Rightarrow> bool" where
  app: "index (ex_code e) (unat (ex_position e - 1)) = (Ok (APPCALL V) :: (go_error, byte) res) \<Longrightarrow>
    app_target V e c s \<Longrightarrow> PopAsBytes V s = Inr (m, s') \<Longrightarrow> PopAsArray V s' = Inr (params, s'') \<Longrightarrow>
    app_denotes V (go_string m) params xs \<Longrightarrow> call_denotes V e xs c"
| sys: "index (ex_code e) (unat (ex_position e - 1)) = (Ok (SYSCALL V) :: (go_error, byte) res) \<Longrightarrow>
    PopAsBytes V (ex_stack e) = Inr (version, s) \<Longrightarrow> PopAsBytes V s = Inr (c, s') \<Longrightarrow> is_addr c \<Longrightarrow>
    PopAsBytes V s' = Inr (m, s'') \<Longrightarrow> sys_denotes V (go_string m) s'' xs \<Longrightarrow> call_denotes V e xs c"

inductive_simps app_target_iff: "app_target V e c s"
inductive_simps app_denotes_iff: "app_denotes V m params xs"
inductive_simps sys_denotes_iff: "sys_denotes V m s xs"
inductive_simps call_denotes_iff: "call_denotes V e xs c"

lemma wrap_lib_simps [res_simps]:
  "wrap_lib msg r = Ok a \<longleftrightarrow> r = Inr a" "wrap_lib msg r \<noteq> Panic"
  by (simp_all add: wrap_lib_def split: sum.splits)

lemma index_simps [res_simps]:
  "index xs i = Ok x \<longleftrightarrow> i < length xs \<and> xs ! i = x" "index xs i = Panic \<longleftrightarrow> length xs \<le> i"
  "index xs i \<noteq> Err e"
  by (auto simp: index_def)

lemma parseTransferFields_iff:
  "env_ok E \<Longrightarrow> length data = 3 \<Longrightarrow>
   parseTransferFields V E data = Ok x \<longleftrightarrow> fields_denote V data x \<and> px_Payer x = nilAddr"
  by (cases x) (auto simp: parseTransferFields_def fields_denote_def addr_field_def res_simps
      parse_addr_iff numeral_3_eq_3 length_Suc_conv)

lemma fields_denote_payer [simp]: "fields_denote V fs (x\<lparr>px_Payer := p\<rparr>) = fields_denote V fs x"
  by (simp add: fields_denote_def)

lemma fields_denote_length: "fields_denote V fs x \<Longrightarrow> length fs = 3"
  by (auto simp: fields_denote_def)

lemma from_fields_denote_length: "from_fields_denote V fs x \<Longrightarrow> length fs = 4"
  by (auto simp: from_fields_denote_def fields_denote_length)

lemma parseTransferFromFields_iff:
  assumes "env_ok E" "length data = 4"
  shows "parseTransferFromFields V E data = Ok x \<longleftrightarrow> from_fields_denote V data x"
proof -
  obtain p fs where data: "data = p # fs" "length fs = 3"
    using assms(2) by (cases data) auto
  have "(\<exists>y. fields_denote V fs y \<and> px_Payer y = nilAddr \<and> y\<lparr>px_Payer := px_Payer x\<rparr> = x) \<longleftrightarrow> fields_denote V fs x"
    by (metis fields_denote_payer payload_transfer.select_convs(1) payload_transfer.surjective
        payload_transfer.update_convs(1))
  then show ?thesis
    using data assms(1)
    by (auto simp: parseTransferFromFields_def from_fields_denote_def addr_field_def res_simps
        parse_addr_iff parseTransferFields_iff)
qed

lemma parseTransfers_iff:
  "env_ok E \<Longrightarrow> parseTransfers V E vs = Ok xs \<longleftrightarrow> list_all2 (struct_denotes V) vs xs"
proof (induction vs arbitrary: xs)
  case Nil
  then show ?case by (auto simp: parseTransfers_def)
next
  case (Cons v vs)
  have "parseTransfer V E v = Ok x \<longleftrightarrow> struct_denotes V v x" for x
    using Cons.prems
    by (auto simp: parseTransfer_def struct_denotes_def res_simps parseTransferFields_iff
        dest: fields_denote_length)
  with Cons show ?case by (auto simp: parseTransfers_def res_simps list_all2_Cons1)
qed

lemma app_contract_iff:
  "env_ok E \<Longrightarrow> app_contract V E e = Ok (c, s) \<longleftrightarrow> app_target V e c s"
  by (auto simp: app_contract_def app_target_iff res_simps parse_addr_iff split: if_splits)

lemma app_method_iff:
  assumes "env_ok E"
  shows "app_method V E contract m params = Ok (xs, c) \<longleftrightarrow> c = contract \<and> app_denotes V (go_string m) params xs"
proof (cases "go_string m \<in> {''transfer'', ''transferFrom'', ''transferMulti''}")
  case True
  then consider "go_string m = ''transfer''" | "go_string m = ''transferFrom''" | "go_string m = ''transferMulti''"
    by blast
  then show ?thesis
  proof cases
    case 1
    then show ?thesis
      using assms by (auto simp: app_method_def app_denotes_iff res_simps parseTransferFields_iff dest: fields_denote_length)
  next
    case 2
    then show ?thesis
      using assms
      by (auto simp: app_method_def app_denotes_iff res_simps parseTransferFromFields_iff dest: from_fields_denote_length)
  next
    case 3
    then show ?thesis
      using assms
      by (auto simp: app_method_def app_denotes_iff res_simps parseAppTransferMulti_def parseTransfers_iff length_Suc_conv)
  qed
qed (auto simp: app_method_def app_denotes_iff)

lemma parseApp_iff:
  assumes "env_ok E"
  shows "parseApp V E e = Ok (xs, c) \<longleftrightarrow>
    (\<exists>s m s' params s''. app_target V e c s \<and> PopAsBytes V s = Inr (m, s') \<and>
       PopAsArray V s' = Inr (params, s'') \<and> app_denotes V (go_string m) params xs)"
  using assms by (simp add: parseApp_def res_simps app_contract_iff app_method_iff) blast

lemma sys_method_iff:
  assumes "env_ok E"
  shows "sys_method V E contract m s = Ok (xs, c) \<longleftrightarrow> c = contract \<and> sys_denotes V (go_string m) s xs"
proof (cases "go_string m \<in> {''transfer'', ''transferV2''}")
  case True
  then show ?thesis
    using assms by (auto simp: sys_method_def sys_denotes_iff res_simps parseSysTransfers_def parseTransfers_iff)
next
  case False
  then show ?thesis
    using assms
    by (auto simp: sys_method_def sys_denotes_iff res_simps parseSysTransferFrom_def parseTransferFromFields_iff
        split: if_splits dest: from_fields_denote_length)
qed

lemma parseSys_iff:
  assumes "env_ok E"
  shows "parseSys V E s = Ok (xs, c) \<longleftrightarrow>
    (\<exists>version s1 s2 m s3. PopAsBytes V s = Inr (version, s1) \<and> PopAsBytes V s1 = Inr (c, s2) \<and> is_addr c \<and>
       PopAsBytes V s2 = Inr (m, s3) \<and> sys_denotes V (go_string m) s3 xs)"
  using assms by (simp add: parseSys_def res_simps sys_method_iff parse_addr_iff) blast

lemma parseTransferFields_no_panic: "length data = 3 \<Longrightarrow> parseTransferFields V E data \<noteq> Panic"
  by (simp add: parseTransferFields_def res_simps)

lemma parseTransferFromFields_no_panic: "length data = 4 \<Longrightarrow> parseTransferFromFields V E data \<noteq> Panic"
  by (simp add: parseTransferFromFields_def res_simps parseTransferFields_no_panic)

lemma map_res_safe: "\<forall>x\<in>set xs. f x \<noteq> Panic \<Longrightarrow> map_res f xs \<noteq> Panic"
  by (induction xs) (auto simp: res_simps)

lemma parseTransfers_no_panic: "parseTransfers V E vs \<noteq> Panic"
  unfolding parseTransfers_def
  by (rule map_res_safe) (simp add: parseTransfer_def res_simps parseTransferFields_no_panic)

lemma app_method_no_panic: "app_method V E c m params \<noteq> Panic"
  by (simp add: app_method_def parseAppTransferMulti_def res_simps parseTransferFields_no_panic
      parseTransferFromFields_no_panic parseTransfers_no_panic)

lemma sys_method_no_panic: "sys_method V E c m s \<noteq> Panic"
  by (simp add: sys_method_def parseSysTransfers_def parseSysTransferFrom_def res_simps split_def
      parseTransferFromFields_no_panic parseTransfers_no_panic)

lemma parse_call_no_panic: "parseApp V E e \<noteq> Panic" "parseSys V E s \<noteq> Panic"
  by (simp_all add: parseApp_def parseSys_def app_contract_def res_simps split_def app_method_no_panic
      sys_method_no_panic)

lemma ParsePayload_iff:
  assumes "env_ok E" and "APPCALL V \<noteq> SYSCALL V"
  shows "ParsePayload V E code = Ok (xs, c) \<longleftrightarrow>
    ex_result (vm_execute V code) = VmNotSupported \<and> call_denotes V (vm_execute V code) xs c"
  using assms
  by (cases "ex_result (vm_execute V code)")
    (auto simp: ParsePayload_def Let_def res_simps call_denotes_iff parseApp_iff parseSys_iff split: if_splits)

section \<open>A concrete machine\<close>

text \<open>
  Straight-line code of one transfer: contract, sender, recipient and amount, then the call
  opcode. It stands for the NeoVM in the witnesses.
\<close>

datatype vm_value = VBytes bytes | VInt int | VArray "vm_value list" | VStruct "vm_value list"

definition str_bytes :: "string \<Rightarrow> bytes" where
  "str_bytes s = map of_char s"

lemma go_string_str_bytes [simp]: "go_string (str_bytes s) = s"
proof (induction s)
  case (Cons c s)
  have "unat (of_char c :: byte) = of_char c"
    using nat_of_char_less_256 [of c] by (metis of_nat_of_char unat_of_nat_byte)
  with Cons show ?case by (simp add: go_string_def str_bytes_def)
qed (simp add: go_string_def str_bytes_def)

definition transfer_code :: "byte \<Rightarrow> address \<Rightarrow> address \<Rightarrow> address \<Rightarrow> int \<Rightarrow> bytes" where
  "transfer_code opcode contract from to n = contract @ from @ to @ big_bytes n @ [opcode]"

definition execute0 :: "bytes \<Rightarrow> vm_value list executor" where
  "execute0 code =
     (let contract = take 20 code;
          fields = [VBytes (take 20 (drop 20 code)), VBytes (take 20 (drop 40 code)),
                    VInt (big_set_bytes (butlast (drop 60 code)))]
      in if length code < 61 then
           \<lparr>ex_result = VmFailed ''end of code'', ex_code = code, ex_position = 0,
            ex_read = (\<lambda>n. Inl ''EOF''), ex_stack = []\<rparr>
         else
           \<lparr>ex_result = VmNotSupported, ex_code = code, ex_position = of_nat (length code),
            ex_read = (\<lambda>n. Inr (take n contract)),
            ex_stack = (if last code = 103 then [VBytes (str_bytes ''transfer''), VArray fields]
                        else [VBytes [0], VBytes contract, VBytes (str_bytes ''transferV2''), VArray [VStruct fields]])\<rparr>)"

fun pop_with :: "(vm_value \<Rightarrow> string + 'a) \<Rightarrow> vm_value list \<Rightarrow> string + 'a \<times> vm_value list" where
  "pop_with f [] = Inl ''stack underflow''"
| "pop_with f (v # s) = (case f v of Inl e \<Rightarrow> Inl e | Inr a \<Rightarrow> Inr (a, s))"

fun as_bytes0 :: "vm_value \<Rightarrow> string + bytes" where
  "as_bytes0 (VBytes b) = Inr b" | "as_bytes0 v = Inl ''bad type''"

fun as_int0 :: "vm_value \<Rightarrow> string + int" where
  "as_int0 (VInt i) = Inr i" | "as_int0 v = Inl ''bad type''"

fun as_array0 :: "vm_value \<Rightarrow> string + vm_value list" where
  "as_array0 (VArray vs) = Inr vs" | "as_array0 v = Inl ''bad type''"

fun as_struct0 :: "vm_value \<Rightarrow> string + vm_value list" where
  "as_struct0 (VStruct vs) = Inr vs" | "as_struct0 v = Inl ''bad type''"

definition vm0 :: "(vm_value, vm_value list) neovm" where
  "vm0 =
     \<lparr>vm_execute = execute0, APPCALL = 103, SYSCALL = 104, PopAsBytes = pop_with as_bytes0,
      PopAsArray = pop_with as_array0, PopAsStruct = pop_with as_struct0, AsBytes = as_bytes0,
      AsBigInt = as_int0, AsArrayValue = as_array0, AsStructValue = as_struct0\<rparr>"

lemma vm0_simps [simp]:
  "vm_execute vm0 = execute0" "APPCALL vm0 = 103" "SYSCALL vm0 = 104" "PopAsBytes vm0 = pop_with as_bytes0"
  "PopAsArray vm0 = pop_with as_array0" "PopAsStruct vm0 = pop_with as_struct0" "AsBytes vm0 = as_bytes0"
  "AsBigInt vm0 = as_int0" "AsArrayValue vm0 = as_array0" "AsStructValue vm0 = as_struct0"
  by (simp_all add: vm0_def)

definition xfer_of :: "address \<Rightarrow> address \<Rightarrow> int \<Rightarrow> payload_transfer" where
  "xfer_of from to n = \<lparr>px_Payer = nilAddr, px_From = from, px_To = to, px_Amount = n\<rparr>"

text \<open>The machine runs a native and an application transfer to the calls they stand for.\<close>

lemma execute0_transfer:
  assumes "is_addr c" "is_addr from" "is_addr to" "0 \<le> n" "length (big_bytes n) < 2 ^ 60" "oc = 103 \<or> oc = 104"
    and "oc = 103 \<Longrightarrow> c \<noteq> nilAddr"
  shows "ex_result (execute0 (transfer_code oc c from to n)) = VmNotSupported"
    "call_denotes vm0 (execute0 (transfer_code oc c from to n)) [xfer_of from to n] c"
proof -
  let ?code = "transfer_code oc c from to n"
  let ?fs = "[VBytes from, VBytes to, VInt n]"
  have len: "length ?code = 61 + length (big_bytes n)" and last: "last ?code = oc" "?code ! (60 + length (big_bytes n)) = oc"
    using assms(1-3) by (simp_all add: transfer_code_def is_addr_def nth_append)
  have parts: "take 20 ?code = c" "take 20 (drop 20 ?code) = from" "take 20 (drop 40 ?code) = to"
    "big_set_bytes (butlast (drop 60 ?code)) = n"
    using assms(1-4) by (simp_all add: transfer_code_def is_addr_def butlast_append big_set_bytes_big_bytes)
  show "ex_result (execute0 ?code) = VmNotSupported"
    by (simp add: execute0_def len Let_def)
  have "ex_position (execute0 ?code) - 1 = of_nat (60 + length (big_bytes n))"
    by (simp add: execute0_def len Let_def)
  then have pos: "unat (ex_position (execute0 ?code) - 1) = 60 + length (big_bytes n)"
    using assms(5) by (simp only: unat_of_nat) simp
  have code: "ex_code (execute0 ?code) = ?code"
    by (simp add: execute0_def len Let_def)
  have op: "index (ex_code (execute0 ?code)) (unat (ex_position (execute0 ?code) - 1)) = Ok oc"
    by (simp add: pos code index_def len last)
  have fs: "fields_denote vm0 ?fs (xfer_of from to n)"
    using assms(2,3) by (simp add: fields_denote_def addr_field_def xfer_of_def)
  show "call_denotes vm0 (execute0 ?code) [xfer_of from to n] c"
  proof (cases "oc = 103")
    case True
    have "ex_stack (execute0 ?code) = [VBytes (str_bytes ''transfer''), VArray ?fs]"
      using True len last(1) parts by (simp add: execute0_def Let_def)
    moreover have "app_target vm0 (execute0 ?code) c (ex_stack (execute0 ?code))"
    proof (rule app_target.inline)
      show "ex_read (execute0 ?code) 20 = Inr c"
        using len parts(1) assms(1) by (simp add: execute0_def Let_def is_addr_def)
    qed (use True assms(7) in simp)
    moreover have "app_denotes vm0 ''transfer'' ?fs [xfer_of from to n]"
      using fs by (intro app_denotes.transfer) (simp_all add: xfer_of_def)
    moreover have "PopAsBytes vm0 [VBytes (str_bytes ''transfer''), VArray ?fs] = Inr (str_bytes ''transfer'', [VArray ?fs])"
      "PopAsArray vm0 [VArray ?fs] = Inr (?fs, [])"
      by simp_all
    ultimately show ?thesis
      using op True go_string_str_bytes [of "''transfer''"] by (metis call_denotes.app vm0_simps(2))
  next
    case False
    then have "ex_stack (execute0 ?code) =
        [VBytes [0], VBytes c, VBytes (str_bytes ''transferV2''), VArray [VStruct ?fs]]"
      by (simp add: execute0_def len last parts Let_def)
    moreover have "sys_denotes vm0 ''transferV2'' [VArray [VStruct ?fs]] [xfer_of from to n]"
      using fs by (intro sys_denotes.transfers [where vs = "[VStruct ?fs]" and s' = "[]"]) (simp_all add: struct_denotes_def xfer_of_def)
    moreover have "PopAsBytes vm0 [VBytes [0], VBytes c, VBytes (str_bytes ''transferV2''), VArray [VStruct ?fs]] =
        Inr ([0], [VBytes c, VBytes (str_bytes ''transferV2''), VArray [VStruct ?fs]])"
      "PopAsBytes vm0 [VBytes c, VBytes (str_bytes ''transferV2''), VArray [VStruct ?fs]] =
        Inr (c, [VBytes (str_bytes ''transferV2''), VArray [VStruct ?fs]])"
      "PopAsBytes vm0 [VBytes (str_bytes ''transferV2''), VArray [VStruct ?fs]] =
        Inr (str_bytes ''transferV2'', [VArray [VStruct ?fs]])"
      by simp_all
    ultimately show ?thesis
      using op False assms(1,6) go_string_str_bytes [of "''transferV2''"] by (metis call_denotes.sys vm0_simps(3))
  qed
qed

section \<open>Properties\<close>

text \<open>C7: a payload is read as transfers exactly when its code ends in a call that denotes them:
  a transfer, transferFrom or transferMulti of a contract, or one of the four native transfer
  methods, with well-formed addresses and amounts. Anything else is an error.\<close>

theorem ParsePayload_denotes:
  assumes "env_ok E" and "APPCALL V \<noteq> SYSCALL V"
  shows "ParsePayload V E code = Ok (xs, c) \<longleftrightarrow>
    ex_result (vm_execute V code) = VmNotSupported \<and> call_denotes V (vm_execute V code) xs c"
  by (rule ParsePayload_iff [OF assms])

theorem ParsePayload_denotes_witness:
  "ParsePayload vm0 env0 (transfer_code 104 (replicate 20 1) (replicate 20 3) (replicate 20 4) 1000) =
     Ok ([xfer_of (replicate 20 3) (replicate 20 4) 1000], replicate 20 1)"
proof -
  have "length (big_bytes 1000) < 2 ^ 60" by (simp add: big_bytes_def be_bytes.simps)
  then show ?thesis
    using ParsePayload_denotes [of env0 vm0] execute0_transfer [of "replicate 20 1" "replicate 20 3" "replicate 20 4" 1000 104]
    by (simp add: is_addr_def)
qed

text \<open>C31: reading a payload panics exactly when the machine reports a call opcode although its
  reader is at the start or past the code; no content of the code, of the stack or of
  the parameters makes the parser index out of range.\<close>

theorem ParsePayload_panics:
  "ParsePayload V E code = Panic \<longleftrightarrow>
    ex_result (vm_execute V code) = VmNotSupported \<and>
    length (ex_code (vm_execute V code)) \<le> unat (ex_position (vm_execute V code) - 1)"
  by (cases "ex_result (vm_execute V code)")
    (auto simp: ParsePayload_def Let_def res_simps parse_call_no_panic)

end
