(* ===== verification/Intent.thy ===== *)
theory Intent
  imports Operations
begin

text \<open>
  The intent of a construction request: \<^verbatim>\<open>validateOps\<close> and \<^verbatim>\<open>validateRelation\<close> of
  src/services/construction_service.go turn two operations into a transfer. The predicate
  \<open>transfer_intent\<close> says which pairs of operations describe which transfer, independently of
  the order of the checks.
\<close>

section \<open>Relations between the two operations\<close>

text \<open>
  Operation indices are \<^verbatim>\<open>int64\<close>, so their difference wraps around. A pointer of the request
  that is nil and dereferenced panics.
\<close>

definition wrap64 :: "int \<Rightarrow> int" where
  "wrap64 i = (i + 2 ^ 63) mod 2 ^ 64 - 2 ^ 63"

definition is_int64 :: "int \<Rightarrow> bool" where
  "is_int64 i \<longleftrightarrow> - (2 ^ 63) \<le> i \<and> i < 2 ^ 63"

fun deref :: "'a option \<Rightarrow> ('e, 'a) res" where
  "deref None = Panic" | "deref (Some a) = Ok a"

definition validateRelation :: "operation list \<Rightarrow> nat \<Rightarrow> nat \<Rightarrow> (xerror, unit) res" where
  "validateRelation ops ifrom ito =
     (if op_related (ops ! ito) \<noteq> [] then
        Err (invalidOpsf ''cannot have related_operations on both operations[%d] and operations[%d]''
          [ArgInt (int ifrom), ArgInt (int ito)])
      else
        (case hd (op_related (ops ! ifrom)) of
           None \<Rightarrow> Err (invalidOpsf ''invalid operations[%d].related_operations'' [ArgInt (int ifrom)])
         | Some rel \<Rightarrow>
             bind_res (deref (op_identifier (ops ! ito))) (\<lambda>src.
             if rel \<noteq> src then
               Err (invalidOpsf ''operations[%d].related_operations does not match operations[%d].operation_identifier''
                 [ArgInt (int ifrom), ArgInt (int ito)])
             else
               bind_res (deref (op_identifier (ops ! ifrom))) (\<lambda>from.
               let diff = wrap64 (from - src)
               in if diff \<noteq> 1 then
                    Err (invalidOpsf ''operations[%d].related_operations does not follow from operations[%d]''
                      [ArgInt (int ifrom), ArgInt (int ito)])
                  else Ok ()))))"

section \<open>One operation\<close>

text \<open>
  The body of the loop. \<open>cinfo\<close> is the currency of the operation before, if any; comparing the
  pointers of two registered currencies is comparing their entries.
\<close>

definition check_sub_account ::
  "env \<Rightarrow> currencyInfo \<Rightarrow> nat \<Rightarrow> account_identifier \<Rightarrow> (xerror, unit) res" where
  "check_sub_account E token i account =
     (if ci_isNative E token then
        (if ai_sub_account account \<noteq> None then
           Err (invalidOpsf ''operations[%d].account.sub_account specified for native token'' [ArgInt (int i)])
         else Ok ())
      else
        (case ai_sub_account account of
           None \<Rightarrow> Err (invalidOpsf ''missing operations[%d].account.sub_account'' [ArgInt (int i)])
         | Some sub \<Rightarrow>
             (case AddressFromHexString E sub of
                Inl err \<Rightarrow> Err (invalidOpsf ''unable to parse operations[%d].account.sub_account.address: %s''
                  [ArgInt (int i), ArgErr (ExtError err)])
              | Inr caddr \<Rightarrow>
                  if ci_contract token \<noteq> caddr then
                    Err (invalidOpsf ''operations[%d].account.sub_account.address does not match currency'' [ArgInt (int i)])
                  else Ok ())))"

definition validate_op ::
  "env \<Rightarrow> 'db store \<Rightarrow> nat \<Rightarrow> currencyInfo option \<Rightarrow> operation \<Rightarrow> (xerror, address \<times> int \<times> currencyInfo) res" where
  "validate_op E s i cinfo op =
     (case op_account op of
        None \<Rightarrow> Err (invalidOpsf ''missing operations[%d].account'' [ArgInt (int i)])
      | Some account \<Rightarrow>
     (case AddressFromBase58 E (ai_address account) of
        Inl err \<Rightarrow> Err (invalidOpsf ''unable to parse operations[%d].account.address: %s''
          [ArgInt (int i), ArgErr (ExtError err)])
      | Inr addr \<Rightarrow>
     (case op_amount op of
        None \<Rightarrow> Err (invalidOpsf ''missing operations[%d].amount'' [ArgInt (int i)])
      | Some am \<Rightarrow>
     (case big_parse (am_value am) of
        None \<Rightarrow> Err (invalidOpsf ''invalid operations[%d].amount.value: %s'' [ArgInt (int i), ArgStr (am_value am)])
      | Some amount \<Rightarrow>
          if amount = 0 then Err (invalidOpsf ''operations[%d].amount.value is zero'' [ArgInt (int i)])
          else
            bind_res (validateCurrency E s (am_currency am)) (\<lambda>token.
            bind_res (check_sub_account E token i account) (\<lambda>_.
            if cinfo \<noteq> None \<and> cinfo \<noteq> Some token then
              Err (invalidOpsf ''operations must be in the same currency'' [])
            else if op_identifier op = None then
              Err (invalidOpsf ''missing operations[%d].operation_identifier'' [ArgInt (int i)])
            else if op_type op \<noteq> opTransfer then
              Err (invalidOpsf ''unsupported operation type: %q'' [ArgStr (op_type op)])
            else Ok (addr, amount, case cinfo of None \<Rightarrow> token | Some c \<Rightarrow> c)))))))"

fun validate_loop ::
  "env \<Rightarrow> 'db store \<Rightarrow> nat \<Rightarrow> currencyInfo option \<Rightarrow> operation option list \<Rightarrow>
   (xerror, address list \<times> int list \<times> currencyInfo option) res" where
  "validate_loop E s i cinfo [] = Ok ([], [], cinfo)"
| "validate_loop E s i cinfo (op # ops) =
     bind_res (deref op) (\<lambda>op.
     bind_res (validate_op E s i cinfo op) (\<lambda>(addr, amount, token).
     bind_res (validate_loop E s (i + 1) (Some token) ops) (\<lambda>(addrs, amounts, cinfo').
     Ok (addr # addrs, amount # amounts, cinfo'))))"

section \<open>Two operations\<close>

definition ADDRESS_EMPTY :: address where
  "ADDRESS_EMPTY = replicate 20 0"

text \<open>The first of the switches: which of the two operations names the other.\<close>

definition check_relation :: "operation list \<Rightarrow> (xerror, unit) res" where
  "check_relation ops =
     (if op_related (ops ! 0) \<noteq> [] then validateRelation ops 0 1
      else if op_related (ops ! 1) \<noteq> [] then validateRelation ops 1 0
      else Err (invalidOpsf ''invalid related_operations on operations'' []))"

definition transfer_of :: "currencyInfo \<Rightarrow> address \<times> address \<Rightarrow> int \<times> int \<Rightarrow> (xerror, transferInfo) res" where
  "transfer_of cinfo addrs amounts =
     (let xfer = \<lambda>amount from to.
            \<lparr>ti_amount = amount, ti_contract = ci_contract cinfo, ti_currency = ci_currency cinfo,
             ti_from = from, ti_isGas = False, ti_to = to\<rparr>
      in bind_res
           (if fst amounts > 0 then Ok (xfer (fst amounts) (snd addrs) (fst addrs))
            else if fst amounts < 0 then Ok (xfer (snd amounts) (fst addrs) (snd addrs))
            else Err (invalidOpsf ''amount values in operations cannot be zero'' []))
           (\<lambda>x. if ti_from x = ADDRESS_EMPTY
                then Err (invalidOpsf ''transfers from null addresses are not supported'' []) else Ok x))"

definition validateOps ::
  "env \<Rightarrow> 'db store \<Rightarrow> operation option list option \<Rightarrow> (xerror, transferInfo) res" where
  "validateOps E s ops =
     (case ops of
        None \<Rightarrow> Err (invalidOpsf ''missing operations field'' [])
      | Some ops \<Rightarrow>
          if length ops \<noteq> 2 then Err (invalidOpsf ''unexpected number of operations: %d'' [ArgInt (int (length ops))])
          else
            bind_res (validate_loop E s 0 None ops) (\<lambda>(addrs, amounts, cinfo).
            bind_res (check_relation (map the ops)) (\<lambda>_.
            if amounts ! 0 + amounts ! 1 \<noteq> 0 then
              Err (invalidOpsf ''amount values in operations do not sum to zero'' [])
            else
              bind_res (deref cinfo) (\<lambda>cinfo.
              transfer_of cinfo (addrs ! 0, addrs ! 1) (amounts ! 0, amounts ! 1)))))"

section \<open>The intent of two operations\<close>

text \<open>An operation moves \<open>v\<close> units of the currency \<open>c\<close> on the account \<open>a\<close>.\<close>

definition op_moves :: "env \<Rightarrow> 'db store \<Rightarrow> operation \<Rightarrow> address \<Rightarrow> int \<Rightarrow> currencyInfo \<Rightarrow> bool" where
  "op_moves E s op a v c \<longleftrightarrow>
     op_type op = opTransfer \<and> op_identifier op \<noteq> None \<and> v \<noteq> 0 \<and>
     (\<exists>account am. op_account op = Some account \<and> op_amount op = Some am \<and>
        AddressFromBase58 E (ai_address account) = Inr a \<and> big_parse (am_value am) = Some v \<and>
        validateCurrency E s (am_currency am) = Ok c \<and>
        (if ci_isNative E c then ai_sub_account account = None
         else \<exists>sub. ai_sub_account account = Some sub \<and> AddressFromHexString E sub = Inr (ci_contract c)))"

text \<open>Exactly one of the operations names the other, which comes right before it.\<close>

definition follows :: "operation \<Rightarrow> operation \<Rightarrow> bool" where
  "follows op prev \<longleftrightarrow> op_related prev = [] \<and>
     (\<exists>i rest. op_identifier prev = Some i \<and> op_related op = Some i # rest \<and>
        (\<exists>j. op_identifier op = Some j \<and> wrap64 (j - i) = 1))"

text \<open>The debited account is the sender, the credited one the recipient, in either order.\<close>

definition transfer_intent :: "env \<Rightarrow> 'db store \<Rightarrow> operation \<Rightarrow> operation \<Rightarrow> transferInfo \<Rightarrow> bool" where
  "transfer_intent E s debit credit x \<longleftrightarrow>
     (\<exists>c. op_moves E s debit (ti_from x) (- ti_amount x) c \<and> op_moves E s credit (ti_to x) (ti_amount x) c \<and>
        ti_contract x = ci_contract c \<and> ti_currency x = ci_currency c) \<and>
     0 < ti_amount x \<and> \<not> ti_isGas x \<and> ti_from x \<noteq> ADDRESS_EMPTY \<and>
     (follows debit credit \<or> follows credit debit)"

lemma deref_iff [res_simps]: "deref x = Ok a \<longleftrightarrow> x = Some a" "deref x = Panic \<longleftrightarrow> x = None" "deref x \<noteq> Err e"
  by (cases x; simp)+

lemma wrap64_small: "is_int64 i \<Longrightarrow> wrap64 i = i"
  by (simp add: wrap64_def is_int64_def)

lemma check_sub_account_Ok_iff:
  "check_sub_account E c i account = Ok u \<longleftrightarrow>
   (if ci_isNative E c then ai_sub_account account = None
    else \<exists>sub. ai_sub_account account = Some sub \<and> AddressFromHexString E sub = Inr (ci_contract c))"
  by (auto simp: check_sub_account_def split: option.splits sum.splits)

lemma check_sub_account_no_panic [simp]: "check_sub_account E c i account \<noteq> Panic"
  by (simp add: check_sub_account_def split: option.splits sum.splits)

lemma validate_op_Ok_iff:
  "validate_op E s i cinfo op = Ok (a, v, c) \<longleftrightarrow> op_moves E s op a v c \<and> (cinfo = None \<or> cinfo = Some c)"
proof (cases "op_account op")
  case account: (Some account)
  show ?thesis
  proof (cases "AddressFromBase58 E (ai_address account)")
    case addr: (Inr addr)
    show ?thesis
    proof (cases "op_amount op")
      case am: (Some am)
      show ?thesis
      proof (cases "big_parse (am_value am)")
        case v: (Some v')
        show ?thesis
          by (cases cinfo)
            (auto simp: validate_op_def op_moves_def account addr am v res_simps check_sub_account_Ok_iff)
      qed (simp add: validate_op_def op_moves_def account addr am)
    qed (simp add: validate_op_def op_moves_def account addr)
  qed (simp add: validate_op_def op_moves_def account)
qed (simp add: validate_op_def op_moves_def)

lemma op_moves_fun: "op_moves E s op a v c \<Longrightarrow> op_moves E s op a' v' c' \<Longrightarrow> a = a' \<and> v = v' \<and> c = c'"
  by (auto simp: op_moves_def)

lemma validateRelation_01:
  "op_identifier a \<noteq> None \<Longrightarrow> op_identifier b \<noteq> None \<Longrightarrow> op_related a \<noteq> [] \<Longrightarrow>
   validateRelation [a, b] 0 1 = Ok u \<longleftrightarrow> follows a b"
  by (cases "op_related a") (auto simp: validateRelation_def follows_def res_simps Let_def split: option.splits)

lemma validateRelation_10:
  "op_identifier a \<noteq> None \<Longrightarrow> op_identifier b \<noteq> None \<Longrightarrow> op_related b \<noteq> [] \<Longrightarrow>
   validateRelation [a, b] 1 0 = Ok u \<longleftrightarrow> follows b a"
  by (cases "op_related b") (auto simp: validateRelation_def follows_def res_simps Let_def split: option.splits)

lemma follows_related: "follows a b \<Longrightarrow> op_related a \<noteq> [] \<and> op_related b = []"
  by (auto simp: follows_def)

lemma check_relation_iff:
  assumes "op_identifier a \<noteq> None" "op_identifier b \<noteq> None"
  shows "check_relation [a, b] = Ok u \<longleftrightarrow> follows a b \<or> follows b a"
  using validateRelation_01 [OF assms] validateRelation_10 [OF assms] follows_related [of a b] follows_related [of b a]
  by (cases "op_related a"; cases "op_related b") (auto simp: check_relation_def)

lemma validate_loop_2:
  "validate_loop E s 0 None [Some a, Some b] = Ok (addrs, amounts, cinfo) \<longleftrightarrow>
   (\<exists>a0 v0 a1 v1 c. op_moves E s a a0 v0 c \<and> op_moves E s b a1 v1 c \<and>
      addrs = [a0, a1] \<and> amounts = [v0, v1] \<and> cinfo = Some c)"
  by (auto simp: res_simps validate_op_Ok_iff)

lemma op_moves_facts: "op_moves E s op a v c \<Longrightarrow> op_identifier op \<noteq> None \<and> v \<noteq> 0"
  by (simp add: op_moves_def)

lemma op_moves_iff:
  "op_moves E s op a v c \<Longrightarrow> op_moves E s op a' v' c' \<longleftrightarrow> a' = a \<and> v' = v \<and> c' = c"
  using op_moves_fun by blast

text \<open>The sign of the first amount decides who pays.\<close>

lemma transfer_of_iff:
  assumes "op_moves E s a a0 v c" "op_moves E s b a1 (- v) c"
  shows "transfer_of c (a0, a1) (v, - v) = Ok x \<and> (follows a b \<or> follows b a) \<longleftrightarrow>
    transfer_intent E s a b x \<or> transfer_intent E s b a x"
proof (cases "v < 0")
  case True
  have "transfer_intent E s a b x \<or> transfer_intent E s b a x \<longleftrightarrow>
      ti_from x = a0 \<and> ti_to x = a1 \<and> ti_amount x = - v \<and> ti_contract x = ci_contract c \<and>
      ti_currency x = ci_currency c \<and> \<not> ti_isGas x \<and> a0 \<noteq> ADDRESS_EMPTY \<and> (follows a b \<or> follows b a)"
    unfolding transfer_intent_def op_moves_iff [OF assms(1)] op_moves_iff [OF assms(2)] using True by fastforce
  then show ?thesis
    using True by (cases x) (auto simp: transfer_of_def Let_def)
next
  case False
  with op_moves_facts [OF assms(1)] have v: "0 < v" by linarith
  have "transfer_intent E s a b x \<or> transfer_intent E s b a x \<longleftrightarrow>
      ti_from x = a1 \<and> ti_to x = a0 \<and> ti_amount x = v \<and> ti_contract x = ci_contract c \<and>
      ti_currency x = ci_currency c \<and> \<not> ti_isGas x \<and> a1 \<noteq> ADDRESS_EMPTY \<and> (follows a b \<or> follows b a)"
    unfolding transfer_intent_def op_moves_iff [OF assms(1)] op_moves_iff [OF assms(2)] using v by fastforce
  then show ?thesis
    using v by (cases x) (auto simp: transfer_of_def Let_def)
qed

lemma validateOps_Some_2:
  "validateOps E s (Some [Some a, Some b]) = Ok x \<longleftrightarrow> transfer_intent E s a b x \<or> transfer_intent E s b a x"
proof
  assume "validateOps E s (Some [Some a, Some b]) = Ok x"
  then obtain a0 v0 a1 v1 c u where m: "op_moves E s a a0 v0 c" "op_moves E s b a1 v1 c"
    and u: "check_relation [a, b] = Ok u" and v: "v0 + v1 = 0" and x: "transfer_of c (a0, a1) (v0, v1) = Ok x"
    by (auto simp del: validate_loop.simps simp: validateOps_def res_simps validate_loop_2 split: if_splits)
  have "v1 = - v0" using v by linarith
  moreover have "follows a b \<or> follows b a"
    using u m check_relation_iff [of a b u] op_moves_facts by metis
  ultimately show "transfer_intent E s a b x \<or> transfer_intent E s b a x"
    using transfer_of_iff [of E s a a0 v0 c b a1 x] m x by auto
next
  assume t: "transfer_intent E s a b x \<or> transfer_intent E s b a x"
  then obtain a0 v a1 c where m: "op_moves E s a a0 v c" "op_moves E s b a1 (- v) c"
    unfolding transfer_intent_def by (metis minus_minus)
  have x: "transfer_of c (a0, a1) (v, - v) = Ok x" and f: "follows a b \<or> follows b a"
    using transfer_of_iff [OF m, of x] t by blast+
  have u: "check_relation [a, b] = Ok ()"
    using f m check_relation_iff [of a b "()"] op_moves_facts by metis
  have l: "validate_loop E s 0 None [Some a, Some b] = Ok ([a0, a1], [v, - v], Some c)"
    using m validate_loop_2 by metis
  show "validateOps E s (Some [Some a, Some b]) = Ok x"
    by (simp del: validate_loop.simps add: validateOps_def l u x)
qed

lemma validateOps_Ok_iff:
  "validateOps E s ops = Ok x \<longleftrightarrow>
   (\<exists>a b. ops = Some [Some a, Some b] \<and> (transfer_intent E s a b x \<or> transfer_intent E s b a x))"
proof
  assume ok: "validateOps E s ops = Ok x"
  then obtain os where os: "ops = Some os" "length os = 2"
    by (cases ops) (auto simp: validateOps_def split: if_splits)
  then obtain a b where "os = [a, b]" by (auto simp: numeral_2_eq_2 length_Suc_conv)
  moreover from this obtain a' b' where "a = Some a'" "b = Some b'"
    using ok os by (cases a; cases b) (auto simp: validateOps_def res_simps)
  ultimately show "\<exists>a b. ops = Some [Some a, Some b] \<and> (transfer_intent E s a b x \<or> transfer_intent E s b a x)"
    using ok os validateOps_Some_2 by blast
qed (use validateOps_Some_2 in blast)

section \<open>Rejections\<close>

text \<open>The API errors a result can be, as a set of their codes.\<close>

definition errs_in :: "int set \<Rightarrow> (xerror, 'a) res \<Rightarrow> bool" where
  "errs_in S r \<longleftrightarrow> (\<forall>e. r = Err e \<longrightarrow> err_code e \<in> S)"

named_theorems errs_intros \<open>introduction rules for the errors of an operation\<close>

lemma errs_in_simps [simp]:
  "errs_in S (Ok a)" "errs_in S Panic" "errs_in S (Err e) \<longleftrightarrow> err_code e \<in> S" "errs_in S (deref x)"
  by (simp_all add: errs_in_def) (cases x; simp)

lemma errs_in_bind [errs_intros]:
  "errs_in S m \<Longrightarrow> (\<And>a. m = Ok a \<Longrightarrow> errs_in S (f a)) \<Longrightarrow> errs_in S (bind_res m f)"
  by (cases m) auto

lemma errs_in_mono: "errs_in S r \<Longrightarrow> S \<subseteq> T \<Longrightarrow> errs_in T r"
  by (auto simp: errs_in_def)

lemma err_code_table [simp]:
  "err_code (invalidOpsf f args) = 411" "err_code (invalidCurrencyf f args) = 407"
  "err_code (invalidConstructf f args) = 405"
  by (simp_all add: invalidOpsf_def invalidCurrencyf_def invalidConstructf_def error_defs mk_error_def)

abbreviation intent_errors :: "int set" where
  "intent_errors \<equiv> {411, 407, 201}"

lemma validateCurrency_errs [errs_intros]: "errs_in intent_errors (validateCurrency E s cur)"
  by (simp add: validateCurrency_def errCurrencyNotDefined_def mk_error_def split: option.split jval.split sum.split)

lemma check_sub_account_errs [errs_intros]: "errs_in intent_errors (check_sub_account E c i account)"
  by (simp add: check_sub_account_def split: option.split sum.split)

lemma validate_op_errs [errs_intros]: "errs_in intent_errors (validate_op E s i cinfo op)"
  unfolding validate_op_def
  by (auto split: option.split sum.split simp del: not_None_eq intro!: errs_intros)

lemma validate_loop_errs [errs_intros]: "errs_in intent_errors (validate_loop E s i cinfo ops)"
  by (induction ops arbitrary: i cinfo) (auto intro!: errs_intros)

lemma validateRelation_errs [errs_intros]: "errs_in intent_errors (validateRelation ops i j)"
  by (auto simp: validateRelation_def Let_def split: option.split intro!: errs_intros)

lemma transfer_of_errs [errs_intros]: "errs_in intent_errors (transfer_of c as vs)"
  by (auto simp: transfer_of_def Let_def intro!: errs_intros)

lemma validateOps_errs [errs_intros]: "errs_in intent_errors (validateOps E s ops)"
  by (auto simp: validateOps_def check_relation_def split: option.split intro!: errs_intros)

lemma validateCurrency_safe: "validateCurrency E s cur \<noteq> Panic"
  by (simp add: validateCurrency_def split: option.split jval.split sum.split)

lemma validate_op_safe: "validate_op E s i cinfo op \<noteq> Panic"
  by (simp add: validate_op_def res_simps validateCurrency_safe split: option.split sum.split)

lemma validate_loop_panic: "validate_loop E s i cinfo ops = Panic \<Longrightarrow> None \<in> set ops"
  by (induction ops arbitrary: i cinfo) (auto simp: res_simps validate_op_safe)

lemma check_relation_safe:
  "op_identifier a \<noteq> None \<Longrightarrow> op_identifier b \<noteq> None \<Longrightarrow> check_relation [a, b] \<noteq> Panic"
  by (auto simp: check_relation_def validateRelation_def res_simps Let_def split: option.split)

lemma transfer_of_safe: "transfer_of c as vs \<noteq> Panic"
  by (simp add: transfer_of_def Let_def res_simps)

lemma validateOps_panic:
  assumes "validateOps E s ops = Panic"
  shows "\<exists>os. ops = Some os \<and> None \<in> set os"
proof (rule ccontr)
  assume no: "\<not> ?thesis"
  obtain os where os: "ops = Some os" "length os = 2"
    using assms by (cases ops) (auto simp: validateOps_def split: if_splits)
  then obtain y z where "os = [y, z]" by (auto simp: numeral_2_eq_2 length_Suc_conv)
  with no os obtain a b where ops: "ops = Some [Some a, Some b]" by (cases y; cases z) auto
  show False
  proof (cases "validate_loop E s 0 None [Some a, Some b]")
    case (Ok r)
    obtain addrs amounts cinfo where r: "r = (addrs, amounts, cinfo)" by (cases r) auto
    with Ok obtain a0 v0 a1 v1 c where "op_moves E s a a0 v0 c" "op_moves E s b a1 v1 c" "cinfo = Some c"
      unfolding r validate_loop_2 by blast
    moreover from this have "check_relation [a, b] \<noteq> Panic"
      using check_relation_safe [of a b] op_moves_facts [of E s a] op_moves_facts [of E s b] by blast
    ultimately show False
      using assms unfolding ops validateOps_def
      by (simp add: Ok r res_simps transfer_of_safe del: validate_loop.simps split: if_splits)
  next
    case (Err e)
    then show False using assms by (simp add: ops validateOps_def del: validate_loop.simps)
  next
    case Panic
    then show False using validate_loop_panic by fastforce
  qed
qed

lemma validateOps_own_operations:
  assumes "env_ok E" "toks_wf E (tokens s)" "tokens s (ti_contract x) = Some info" "ti_currency x = ci_currency info"
    and "is_addr (ti_from x)" "is_addr (ti_to x)" "0 < ti_amount x" "\<not> ti_isGas x"
    and "ti_from x \<noteq> nullAddr E" "ti_to x \<noteq> nullAddr E"
  shows "validateOps E s (Some (map Some (drop (length ops) (appendOperations E ops x st)))) = Ok x"
proof -
  have tok: "token_ok E (ti_contract x) info" using assms(2,3) by (simp add: toks_wf_def)
  then have c: "ci_contract info = ti_contract x" "is_addr (ti_contract x)" by (simp_all add: token_ok_def)
  let ?n = "int (length ops)"
  let ?op = "\<lambda>i r a v. \<lparr>op_identifier = Some i, op_related = r, op_type = opTransfer,
      op_status = (if st then Some statusSuccess else None), op_account = Some (native_account E x a),
      op_amount = Some \<lparr>am_value = big_string v, am_currency = Some (ti_currency x)\<rparr>\<rparr>"
  let ?debit = "?op ?n [] (ti_from x) (- ti_amount x)"
  let ?credit = "?op (?n + 1) [Some ?n] (ti_to x) (ti_amount x)"
  have moves: "op_moves E s (?op i r a v) a v info" if "is_addr a" "v \<noteq> 0" for i r a v
    using that assms(1,4) c validateCurrency_registered [OF assms(1) tok assms(3)]
    by (auto simp: op_moves_def native_account_def go_simps base58_ok_def env_ok_def ti_isNative_def ci_isNative_def)
  have "follows ?credit ?debit" by (simp add: follows_def wrap64_def)
  moreover have "op_moves E s ?debit (ti_from x) (- ti_amount x) info" "op_moves E s ?credit (ti_to x) (ti_amount x) info"
    using assms(5-7) by (intro moves; simp)+
  moreover have "ti_from x \<noteq> ADDRESS_EMPTY"
    using assms(9) native_addrs(4) [OF assms(1)] by (simp add: ADDRESS_EMPTY_def)
  ultimately have "transfer_intent E s ?debit ?credit x"
    unfolding transfer_intent_def using assms(4,7,8) c(1) [symmetric] by blast
  moreover have "drop (length ops) (appendOperations E ops x st) = [?debit, ?credit]"
    using assms(8-10) by (simp add: appendOperations_def Let_def)
  ultimately show ?thesis by (simp add: validateOps_Some_2)
qed

section \<open>Properties\<close>

text \<open>C9: two operations are accepted exactly when they are the two sides of a transfer: same
  registered currency, opposite non-zero amounts on well-formed accounts, one naming the other
  as its predecessor, a sender that is not the null address. The transfer returned goes from
  the debited to the credited account. Everything else is an API error about the intent or the
  currency; the code panics only when the request holds a null operation.\<close>

theorem validateOps_exact:
  "case validateOps E s ops of
     Ok x \<Rightarrow> \<exists>a b. ops = Some [Some a, Some b] \<and> (transfer_intent E s a b x \<or> transfer_intent E s b a x)
   | Err e \<Rightarrow> err_code e \<in> {411, 407, 201} \<and>
       (\<nexists>a b x. ops = Some [Some a, Some b] \<and> (transfer_intent E s a b x \<or> transfer_intent E s b a x))
   | Panic \<Rightarrow> \<exists>os. ops = Some os \<and> None \<in> set os"
  using validateOps_Ok_iff [of E s ops] validateOps_errs [of E s ops] validateOps_panic [of E s ops]
  by (cases "validateOps E s ops") auto

text \<open>The operations the server reports for a transfer between two accounts (in a block, in
  the mempool or for a parsed transaction) are read back by the construction API as that very
  transfer, whatever operations come before them in the list.\<close>

theorem transfer_operations_read_back:
  assumes "env_ok E" "toks_wf E (tokens s)" "tokens s (ti_contract x) = Some info" "ti_currency x = ci_currency info"
    and "is_addr (ti_from x)" "is_addr (ti_to x)" "0 < ti_amount x" "\<not> ti_isGas x"
    and "ti_from x \<noteq> nullAddr E" "ti_to x \<noteq> nullAddr E"
  shows "validateOps E s (Some (map Some (drop (length ops) (appendOperations E ops x st)))) = Ok x"
  using assms by (rule validateOps_own_operations)

definition pay0 :: transferInfo where
  "pay0 = \<lparr>ti_amount = 70, ti_contract = ongAddr env0,
     ti_currency = ci_currency (native_currency env0 (ongAddr env0) 18 ''ONG''),
     ti_from = alice, ti_isGas = False, ti_to = bob\<rparr>"

lemma ong_registered:
  "make_tokens env0 [] (ongAddr env0) = Some (native_currency env0 (ongAddr env0) 18 ''ONG'')"
  by (simp add: make_tokens_def native_tokens_def)

lemma alice_bob: "is_addr alice" "is_addr bob" "alice \<noteq> nullAddr env0" "bob \<noteq> nullAddr env0" "alice \<noteq> bob"
  by (simp_all add: alice_def bob_def is_addr_def native_addrs)

theorem transfer_operations_read_back_witness:
  "validateOps env0 (store0 \<lparr>tokens := make_tokens env0 []\<rparr>)
     (Some (map Some (appendOperations env0 [] pay0 True))) = Ok pay0"
proof -
  have "toks_wf env0 (make_tokens env0 [])" by (rule toks_wf_make_tokens) simp_all
  then show ?thesis
    using transfer_operations_read_back [of env0 "store0 \<lparr>tokens := make_tokens env0 []\<rparr>" pay0 _ "[]" True]
      ong_registered alice_bob by (simp add: pay0_def)
qed

end
