(* ===== verification/Request_Fields.thy ===== *)
theory Request_Fields
  imports Intent Payload
begin

text \<open>
  What the construction endpoints read from a request's metadata and from the node
  (src/services/construction_service.go): \<^verbatim>\<open>getUint64Field\<close>, \<^verbatim>\<open>getPayer\<close>, \<^verbatim>\<open>getContract\<close>,
  \<^verbatim>\<open>decodeProtobuf\<close> and \<^verbatim>\<open>getGasPrice\<close>.
\<close>

section \<open>Numbers\<close>

type_synonym metadata = "(string \<rightharpoonup> jval) option"

text \<open>Reading a nil map is reading an empty one.\<close>

definition md_get :: "metadata \<Rightarrow> string \<Rightarrow> jval option" where
  "md_get md field = (case md of None \<Rightarrow> None | Some m \<Rightarrow> m field)"

fun bit_len :: "nat \<Rightarrow> nat" where
  "bit_len n = (if n = 0 then 0 else Suc (bit_len (n div 2)))"

declare bit_len.simps [simp del]

text \<open>
  \<^verbatim>\<open>float64(v)\<close> of a \<^verbatim>\<open>uint64\<close>: to the nearest number of 53 significant bits, ties to even.
\<close>

definition round53 :: "nat \<Rightarrow> nat" where
  "round53 n =
     (if n < 2 ^ 53 then n
      else
        let e = bit_len n - 53; q = n div 2 ^ e; r = n mod 2 ^ e
        in (if 2 * r > 2 ^ e \<or> 2 * r = 2 ^ e \<and> odd q then q + 1 else q) * 2 ^ e)"

definition float_of_u64 :: "u64 \<Rightarrow> float64" where
  "float_of_u64 v = FIntegral (int (round53 (unat v)))"

text \<open>
  \<^verbatim>\<open>uint64(raw)\<close> truncates; outside the range of \<^verbatim>\<open>uint64\<close> the language leaves the result to the
  machine, so the conversion is an argument.
\<close>

definition cast_ok :: "(float64 \<Rightarrow> u64) \<Rightarrow> bool" where
  "cast_ok cast \<longleftrightarrow>
     (\<forall>i. 0 \<le> i \<and> i < 2 ^ 64 \<longrightarrow> cast (FIntegral i) = of_int i \<and> cast (FFractional i) = of_int i)"

fun jtype :: "jval \<Rightarrow> string" where
  "jtype (JString s) = ''string''"
| "jtype (JFloat f) = ''float64''"
| "jtype (JOther t) = t"

definition getUint64Field ::
  "env \<Rightarrow> (float64 \<Rightarrow> u64) \<Rightarrow> metadata \<Rightarrow> string \<Rightarrow> (go_error, u64) res" where
  "getUint64Field E cast md field =
     (case md_get md field of
        None \<Rightarrow> Ok 0
      | Some (JFloat raw) \<Rightarrow>
          (let v = cast raw in
           if float_of_u64 v \<noteq> raw then
             Err (Errorf ''services: cannot accurately cast metadata.%s value to uint64: %v'' [ArgStr field])
           else if field = ''gas_limit'' then
             (let v = (if v = 0 then minGasLimit E else v) in
              if v < minGasLimit E then
                Err (Errorf ''services: gas limit of %d is below the minimum value of %d''
                  [ArgInt (uint v), ArgInt (uint (minGasLimit E))])
              else Ok v)
           else if field = ''gas_price'' then Ok defaultGasPrice
           else if field = ''nonce'' then
             (if v > 4294967295 then
                Err (Errorf ''services: nonce value %d is outside the uint32 range'' [ArgInt (uint v)])
              else Ok v)
           else Ok v)
      | Some val \<Rightarrow> Err (Errorf ''services: unexpected datatype for metadata.%s: %s'' [ArgStr field, ArgStr (jtype val)]))"

section \<open>Addresses and options\<close>

definition getPayer :: "env \<Rightarrow> metadata \<Rightarrow> (xerror, address) res" where
  "getPayer E md =
     (case md_get md ''payer'' of
        None \<Rightarrow> Ok ADDRESS_EMPTY
      | Some (JString raw) \<Rightarrow>
          (case AddressFromBase58 E raw of
             Inl err \<Rightarrow> Err (wrapErr errInvalidPayerAddress
               (Errorf ''services: unable to parse metadata.payer: %s'' [ArgErr (ExtError err)]))
           | Inr addr \<Rightarrow> Ok addr)
      | Some val \<Rightarrow> Err (wrapErr errInvalidPayerAddress
          (Errorf ''services: unexpected datatype for metadata.payer: %s'' [ArgStr (jtype val)])))"

definition getContract :: "env \<Rightarrow> 'db store \<Rightarrow> metadata \<Rightarrow> (xerror, string) res" where
  "getContract E s md =
     (case md_get md ''contract'' of
        None \<Rightarrow> Ok []
      | Some (JString raw) \<Rightarrow>
          (case AddressFromHexString E raw of
             Inl err \<Rightarrow> Err (wrapErr errInvalidContractAddress
               (Errorf ''services: unable to parse metadata.contract: %s'' [ArgErr (ExtError err)]))
           | Inr addr \<Rightarrow> bind_res (getCurrencyInfo s addr) (\<lambda>_. Ok (ToHexString E addr)))
      | Some val \<Rightarrow> Err (wrapErr errInvalidContractAddress
          (Errorf ''services: unexpected datatype for metadata.contract: %s'' [ArgStr (jtype val)])))"

text \<open>\<^verbatim>\<open>hex.DecodeString\<close> reports the offending byte or the odd length; the text is left open.\<close>

definition decodeProtobuf :: "codec \<Rightarrow> metadata \<Rightarrow> (xerror, construct_options) res" where
  "decodeProtobuf C md =
     (case md_get md ''protobuf'' of
        None \<Rightarrow> Err (wrapErr errProtobuf (Errorf ''services: protobuf metadata field is missing'' []))
      | Some (JString raw) \<Rightarrow>
          (case hex_decode raw of
             None \<Rightarrow> Err (wrapErr errProtobuf (ExtError ''encoding/hex: invalid input''))
           | Some val \<Rightarrow>
               (case UnmarshalOptions C val of
                  Inl err \<Rightarrow> Err (wrapErr errProtobuf (ExtError err))
                | Inr m \<Rightarrow> Ok m))
      | Some val \<Rightarrow> Err (wrapErr errProtobuf (Errorf ''services: protobuf metadata field is not a string'' [])))"

section \<open>The gas price of the chain\<close>

text \<open>
  What the node answers: its height, the transactions root of a header, and the gas prices
  of the transactions of a block. A header and a block may be nil without an error (\<open>None\<close>), as
  the node may answer for a height it does not have; the code then dereferences nil.
\<close>

record gas_node =
  gn_height :: u32
  gn_root :: "u32 \<Rightarrow> string + hash256 option"
  gn_prices :: "u32 \<Rightarrow> string + u64 list option"

text \<open>The sum wraps around, and a block without transactions divides by zero.\<close>

definition block_gas_price :: "string + u64 list option \<Rightarrow> (go_error, u64) res" where
  "block_gas_price b =
     (case b of
        Inl err \<Rightarrow> Err (ExtError err)
      | Inr None \<Rightarrow> Panic
      | Inr (Some prices) \<Rightarrow>
          if prices = [] then Panic else Ok (foldl (+) 0 prices div of_nat (length prices)))"

text \<open>\<^verbatim>\<open>err == nil && hdr.TransactionsRoot != common.UINT256_EMPTY\<close>\<close>

definition found :: "gas_node \<Rightarrow> u32 \<Rightarrow> (go_error, bool) res" where
  "found N height =
     (case gn_root N height of
        Inl err \<Rightarrow> Ok False
      | Inr None \<Rightarrow> Panic
      | Inr (Some root) \<Rightarrow> Ok (root \<noteq> UINT256_EMPTY))"

text \<open>\<^verbatim>\<open>for height := start; height >= end; height--\<close> on \<^verbatim>\<open>uint32\<close>: below 0 comes \<open>2 ^ 32 - 1\<close>.\<close>

partial_function (option) gas_loop :: "gas_node \<Rightarrow> u32 \<Rightarrow> u32 \<Rightarrow> (go_error, u64) res option" where
  "gas_loop N stop height =
     (if height \<ge> stop then
        (case found N height of
           Ok b \<Rightarrow> if b then Some (block_gas_price (gn_prices N height)) else gas_loop N stop (height - 1)
         | Err err \<Rightarrow> Some (Err err)
         | Panic \<Rightarrow> Some Panic)
      else Some (Ok 0))"

definition gas_stop :: "u32 \<Rightarrow> u32" where
  "gas_stop start = (if start > 100 then start - 100 else 0)"

definition getGasPrice :: "gas_node \<Rightarrow> (go_error, u64) res option" where
  "getGasPrice N = gas_loop N (gas_stop (gn_height N)) (gn_height N)"

section \<open>Lemmas\<close>

lemma round53_small [simp]: "n < 2 ^ 53 \<Longrightarrow> round53 n = n"
  by (simp add: round53_def)

lemma cast_in_range:
  "cast_ok cast \<Longrightarrow> 0 \<le> i \<Longrightarrow> i < 2 ^ 64 \<Longrightarrow> uint (cast (FIntegral i)) = i"
  by (simp add: cast_ok_def word_of_int_inverse)

lemma float_of_u64_neq_frac [simp]: "float_of_u64 v \<noteq> FFractional i"
  by (simp add: float_of_u64_def)

lemma float_of_cast:
  assumes "cast_ok cast" "0 \<le> i" "i < 2 ^ 64" "round53 (nat i) = nat i"
  shows "float_of_u64 (cast (FIntegral i)) = FIntegral i"
  using assms cast_in_range [OF assms(1-3)] by (simp add: float_of_u64_def unat_eq_nat_uint)

lemma getPayer_errs [errs_intros]: "errs_in {412} (getPayer E md)"
  by (simp add: getPayer_def errInvalidPayerAddress_def wrapErr_def mk_error_def split: option.split jval.split sum.split)

lemma getPayer_addr: "env_ok E \<Longrightarrow> getPayer E md = Ok a \<Longrightarrow> is_addr a"
  by (auto simp: getPayer_def env_ok_def base58_ok_def ADDRESS_EMPTY_def is_addr_def
      split: option.splits jval.splits sum.splits)

lemma decodeProtobuf_errs [errs_intros]: "errs_in {306} (decodeProtobuf C md)"
  by (simp add: decodeProtobuf_def errProtobuf_def wrapErr_def mk_error_def split: option.split jval.split sum.split)

lemma field_reads_safe [simp]:
  "getPayer E md \<noteq> Panic" "getContract E s md \<noteq> Panic" "decodeProtobuf C md \<noteq> Panic" "getUint64Field E cast md f \<noteq> Panic"
  by (simp_all add: getPayer_def getContract_def decodeProtobuf_def getUint64Field_def getCurrencyInfo_def Let_def res_simps
      split: option.split jval.split sum.split)

subsection \<open>The walk down the headers\<close>

text \<open>The loop passes a height whose header is an error, or the header of a block without transactions.\<close>

definition passed :: "gas_node \<Rightarrow> u32 \<Rightarrow> bool" where
  "passed N h \<longleftrightarrow> (\<exists>e. gn_root N h = Inl e) \<or> gn_root N h = Inr (Some UINT256_EMPTY)"

lemma found_passed: "found N h = Ok False \<longleftrightarrow> passed N h"
  by (auto simp: found_def passed_def split: sum.split option.split)

lemma found_cases: "found N h = Ok False \<or> found N h = Ok True \<or> found N h = Panic"
  by (auto simp: found_def split: sum.split option.split)

text \<open>How the loop ends at a height that it does not pass.\<close>

definition gas_at :: "gas_node \<Rightarrow> u32 \<Rightarrow> (go_error, u64) res" where
  "gas_at N h = bind_res (found N h) (\<lambda>_. block_gas_price (gn_prices N h))"

lemma gas_loop_skip:
  "(\<forall>j<k. stop \<le> h - of_nat j \<and> passed N (h - of_nat j)) \<Longrightarrow> gas_loop N stop h = gas_loop N stop (h - of_nat k)"
proof (induction k)
  case (Suc k)
  have "gas_loop N stop h = gas_loop N stop (h - of_nat k)" using Suc by simp
  also have "\<dots> = gas_loop N stop (h - of_nat k - 1)"
    using Suc.prems found_passed [of N "h - of_nat k"] by (subst gas_loop.simps) simp
  finally show ?case by (simp add: algebra_simps)
qed simp

lemma gas_loop_hit:
  "stop \<le> h \<Longrightarrow> \<not> passed N h \<Longrightarrow> gas_loop N stop h = Some (gas_at N h)"
  using found_cases [of N h] found_passed [of N h] by (subst gas_loop.simps) (auto simp: gas_at_def)

lemma gas_loop_below: "h < stop \<Longrightarrow> gas_loop N stop h = Some (Ok 0)"
  by (subst gas_loop.simps) (auto dest: leD)

lemma gas_loop_diverges:
  assumes "\<forall>h. passed N h"
  shows "gas_loop N 0 h = None"
proof (rule ccontr)
  assume "gas_loop N 0 h \<noteq> None"
  then obtain r where r: "gas_loop N 0 h = Some r" by blast
  have "\<not> ((\<forall>h. found N h = Ok False) \<and> (0 :: u32) = 0)"
    by (rule gas_loop.raw_induct [where P = "\<lambda>N stop h r. \<not> ((\<forall>h. found N h = Ok False) \<and> stop = 0)", OF _ r])
      fastforce
  with assms show False by (simp add: found_passed)
qed

text \<open>Walking down from \<open>h\<close>, every height comes up in at most \<open>2 ^ 32\<close> steps.\<close>

lemma first_stop:
  assumes "\<not> passed N h'"
  obtains k where "\<not> passed N (h - of_nat k)" "\<forall>j<k. passed N (h - of_nat j)"
proof -
  have "\<not> passed N (h - of_nat (unat (h - h')))" using assms by simp
  then show thesis
    using that LeastI [of "\<lambda>k. \<not> passed N (h - of_nat k)"] not_less_Least [of _ "\<lambda>k. \<not> passed N (h - of_nat k)"] by blast
qed

lemma down_within:
  assumes "stop \<le> (h :: u32)" "k \<le> unat (h - stop)"
  shows "stop \<le> h - of_nat k" "unat (h - of_nat k) = unat h - k"
proof -
  have "unat (h - stop) = unat h - unat stop" using assms(1) by (simp add: unat_sub)
  then have k: "k + unat stop \<le> unat h" using assms by (simp add: word_le_nat_alt)
  then have u: "unat (of_nat k :: u32) = k"
    using unat_u32_less [of h] by (intro unat_of_nat_u32) linarith
  then have "of_nat k \<le> h" using k by (simp add: word_le_nat_alt)
  then show "unat (h - of_nat k) = unat h - k" using u by (simp add: unat_sub)
  then show "stop \<le> h - of_nat k" using k by (simp add: word_le_nat_alt)
qed

lemma gas_stop_le: "gas_stop start \<le> start" "unat (start - gas_stop start) = min 100 (unat start)"
  by (auto simp: gas_stop_def word_less_nat_alt word_le_nat_alt unat_sub_if')

text \<open>The loop comes to the first height that it does not pass, if this is in its window.\<close>

lemma gas_loop_first:
  assumes "unat h \<le> unat start" "unat start \<le> unat h + 100" "\<not> passed N h"
    and "\<forall>k. unat h < unat k \<and> unat k \<le> unat start \<longrightarrow> passed N k"
  shows "gas_loop N (gas_stop start) start = Some (gas_at N h)"
proof -
  let ?n = "unat start - unat h"
  have n: "?n \<le> unat (start - gas_stop start)" using assms(1,2) gas_stop_le(2) [of start] by linarith
  have down: "gas_stop start \<le> start - of_nat j" "unat (start - of_nat j) = unat start - j" if "j \<le> ?n" for j
    using down_within [OF gas_stop_le(1) [of start], of j] that n by auto
  have h: "start - of_nat ?n = h" using down(2) [of ?n] assms(1) by (simp add: word_unat_eq_iff)
  have "passed N (start - of_nat j)" if "j < ?n" for j
    using assms(4) down(2) [of j] that by simp
  then have "gas_loop N (gas_stop start) start = gas_loop N (gas_stop start) (start - of_nat ?n)"
    using down(1) by (intro gas_loop_skip) simp
  then show ?thesis using gas_loop_hit [OF _ assms(3)] down(1) [of ?n] unfolding h by simp
qed

text \<open>On a long chain it leaves the window when it passes all of it.\<close>

lemma gas_loop_long:
  assumes "100 < start" "\<forall>k. unat start \<le> unat k + 100 \<and> unat k \<le> unat start \<longrightarrow> passed N k"
  shows "gas_loop N (gas_stop start) start = Some (Ok 0)"
proof -
  have start: "100 < unat start" using assms(1) by (simp add: word_less_nat_alt)
  have down: "gas_stop start \<le> start - of_nat j" "unat (start - of_nat j) = unat start - j" if "j \<le> 100" for j
    using down_within [OF gas_stop_le(1) [of start], of j] that gas_stop_le(2) [of start] start by auto
  have "passed N (start - of_nat j)" if "j < 101" for j
    using assms(2) down(2) [of j] that start by simp
  then have "gas_loop N (gas_stop start) start = gas_loop N (gas_stop start) (start - of_nat 101)"
    using down(1) by (intro gas_loop_skip) simp
  moreover have "start - of_nat 101 < gas_stop start"
    using start assms(1) by (simp add: gas_stop_def word_less_nat_alt unat_sub_if')
  ultimately show ?thesis by (simp add: gas_loop_below)
qed

lemma gas_loop_long_returns:
  assumes "100 < start"
  shows "\<exists>r. gas_loop N (gas_stop start) start = Some r"
proof (cases "\<exists>k. k \<le> 100 \<and> \<not> passed N (start - of_nat k)")
  case True
  define k where "k = (LEAST k. k \<le> 100 \<and> \<not> passed N (start - of_nat k))"
  have k: "k \<le> 100" "\<not> passed N (start - of_nat k)" using LeastI_ex [OF True] by (simp_all add: k_def)
  have before: "passed N (start - of_nat j)" if "j < k" for j
    using not_less_Least [of j "\<lambda>k. k \<le> 100 \<and> \<not> passed N (start - of_nat k)"] that k(1) by (auto simp: k_def)
  have down: "gas_stop start \<le> start - of_nat j" if "j \<le> 100" for j
    using down_within(1) [OF gas_stop_le(1) [of start], of j] that gas_stop_le(2) [of start] assms
    by (simp add: word_less_nat_alt)
  have "gas_loop N (gas_stop start) start = gas_loop N (gas_stop start) (start - of_nat k)"
    using before down k(1) by (intro gas_loop_skip) simp
  then show ?thesis using gas_loop_hit [OF down [OF k(1)] k(2)] by simp
next
  case False
  have "passed N k" if "unat start \<le> unat k + 100" "unat k \<le> unat start" for k
  proof -
    have "start - of_nat (unat start - unat k) = k" using that by (simp add: of_nat_diff)
    then show ?thesis using False that by (metis add.commute le_diff_conv)
  qed
  then show ?thesis using gas_loop_long [OF assms] by blast
qed

lemma foldl_sum_u64: "foldl (+) (w :: u64) ps = w + of_nat (sum_list (map unat ps))"
  by (induction ps arbitrary: w) (simp_all add: algebra_simps)

lemma mean_u64:
  assumes "length ps < 2 ^ 63"
  shows "foldl (+) (0 :: u64) ps div of_nat (length ps) = of_nat (sum_list (map unat ps) mod 2 ^ 64 div length ps)"
proof -
  let ?s = "sum_list (map unat ps)"
  have "unat (of_nat (length ps) :: u64) = length ps" using assms by (simp add: unat_of_nat)
  moreover have "unat (foldl (+) (0 :: u64) ps) = ?s mod 2 ^ 64" by (simp add: foldl_sum_u64 unat_of_nat)
  ultimately have "unat (foldl (+) (0 :: u64) ps div of_nat (length ps)) = ?s mod 2 ^ 64 div length ps"
    by (simp only: unat_div)
  then show ?thesis by (metis of_nat_unat ucast_id)
qed

section \<open>Properties\<close>


text \<open>A chain of four blocks without transactions, of a node that answers nil above its tip.\<close>

definition gas_short :: gas_node where
  "gas_short = \<lparr>gn_height = 3, gn_root = (\<lambda>h. Inr (if h \<le> 3 then Some UINT256_EMPTY else None)),
     gn_prices = (\<lambda>h. Inr (Some []))\<rparr>"


text \<open>C32: let the block at \<open>h\<close> have transactions, be at most 100 heights below the tip, and let the
  heights after it, up to the tip, be passed over (an error, or the header of a block without
  transactions). Then the gas price is the mean of the prices of its transactions: their sum in
  \<^verbatim>\<open>uint64\<close> divided by their number, rounded down. A block that cannot be read is an error; a
  nil block, and one without transactions against its header, panic. On a chain higher than
  100 where all of the last 101 heights are passed over the price is 0.\<close>

theorem getGasPrice_recent:
  "(\<forall>h root. unat h \<le> unat (gn_height N) \<longrightarrow> unat (gn_height N) \<le> unat h + 100 \<longrightarrow>
      gn_root N h = Inr (Some root) \<longrightarrow> root \<noteq> UINT256_EMPTY \<longrightarrow>
      (\<forall>k. unat h < unat k \<and> unat k \<le> unat (gn_height N) \<longrightarrow> passed N k) \<longrightarrow>
      (\<forall>ps. gn_prices N h = Inr (Some ps) \<longrightarrow> length ps < 2 ^ 63) \<longrightarrow>
      getGasPrice N = Some (case gn_prices N h of
          Inl err \<Rightarrow> Err (ExtError err)
        | Inr None \<Rightarrow> Panic
        | Inr (Some ps) \<Rightarrow> if ps = [] then Panic else Ok (of_nat (sum_list (map unat ps) mod 2 ^ 64 div length ps)))) \<and>
   (100 < gn_height N \<longrightarrow>
      (\<forall>k. unat (gn_height N) \<le> unat k + 100 \<and> unat k \<le> unat (gn_height N) \<longrightarrow> passed N k) \<longrightarrow>
      getGasPrice N = Some (Ok 0))"
proof (intro conjI allI impI)
  fix h root
  assume h: "unat h \<le> unat (gn_height N)" "unat (gn_height N) \<le> unat h + 100"
    "\<forall>k. unat h < unat k \<and> unat k \<le> unat (gn_height N) \<longrightarrow> passed N k"
    and root: "gn_root N h = Inr (Some root)" "root \<noteq> UINT256_EMPTY"
    and len: "\<forall>ps. gn_prices N h = Inr (Some ps) \<longrightarrow> length ps < 2 ^ 63"
  have "\<not> passed N h" "gas_at N h = block_gas_price (gn_prices N h)"
    using root by (simp_all add: passed_def gas_at_def found_def)
  then have "getGasPrice N = Some (block_gas_price (gn_prices N h))"
    using gas_loop_first [OF h(1,2) _ h(3)] by (simp add: getGasPrice_def)
  then show "getGasPrice N = Some (case gn_prices N h of
      Inl err \<Rightarrow> Err (ExtError err)
    | Inr None \<Rightarrow> Panic
    | Inr (Some ps) \<Rightarrow> if ps = [] then Panic else Ok (of_nat (sum_list (map unat ps) mod 2 ^ 64 div length ps)))"
    using len mean_u64 by (auto simp: block_gas_price_def split: sum.split option.split)
qed (simp add: getGasPrice_def gas_loop_long)

definition gas_node0 :: gas_node where
  "gas_node0 = \<lparr>gn_height = 3, gn_root = (\<lambda>h. Inr (Some (if h = 2 then replicate 32 7 else UINT256_EMPTY))),
     gn_prices = (\<lambda>h. Inr (Some [2500, 3500, 3500]))\<rparr>"

theorem getGasPrice_recent_witness: "getGasPrice gas_node0 = Some (Ok 3166)"
proof -
  have "gn_root gas_node0 2 = Inr (Some (replicate 32 7))" "replicate 32 (7 :: byte) \<noteq> UINT256_EMPTY"
    by (simp_all add: gas_node0_def UINT256_EMPTY_def)
  moreover have "passed gas_node0 k" if "unat (2 :: u32) < unat k" for k
    using that by (auto simp: gas_node0_def passed_def)
  moreover have "gn_height gas_node0 = 3" "gn_prices gas_node0 2 = Inr (Some [2500, 3500, 3500])"
    by (simp_all add: gas_node0_def)
  ultimately show ?thesis
    using getGasPrice_recent [THEN conjunct1, rule_format, of 2 gas_node0 "replicate 32 7"] by simp
qed

text \<open>A whole number in the metadata is taken as it is: a gas limit from the minimum on
  (zero stands for the minimum), a nonce that fits 32 bits, so that the conversion that follows
  keeps it. The gas price is the exception: any number is accepted and replaced by 2500. A
  number with a fraction is refused for every field.\<close>

lemma getUint64Field_numbers:
  assumes "cast_ok cast" "0 \<le> i" "i < 2 ^ 64" "round53 (nat i) = nat i"
  shows "(getUint64Field E cast (Some [''gas_limit'' \<mapsto> JFloat (FIntegral i)]) ''gas_limit'' = Ok v \<longleftrightarrow>
      (i = 0 \<and> v = minGasLimit E \<or> i \<noteq> 0 \<and> uint (minGasLimit E) \<le> i \<and> v = of_int i)) \<and>
    (getUint64Field E cast (Some [''nonce'' \<mapsto> JFloat (FIntegral i)]) ''nonce'' = Ok v \<longleftrightarrow>
      i < 2 ^ 32 \<and> v = of_int i \<and> uint (ucast v :: u32) = i) \<and>
    getUint64Field E cast (Some [''gas_price'' \<mapsto> JFloat (FIntegral i)]) ''gas_price'' = Ok 2500 \<and>
    (\<exists>e. getUint64Field E cast (Some [f \<mapsto> JFloat (FFractional n)]) f = Err e)"
proof -
  let ?v = "cast (FIntegral i)"
  have fl: "float_of_u64 ?v = FIntegral i" and u: "uint ?v = i" "?v = of_int i"
    using float_of_cast [OF assms] cast_in_range [OF assms(1-3)] assms(1-3) by (simp_all add: cast_ok_def)
  have z: "?v = 0 \<longleftrightarrow> i = 0" using u(1) by (metis uint_0_iff)
  have lt: "?v < minGasLimit E \<longleftrightarrow> i < uint (minGasLimit E)" using u(1) by (simp add: word_less_def)
  have "?v > 4294967295 \<longleftrightarrow> 2 ^ 32 \<le> i" using u(1) by (simp add: word_less_def) linarith
  moreover have "uint (ucast ?v :: u32) = i" if "i < 2 ^ 32"
    using that assms(2) u(1) by (simp add: unsigned_ucast_eq take_bit_int_eq_self)
  ultimately have "getUint64Field E cast (Some [''nonce'' \<mapsto> JFloat (FIntegral i)]) ''nonce'' = Ok v \<longleftrightarrow>
      i < 2 ^ 32 \<and> v = of_int i \<and> uint (ucast v :: u32) = i"
    by (auto simp: getUint64Field_def md_get_def fl Let_def u(2) [symmetric])
  moreover have "getUint64Field E cast (Some [''gas_limit'' \<mapsto> JFloat (FIntegral i)]) ''gas_limit'' = Ok v \<longleftrightarrow>
      (i = 0 \<and> v = minGasLimit E \<or> i \<noteq> 0 \<and> uint (minGasLimit E) \<le> i \<and> v = of_int i)"
    using z lt by (auto simp: getUint64Field_def md_get_def fl Let_def u(2) [symmetric])
  ultimately show ?thesis
    by (auto simp: getUint64Field_def md_get_def fl Let_def defaultGasPrice_def)
qed

definition cast0 :: "float64 \<Rightarrow> u64" where
  "cast0 f = (case f of FIntegral i \<Rightarrow> of_int i | FFractional i \<Rightarrow> of_int i)"

lemma cast_ok_cast0 [simp]: "cast_ok cast0"
  by (simp add: cast_ok_def cast0_def)

end
