(* ===== verification/Construction.thy ===== *)
theory Construction
  imports Request_Fields
begin

text \<open>
  The construction endpoints (src/services/construction_service.go) and the mempool endpoints
  (mempool_service.go). The node's transaction library is the record \<open>txlib\<close>: decoding and
  serialising transactions, signatures, and the builders of contract calls; \<open>txlib_ok\<close> and
  \<open>calls_ok\<close> are its documented behaviour.
\<close>

section \<open>Transactions\<close>

datatype tx_payload = NilPayload | NilInvoke | InvokeCode bytes | OtherPayload

record tx_sig =
  sig_M :: nat
  sig_PubKeys :: "bytes list"
  sig_SigData :: "bytes list"

text \<open>\<^verbatim>\<open>MutableTransaction\<close> and \<^verbatim>\<open>Transaction\<close>; the latter keeps its signatures encoded.\<close>

record mtxn =
  ct_GasLimit :: u64
  ct_GasPrice :: u64
  ct_Nonce :: u32
  ct_Payer :: address
  ct_Payload :: tx_payload
  ct_Sigs :: "tx_sig list"
  ct_TxType :: byte

record txn =
  tx_GasLimit :: u64
  tx_GasPrice :: u64
  tx_Nonce :: u32
  tx_Payer :: address
  tx_Payload :: tx_payload
  tx_Sigs :: "bytes list"
  tx_Hash :: hash256

record txlib =
  TransactionFromRawBytes :: "bytes \<Rightarrow> string + txn option"
  Serialization :: "txn \<Rightarrow> bytes"
  IntoMutable :: "txn \<Rightarrow> string + mtxn"
  IntoImmutable :: "mtxn \<Rightarrow> string + txn"
  TxHash :: "mtxn \<Rightarrow> hash256"
  GetSig :: "bytes \<Rightarrow> string + tx_sig"
  SerializeSig :: "bytes \<Rightarrow> string + bytes"
  Verify :: "bytes \<Rightarrow> bytes \<Rightarrow> bytes \<Rightarrow> bool"
  AddressFromPubKey :: "bytes \<Rightarrow> address"
  BuildNativeInvokeCode :: "address \<Rightarrow> byte \<Rightarrow> string \<Rightarrow> (address \<times> address \<times> int) list \<Rightarrow> string + bytes"
  BuildWasmVMInvokeCode :: "address \<Rightarrow> string \<Rightarrow> address \<times> address \<times> int \<Rightarrow> string + bytes"
  BuildNeoVMInvokeCode :: "address \<Rightarrow> string \<Rightarrow> address \<times> address \<times> int \<Rightarrow> string + bytes"
  InvokeNeo :: byte
  InvokeWasm :: byte
  AppendTxToPool :: "txn \<Rightarrow> (string \<times> string) option"

text \<open>
  An immutable transaction has the fields it was made of and the hash of its unsigned part,
  and survives serialisation and conversion; its signatures can be read back.
\<close>

definition same_fields :: "txn \<Rightarrow> mtxn \<Rightarrow> bool" where
  "same_fields t m \<longleftrightarrow>
     tx_GasLimit t = ct_GasLimit m \<and> tx_GasPrice t = ct_GasPrice m \<and> tx_Nonce t = ct_Nonce m \<and>
     tx_Payer t = ct_Payer m \<and> tx_Payload t = ct_Payload m"

definition txlib_ok :: "txlib \<Rightarrow> bool" where
  "txlib_ok T \<longleftrightarrow>
     (\<forall>m t. IntoImmutable T m = Inr t \<longrightarrow>
        same_fields t m \<and> tx_Hash t = TxHash T m \<and> Serialization T t \<noteq> [] \<and>
        TransactionFromRawBytes T (Serialization T t) = Inr (Some t) \<and>
        map (GetSig T) (tx_Sigs t) = map Inr (ct_Sigs m)) \<and>
     (\<forall>t m. IntoMutable T t = Inr m \<longrightarrow> same_fields t m \<and> TxHash T m = tx_Hash t) \<and>
     (\<forall>m sigs. TxHash T (m\<lparr>ct_Sigs := sigs\<rparr>) = TxHash T m)"

text \<open>The code the builders produce runs into the call they were asked for.\<close>

definition runs_to :: "('v, 's) neovm \<Rightarrow> bytes \<Rightarrow> payload_transfer \<Rightarrow> address \<Rightarrow> bool" where
  "runs_to V code x c \<longleftrightarrow>
     ex_result (vm_execute V code) = VmNotSupported \<and> call_denotes V (vm_execute V code) [x] c"

definition calls_ok :: "('v, 's) neovm \<Rightarrow> txlib \<Rightarrow> bool" where
  "calls_ok V T \<longleftrightarrow>
     (\<forall>c f t n code. is_addr c \<and> is_addr f \<and> is_addr t \<and> 0 \<le> n \<longrightarrow>
        (BuildNativeInvokeCode T c 0 ''transferV2'' [(f, t, n)] = Inr code \<longrightarrow> runs_to V code (xfer_of f t n) c) \<and>
        (BuildNeoVMInvokeCode T c ''transfer'' (f, t, n) = Inr code \<longrightarrow> c \<noteq> nilAddr \<longrightarrow>
           runs_to V code (xfer_of f t n) c))"

section \<open>Helpers of the handlers\<close>

definition decodeTransaction :: "txlib \<Rightarrow> string \<Rightarrow> (xerror, txn) res" where
  "decodeTransaction T data =
     (if data = [] then Err errInvalidTransactionPayload
      else
        (case hex_decode data of
           None \<Rightarrow> Err (wrapErr errInvalidTransactionPayload (ExtError ''encoding/hex: invalid input''))
         | Some raw \<Rightarrow>
             (case TransactionFromRawBytes T raw of
                Inl err \<Rightarrow> Err (wrapErr errInvalidTransactionPayload (ExtError err))
              | Inr None \<Rightarrow> Err (wrapErr errInvalidTransactionPayload (Errorf ''transaction is nil when decoded'' []))
              | Inr (Some txn) \<Rightarrow> Ok txn)))"

text \<open>The code of the call, by the kind of contract, and the type of the transaction.\<close>

definition invoke_code ::
  "env \<Rightarrow> txlib \<Rightarrow> currencyInfo \<Rightarrow> address \<Rightarrow> address \<times> address \<times> int \<Rightarrow> (string + bytes) \<times> byte" where
  "invoke_code E T cinfo contract params =
     (if ci_isNative E cinfo then
        (BuildNativeInvokeCode T contract 0 ''transferV2'' [params], InvokeNeo T)
      else if ci_wasm cinfo then (BuildWasmVMInvokeCode T contract ''transfer'' params, InvokeWasm T)
      else (BuildNeoVMInvokeCode T contract ''transfer'' params, InvokeNeo T))"

text \<open>A library's error, passed on unchanged.\<close>

definition lib :: "string + 'a \<Rightarrow> (go_error, 'a) res" where
  "lib r = (case r of Inl e \<Rightarrow> Err (ExtError e) | Inr a \<Rightarrow> Ok a)"

definition constructTransfer ::
  "env \<Rightarrow> txlib \<Rightarrow> 'db store \<Rightarrow> construct_options \<Rightarrow> (go_error, txn) res" where
  "constructTransfer E T s opts =
     bind_res (lib (AddressParseFromBytes E (co_contract opts))) (\<lambda>contract.
     bind_res (lib (AddressParseFromBytes E (co_from opts))) (\<lambda>from.
     bind_res (lib (AddressParseFromBytes E (co_payer opts))) (\<lambda>payer.
     bind_res (lib (AddressParseFromBytes E (co_to opts))) (\<lambda>to.
     (case getCurrencyInfo s contract of
        Ok cinfo \<Rightarrow>
          (case invoke_code E T cinfo contract (from, to, big_set_bytes (co_amount opts)) of
             (Inl err, typ) \<Rightarrow> Err (Errorf ''services: unable to build transaction invoke code: %s'' [ArgErr (ExtError err)])
           | (Inr code, typ) \<Rightarrow>
               lib (IntoImmutable T
                 \<lparr>ct_GasLimit = co_gas_limit opts, ct_GasPrice = co_gas_price opts, ct_Nonce = co_nonce opts,
                  ct_Payer = payer, ct_Payload = InvokeCode code, ct_Sigs = [], ct_TxType = typ\<rparr>))
      | _ \<Rightarrow> Err (Errorf ''services: unable to find currency info for %s'' [ArgStr (ToHexString E contract)]))))))"

definition wrap_res :: "xerror \<Rightarrow> (go_error, 'a) res \<Rightarrow> (xerror, 'a) res" where
  "wrap_res xerr r = (case r of Ok a \<Rightarrow> Ok a | Err err \<Rightarrow> Err (wrapErr xerr err) | Panic \<Rightarrow> Panic)"

definition payload_ops :: "env \<Rightarrow> currencyInfo \<Rightarrow> address \<Rightarrow> payload_transfer list \<Rightarrow> operation list" where
  "payload_ops E info contract xfers =
     foldl (\<lambda>ops xfer. appendOperations E ops
         \<lparr>ti_amount = px_Amount xfer, ti_contract = contract, ti_currency = ci_currency info,
          ti_from = px_From xfer, ti_isGas = False, ti_to = px_To xfer\<rparr> False) [] xfers"

definition parsePayload ::
  "('v, 's) neovm \<Rightarrow> env \<Rightarrow> 'db store \<Rightarrow> tx_payload \<Rightarrow> (xerror, operation list \<times> currencyInfo) res" where
  "parsePayload V E s p =
     (case p of
        InvokeCode code \<Rightarrow>
          bind_res (wrap_res errInvalidTransactionPayload (ParsePayload V E code)) (\<lambda>(xfers, contract).
          bind_res (getCurrencyInfo s contract) (\<lambda>info.
          Ok (payload_ops E info contract xfers, info)))
      | _ \<Rightarrow> Err errInvalidTransactionPayload)"

definition txhash2response :: "env \<Rightarrow> hash256 \<Rightarrow> string" where
  "txhash2response E hash = Uint256ToHexString E hash"

section \<open>Preprocess, metadata, payloads\<close>

definition protobuf_map :: "bytes \<Rightarrow> metadata" where
  "protobuf_map enc = Some [''protobuf'' \<mapsto> JString (hex_encode enc)]"

definition marshal_options :: "codec \<Rightarrow> construct_options \<Rightarrow> (xerror, metadata) res" where
  "marshal_options C opts = bind_res (wrap_res errProtobuf (lib (MarshalOptions C opts))) (\<lambda>enc. Ok (protobuf_map enc))"

definition ConstructionPreprocess ::
  "env \<Rightarrow> codec \<Rightarrow> (float64 \<Rightarrow> u64) \<Rightarrow> 'db store \<Rightarrow> amount list \<Rightarrow> float64 option \<Rightarrow> metadata \<Rightarrow>
   operation option list option \<Rightarrow> (xerror, metadata) res" where
  "ConstructionPreprocess E C cast s max_fee multiplier md ops =
     (if max_fee \<noteq> [] then
        Err (wrapErr errInvalidRequestField (Errorf ''services: unsupported field: max_fee'' []))
      else if multiplier \<noteq> None then
        Err (wrapErr errInvalidRequestField (Errorf ''services: unsupported field: suggested_fee_multiplier'' []))
      else
        bind_res (wrap_res errInvalidGasLimit (getUint64Field E cast md ''gas_limit'')) (\<lambda>gasLimit.
        bind_res (wrap_res errInvalidGasPrice (getUint64Field E cast md ''gas_price'')) (\<lambda>gasPrice.
        bind_res (wrap_res errInvalidNonce (getUint64Field E cast md ''nonce'')) (\<lambda>nonce.
        bind_res (getPayer E md) (\<lambda>payer.
        bind_res (validateOps E s ops) (\<lambda>xfer.
        marshal_options C
          \<lparr>co_amount = big_bytes (ti_amount xfer), co_contract = ti_contract xfer, co_from = ti_from xfer,
           co_gas_limit = gasLimit, co_gas_price = gasPrice, co_nonce = ucast nonce,
           co_payer = (if payer = ADDRESS_EMPTY then ti_from xfer else payer), co_to = ti_to xfer\<rparr>))))))"

text \<open>
  A nonce is used when the unsigned transaction it gives is not in the index. \<open>rand i\<close> is the
  \<open>i\<close>-th read of eight random bytes.
\<close>

definition nonce_taken ::
  "env \<Rightarrow> txlib \<Rightarrow> 'db badger \<Rightarrow> 'db store \<Rightarrow> construct_options \<Rightarrow> (xerror, bool) res" where
  "nonce_taken E T B s opts =
     bind_res (wrap_res errInvalidConstructOptions (constructTransfer E T s opts)) (\<lambda>txn.
     checkUnsignedTxHash B s (tx_Hash txn))"

fun nonce_loop ::
  "env \<Rightarrow> txlib \<Rightarrow> 'db badger \<Rightarrow> 'db store \<Rightarrow> (nat \<Rightarrow> string + bytes) \<Rightarrow> nat \<Rightarrow> nat \<Rightarrow> construct_options \<Rightarrow>
   (xerror, construct_options) res" where
  "nonce_loop E T B s rand i 0 opts = Ok opts"
| "nonce_loop E T B s rand i (Suc n) opts =
     (case rand i of
        Inl err \<Rightarrow> Err errNonceGenerationFailed
      | Inr buf \<Rightarrow>
          if length buf \<noteq> 8 then Err errNonceGenerationFailed
          else
            bind_res (deref (le_get32 buf)) (\<lambda>nonce.
            bind_res (nonce_taken E T B s (opts\<lparr>co_nonce := nonce\<rparr>)) (\<lambda>exists.
            if \<not> exists then Ok (opts\<lparr>co_nonce := nonce\<rparr>)
            else nonce_loop E T B s rand (i + 1) n (opts\<lparr>co_nonce := nonce\<rparr>))))"

definition choose_nonce ::
  "env \<Rightarrow> txlib \<Rightarrow> 'db badger \<Rightarrow> 'db store \<Rightarrow> (nat \<Rightarrow> string + bytes) \<Rightarrow> construct_options \<Rightarrow>
   (xerror, construct_options) res" where
  "choose_nonce E T B s rand opts =
     (if co_nonce opts = 0 then
        bind_res (nonce_loop E T B s rand 0 100 opts) (\<lambda>opts.
        if co_nonce opts = 0 then Err errNonceGenerationFailed else Ok opts)
      else
        bind_res (nonce_taken E T B s opts) (\<lambda>exists.
        if exists then
          Err (wrapErr errInvalidNonce
            (Errorf ''a conflicting transaction hash already exists for nonce %d'' [ArgInt (uint (co_nonce opts))]))
        else Ok opts))"

definition fill_gas :: "env \<Rightarrow> (go_error, u64) res \<Rightarrow> construct_options \<Rightarrow> (xerror, construct_options) res" where
  "fill_gas E price opts =
     (if price = Panic then Panic
      else
        let opts = (if (case price of Ok p \<Rightarrow> p > co_gas_price opts | _ \<Rightarrow> False)
                    then opts\<lparr>co_gas_price := ok_val price\<rparr>
                    else if co_gas_price opts < defaultGasPrice then opts\<lparr>co_gas_price := defaultGasPrice\<rparr>
                    else opts)
        in Ok (if co_gas_limit opts < minGasLimit E then opts\<lparr>co_gas_limit := minGasLimit E\<rparr> else opts))"

text \<open>\<open>None\<close> is a request that never returns, because the search for a gas price does not.\<close>

definition ConstructionMetadata ::
  "env \<Rightarrow> txlib \<Rightarrow> codec \<Rightarrow> 'db badger \<Rightarrow> gas_node \<Rightarrow> (nat \<Rightarrow> string + bytes) \<Rightarrow> bool \<Rightarrow> 'db store \<Rightarrow> metadata \<Rightarrow>
   (xerror, metadata) res option" where
  "ConstructionMetadata E T C B N rand offline s options =
     (if offline then Some (Err errOfflineMode)
      else
        (case decodeProtobuf C options of
           Ok opts \<Rightarrow>
             (case getGasPrice N of
                None \<Rightarrow> None
              | Some price \<Rightarrow>
                  Some (bind_res (fill_gas E price opts) (\<lambda>opts.
                        bind_res (choose_nonce E T B s rand opts) (\<lambda>opts.
                        marshal_options C opts))))
         | Err xerr \<Rightarrow> Some (Err xerr)
         | Panic \<Rightarrow> Some Panic))"

record signing_payload =
  sp_account :: account_identifier
  sp_bytes :: bytes
  sp_type :: string

record payloads_response =
  pl_payloads :: "signing_payload list"
  pl_unsigned :: string

definition Ed25519 :: string where "Ed25519 = ''ed25519''"
definition Edwards25519 :: string where "Edwards25519 = ''edwards25519''"

definition ConstructionPayloads ::
  "env \<Rightarrow> txlib \<Rightarrow> codec \<Rightarrow> 'db store \<Rightarrow> metadata \<Rightarrow> operation option list option \<Rightarrow> (xerror, payloads_response) res" where
  "ConstructionPayloads E T C s md ops =
     bind_res (decodeProtobuf C md) (\<lambda>opts.
     bind_res (validateOps E s ops) (\<lambda>xfer.
     if co_amount opts \<noteq> big_bytes (ti_amount xfer) then
       Err (invalidConstructf ''amount does not match value from operations'' [])
     else if co_contract opts \<noteq> ti_contract xfer then
       Err (invalidConstructf ''contract does not match value from operations'' [])
     else if co_from opts \<noteq> ti_from xfer then
       Err (invalidConstructf ''from field does not match value from operations'' [])
     else if co_to opts \<noteq> ti_to xfer then
       Err (invalidConstructf ''to field does not match value from operations'' [])
     else
       bind_res (wrap_res errInvalidConstructOptions (constructTransfer E T s opts)) (\<lambda>txn.
       let acct = native_account E xfer (ti_from xfer);
           payload = \<lambda>acct. \<lparr>sp_account = acct, sp_bytes = tx_Hash txn, sp_type = Ed25519\<rparr>
       in Ok \<lparr>pl_payloads = [payload acct] @
                (if tx_Payer txn \<noteq> ti_from xfer then [payload (acct\<lparr>ai_address := ToBase58 E (tx_Payer txn)\<rparr>)] else []),
              pl_unsigned = hex_encode (Serialization T txn)\<rparr>)))"

section \<open>Combine, parse, derive, hash, submit\<close>

record signature =
  sg_PublicKey :: "(string \<times> bytes) option"
  sg_SignatureType :: string
  sg_SigningPayload :: "(bytes \<times> string) option"
  sg_Bytes :: bytes

text \<open>
  The body of the loop over the signatures. The message about an unsupported type reads the
  signing payload before the check that there is one.
\<close>

definition combine_signature :: "txlib \<Rightarrow> hash256 \<Rightarrow> signature \<Rightarrow> (xerror, tx_sig) res" where
  "combine_signature T hash sig =
     (case sg_PublicKey sig of
        None \<Rightarrow> Err errInvalidPublicKey
      | Some (curve, key) \<Rightarrow>
          if curve \<noteq> Edwards25519 then
            Err (wrapErr errInvalidPublicKey (Errorf ''services: unsupported key type: %q'' [ArgStr curve]))
          else if length key \<noteq> 32 then
            Err (wrapErr errInvalidPublicKey
              (Errorf ''services: invalid length for ed25519 public key: %d'' [ArgInt (int (length key))]))
          else if sg_SignatureType sig \<noteq> Ed25519 then
            bind_res (deref (sg_SigningPayload sig)) (\<lambda>payload.
            Err (wrapErr errInvalidSignature
              (Errorf ''services: unsupported signature type: %q'' [ArgStr (snd payload)])))
          else
            (case sg_SigningPayload sig of
               None \<Rightarrow> Err (wrapErr errInvalidSignature (Errorf ''services: signing_payload missing'' []))
             | Some payload \<Rightarrow>
                 if fst payload \<noteq> hash then
                   Err (wrapErr errInvalidSignature
                     (Errorf ''services: mismatching signing_payload.hex_bytes and transaction hash'' []))
                 else if \<not> Verify T key (fst payload) (sg_Bytes sig) then Err errInvalidSignature
                 else
                   bind_res (wrap_res errInvalidSignature (lib (SerializeSig T (sg_Bytes sig)))) (\<lambda>osig.
                   Ok \<lparr>sig_M = 1, sig_PubKeys = [key], sig_SigData = [osig]\<rparr>)))"

definition ConstructionCombine :: "txlib \<Rightarrow> string \<Rightarrow> signature option list \<Rightarrow> (xerror, string) res" where
  "ConstructionCombine T raw_tx sigs =
     bind_res (decodeTransaction T raw_tx) (\<lambda>txn.
     bind_res (wrap_res errInvalidTransactionPayload (lib (IntoMutable T txn))) (\<lambda>mut.
     if ct_Sigs mut \<noteq> [] then
       Err (wrapErr errInvalidTransactionPayload
         (Errorf ''services: unexpected signature found in unsigned transaction'' []))
     else if sigs = [] then Err errInvalidSignature
     else
       bind_res (map_res (\<lambda>sig. bind_res (deref sig) (combine_signature T (TxHash T mut))) sigs) (\<lambda>osigs.
       bind_res (wrap_res errInternal (lib (IntoImmutable T (mut\<lparr>ct_Sigs := ct_Sigs mut @ osigs\<rparr>)))) (\<lambda>txn.
       Ok (hex_encode (Serialization T txn))))))"

record parse_response =
  pr_signers :: "account_identifier list"
  pr_gas_limit :: u64
  pr_gas_price :: u64
  pr_nonce :: u32
  pr_payer :: string
  pr_operations :: "operation list"

definition parse_signer :: "env \<Rightarrow> txlib \<Rightarrow> currencyInfo \<Rightarrow> bytes \<Rightarrow> (xerror, account_identifier) res" where
  "parse_signer E T cinfo raw =
     (case GetSig T raw of
        Inl err \<Rightarrow> Err (wrapErr errInvalidTransactionPayload
          (Errorf ''services: failed to get signature from transaction data: %s'' [ArgErr (ExtError err)]))
      | Inr sig \<Rightarrow>
          if length (sig_PubKeys sig) \<noteq> 1 then
            Err (wrapErr errInvalidTransactionPayload
              (Errorf ''services: unexpected number of signatures in transaction data: %d''
                [ArgInt (int (length (sig_PubKeys sig)))]))
          else
            Ok \<lparr>ai_address = ToBase58 E (AddressFromPubKey T (sig_PubKeys sig ! 0)),
                ai_sub_account = (if \<not> ci_isNative E cinfo then Some (ToHexString E (ci_contract cinfo)) else None)\<rparr>)"

definition ConstructionParse ::
  "env \<Rightarrow> ('v, 's) neovm \<Rightarrow> txlib \<Rightarrow> 'db store \<Rightarrow> string \<Rightarrow> bool \<Rightarrow> (xerror, parse_response) res" where
  "ConstructionParse E V T s transaction is_signed =
     bind_res (decodeTransaction T transaction) (\<lambda>txn.
     bind_res (parsePayload V E s (tx_Payload txn)) (\<lambda>(ops, cinfo).
     if length ops \<noteq> 2 then
       Err (wrapErr errInternal
         (Errorf ''unexpected number of operations in transaction: %d'' [ArgInt (int (length ops))]))
     else if (case op_amount (ops ! 0) of None \<Rightarrow> True | Some am \<Rightarrow> am_value am = [] \<or> am_value am ! 0 \<noteq> CHR ''-'') then
       Err (wrapErr errInternal (Errorf ''unexpected \"transfer from\" operation in transaction: %v'' []))
     else
       bind_res
         (if is_signed then
            (if tx_Sigs txn = [] then
               Err (wrapErr errInvalidTransactionPayload
                 (Errorf ''services: signature(s) not present in signed transaction data'' []))
             else map_res (parse_signer E T cinfo) (tx_Sigs txn))
          else Ok [])
         (\<lambda>signers.
       Ok \<lparr>pr_signers = signers, pr_gas_limit = tx_GasLimit txn, pr_gas_price = tx_GasPrice txn,
           pr_nonce = tx_Nonce txn, pr_payer = ToBase58 E (tx_Payer txn), pr_operations = ops\<rparr>)))"

definition ConstructionDerive ::
  "env \<Rightarrow> txlib \<Rightarrow> 'db store \<Rightarrow> (string \<times> bytes) option \<Rightarrow> metadata \<Rightarrow> (xerror, account_identifier) res" where
  "ConstructionDerive E T s key md =
     (case key of
        None \<Rightarrow> Err errInvalidPublicKey
      | Some (curve, key) \<Rightarrow>
          if curve \<noteq> Edwards25519 then
            Err (wrapErr errInvalidPublicKey (Errorf ''services: unsupported key type: %s'' [ArgStr curve]))
          else if length key \<noteq> 32 then
            Err (wrapErr errInvalidPublicKey
              (Errorf ''services: invalid length for an ed25519 key: %d'' [ArgInt (int (length key))]))
          else
            bind_res (getContract E s md) (\<lambda>contract.
            Ok \<lparr>ai_address = ToBase58 E (AddressFromPubKey T key),
                ai_sub_account = (if contract = [] then None else Some contract)\<rparr>))"

definition ConstructionHash :: "env \<Rightarrow> txlib \<Rightarrow> string \<Rightarrow> (xerror, string) res" where
  "ConstructionHash E T signed_tx =
     bind_res (decodeTransaction T signed_tx) (\<lambda>txn. Ok (txhash2response E (tx_Hash txn)))"

definition ConstructionSubmit :: "env \<Rightarrow> txlib \<Rightarrow> bool \<Rightarrow> string \<Rightarrow> (xerror, string) res" where
  "ConstructionSubmit E T offline signed_tx =
     (if offline then Err errOfflineMode
      else
        bind_res (decodeTransaction T signed_tx) (\<lambda>txn.
        case AppendTxToPool T txn of
          Some (err, desc) \<Rightarrow> Err (wrapErr errBroadcastFailed (Errorf ''%s: %s'' [ArgStr err, ArgStr desc]))
        | None \<Rightarrow> Ok (txhash2response E (tx_Hash txn))))"

section \<open>The mempool\<close>

text \<open>The transaction pool: the hashes it lists and the transaction it has for a hash.\<close>

record pool =
  GetTxnHashList :: "hash256 list"
  GetTxFromPool :: "hash256 \<Rightarrow> string + txn"

definition Mempool :: "env \<Rightarrow> pool \<Rightarrow> bool \<Rightarrow> (xerror, string list) res" where
  "Mempool E pool offline =
     (if offline then Err errOfflineMode else Ok (map (Uint256ToHexString E) (GetTxnHashList pool)))"

definition MempoolTransaction ::
  "env \<Rightarrow> ('v, 's) neovm \<Rightarrow> pool \<Rightarrow> bool \<Rightarrow> 'db store \<Rightarrow> string option \<Rightarrow> (xerror, rtransaction) res" where
  "MempoolTransaction E V pool offline s ident =
     (if offline then Err errOfflineMode
      else
        (case ident of
           None \<Rightarrow> Err errInvalidTransactionHash
         | Some hs \<Rightarrow>
        (case Uint256FromHexString E hs of
           Inl err \<Rightarrow> Err errInvalidTransactionHash
         | Inr hash \<Rightarrow>
        (case GetTxFromPool pool hash of
           Inl err \<Rightarrow> Err errTransactionNotInMempool
         | Inr entry \<Rightarrow>
             bind_res (parsePayload V E s (tx_Payload entry)) (\<lambda>(ops, _).
             Ok \<lparr>rt_operations = ops, rt_hash = hs\<rparr>)))))"

section \<open>Lemmas\<close>

lemma lib_iff [res_simps]: "lib r = Ok a \<longleftrightarrow> r = Inr a" "lib r \<noteq> Panic"
  by (simp_all add: lib_def split: sum.split)

lemma wrap_res_iff [res_simps]: "wrap_res e r = Ok a \<longleftrightarrow> r = Ok a" "wrap_res e r = Panic \<longleftrightarrow> r = Panic"
  by (cases r; simp add: wrap_res_def)+

lemma decodeTransaction_iff:
  "decodeTransaction T data = Ok t \<longleftrightarrow>
   data \<noteq> [] \<and> (\<exists>raw. hex_decode data = Some raw \<and> TransactionFromRawBytes T raw = Inr (Some t))"
  by (auto simp: decodeTransaction_def split: option.split sum.split)

declare hex_encode_eq_Nil [simp]

lemma decode_serialized:
  assumes "txlib_ok T" "IntoImmutable T m = Inr t"
  shows "decodeTransaction T (hex_encode (Serialization T t)) = Ok t"
  unfolding decodeTransaction_iff hex_decode_encode using assms by (simp add: txlib_ok_def)

lemma decode_protobuf_map:
  "codec_ok C \<Longrightarrow> marshal_options C opts = Ok md \<Longrightarrow> decodeProtobuf C md = Ok opts"
  by (auto simp: marshal_options_def decodeProtobuf_def protobuf_map_def md_get_def codec_ok_def hex_decode_encode res_simps)

lemma constructTransfer_iff:
  assumes "env_ok E"
  shows "constructTransfer E T s opts = Ok t \<longleftrightarrow>
    is_addr (co_contract opts) \<and> is_addr (co_from opts) \<and> is_addr (co_payer opts) \<and> is_addr (co_to opts) \<and>
    (\<exists>cinfo code typ. tokens s (co_contract opts) = Some cinfo \<and>
       invoke_code E T cinfo (co_contract opts) (co_from opts, co_to opts, big_set_bytes (co_amount opts)) = (Inr code, typ) \<and>
       IntoImmutable T
         \<lparr>ct_GasLimit = co_gas_limit opts, ct_GasPrice = co_gas_price opts, ct_Nonce = co_nonce opts,
          ct_Payer = co_payer opts, ct_Payload = InvokeCode code, ct_Sigs = [], ct_TxType = typ\<rparr> = Inr t)"
proof (cases "tokens s (co_contract opts)")
  case None
  then show ?thesis
    using assms by (auto simp: constructTransfer_def res_simps parse_addr_iff getCurrencyInfo_def)
next
  case (Some cinfo)
  then show ?thesis
    using assms
    by (cases "invoke_code E T cinfo (co_contract opts) (co_from opts, co_to opts, big_set_bytes (co_amount opts))")
      (auto simp: constructTransfer_def res_simps parse_addr_iff getCurrencyInfo_def split: sum.splits)
qed

lemma constructTransfer_safe [simp]: "constructTransfer E T s opts \<noteq> Panic"
  by (auto simp: constructTransfer_def res_simps getCurrencyInfo_def split: option.split prod.split sum.split)

text \<open>What the code of a transfer means to the parser.\<close>

lemma invoke_code_runs:
  assumes "calls_ok V T" "is_addr c" "is_addr f" "is_addr t" "0 \<le> n" "c \<noteq> nilAddr" "\<not> ci_wasm cinfo"
    and "invoke_code E T cinfo c (f, t, n) = (Inr code, typ)"
  shows "runs_to V code (xfer_of f t n) c"
  using assms by (auto simp: invoke_code_def calls_ok_def split: if_splits)

lemma parsePayload_transfer:
  assumes "env_ok E" "APPCALL V \<noteq> SYSCALL V" "runs_to V code (xfer_of f t n) c" "tokens s c = Some info"
  shows "parsePayload V E s (InvokeCode code) =
    Ok (appendOperations E []
      \<lparr>ti_amount = n, ti_contract = c, ti_currency = ci_currency info, ti_from = f, ti_isGas = False, ti_to = t\<rparr>
      False, info)"
proof -
  have "ParsePayload V E code = Ok ([xfer_of f t n], c)"
    using assms(3) ParsePayload_iff [OF assms(1,2)] by (simp add: runs_to_def)
  then show ?thesis
    using assms(4) by (simp add: parsePayload_def wrap_res_def getCurrencyInfo_def payload_ops_def xfer_of_def)
qed

subsection \<open>Nonces\<close>

lemma nonce_taken_False: "nonce_taken E T B s opts = Ok b \<Longrightarrow> \<exists>t. constructTransfer E T s opts = Ok t \<and>
    checkUnsignedTxHash B s (tx_Hash t) = Ok b"
  by (auto simp: nonce_taken_def res_simps)

text \<open>The loop ends with a nonce that is free, or after as many taken ones as it may try.\<close>

definition all_taken ::
  "env \<Rightarrow> txlib \<Rightarrow> 'db badger \<Rightarrow> 'db store \<Rightarrow> (nat \<Rightarrow> string + bytes) \<Rightarrow> construct_options \<Rightarrow> nat \<Rightarrow> nat \<Rightarrow> bool" where
  "all_taken E T B s rand opts i n \<longleftrightarrow>
     (\<forall>j<n. \<exists>buf nonce. rand (i + j) = Inr buf \<and> le_get32 buf = Some nonce \<and>
        nonce_taken E T B s (opts\<lparr>co_nonce := nonce\<rparr>) = Ok True)"

lemma nonce_loop_result:
  assumes "nonce_loop E T B s rand i n opts = Ok opts'" "0 < n"
  shows "opts' = opts\<lparr>co_nonce := co_nonce opts'\<rparr> \<and>
    (nonce_taken E T B s opts' = Ok False \<or> nonce_taken E T B s opts' = Ok True \<and> all_taken E T B s rand opts i n)"
  using assms
proof (induction n arbitrary: i opts)
  case (Suc n)
  then obtain buf nonce exists where r: "rand i = Inr buf" "le_get32 buf = Some nonce"
      "nonce_taken E T B s (opts\<lparr>co_nonce := nonce\<rparr>) = Ok exists"
      "(if \<not> exists then Ok (opts\<lparr>co_nonce := nonce\<rparr>)
        else nonce_loop E T B s rand (i + 1) n (opts\<lparr>co_nonce := nonce\<rparr>)) = Ok opts'"
    by (auto simp: res_simps split: sum.splits if_splits)
  have now: "all_taken E T B s rand opts i (Suc n)" if "exists" "all_taken E T B s rand opts (i + 1) n"
    unfolding all_taken_def
  proof (intro allI impI)
    fix j assume "j < Suc n"
    then show "\<exists>buf nonce. rand (i + j) = Inr buf \<and> le_get32 buf = Some nonce \<and>
        nonce_taken E T B s (opts\<lparr>co_nonce := nonce\<rparr>) = Ok True"
      using r that by (cases j) (auto simp: all_taken_def)
  qed
  show ?case
  proof (cases "exists \<and> 0 < n")
    case True
    then show ?thesis
      using Suc.IH [of "i + 1" "opts\<lparr>co_nonce := nonce\<rparr>"] r(4) now by (auto simp: all_taken_def)
  next
    case False
    then show ?thesis using r now by (cases "exists") (auto simp: all_taken_def)
  qed
qed simp

lemma choose_nonce_result:
  assumes "choose_nonce E T B s rand opts = Ok opts'"
  shows "opts' = opts\<lparr>co_nonce := co_nonce opts'\<rparr>" "co_nonce opts' \<noteq> 0"
    "nonce_taken E T B s opts' = Ok False \<or>
     nonce_taken E T B s opts' = Ok True \<and> co_nonce opts = 0 \<and> all_taken E T B s rand opts 0 100"
  using assms nonce_loop_result [of E T B s rand 0 100 opts opts']
  by (auto simp: choose_nonce_def res_simps split: if_splits)

lemma fill_gas_result:
  assumes "fill_gas E price opts = Ok opts'"
  shows "co_amount opts' = co_amount opts" "co_contract opts' = co_contract opts" "co_from opts' = co_from opts"
    "co_to opts' = co_to opts" "co_payer opts' = co_payer opts" "co_nonce opts' = co_nonce opts"
    "co_gas_limit opts' = max (co_gas_limit opts) (minGasLimit E)"
    "co_gas_price opts' = (case price of
       Ok p \<Rightarrow> if p > co_gas_price opts then p else max (co_gas_price opts) defaultGasPrice
     | _ \<Rightarrow> max (co_gas_price opts) defaultGasPrice)"
  using assms by (auto simp: fill_gas_def Let_def not_less max_def split: if_splits res.splits)

end
