(* ===== verification/Construction_Flow.thy ===== *)
theory Construction_Flow
  imports Construction
begin

text \<open>
  The construction endpoints in the order a client calls them: preprocess, metadata, payloads,
  (signing,) combine, parse. The properties say what survives from one call to the next.
\<close>

section \<open>From operations to an unsigned transaction\<close>

text \<open>The options that preprocess and metadata hand on describe the transfer.\<close>

definition options_for :: "transferInfo \<Rightarrow> construct_options \<Rightarrow> bool" where
  "options_for x opts \<longleftrightarrow>
     co_amount opts = big_bytes (ti_amount x) \<and> co_contract opts = ti_contract x \<and>
     co_from opts = ti_from x \<and> co_to opts = ti_to x"

lemma Preprocess_options:
  assumes "codec_ok C" "ConstructionPreprocess E C cast s fee multiplier md ops = Ok options"
  obtains x opts payer where "validateOps E s ops = Ok x" "decodeProtobuf C options = Ok opts" "options_for x opts"
    "getPayer E md = Ok payer" "co_payer opts = (if payer = ADDRESS_EMPTY then ti_from x else payer)"
proof -
  obtain gl gp nonce payer x where x: "validateOps E s ops = Ok x" "getPayer E md = Ok payer"
    and m: "marshal_options C \<lparr>co_amount = big_bytes (ti_amount x), co_contract = ti_contract x, co_from = ti_from x,
           co_gas_limit = gl, co_gas_price = gp, co_nonce = ucast (nonce :: u64),
           co_payer = (if payer = ADDRESS_EMPTY then ti_from x else payer), co_to = ti_to x\<rparr> = Ok options"
    using assms(2) by (cases "fee = []"; cases multiplier) (auto simp: ConstructionPreprocess_def res_simps)
  show thesis
    by (rule that [OF x(1) decode_protobuf_map [OF assms(1) m] _ x(2)]) (simp_all add: options_for_def)
qed

lemma Metadata_options:
  assumes "codec_ok C" "ConstructionMetadata E T C B N rand False s options = Some (Ok metadata)"
    and "decodeProtobuf C options = Ok opts"
  obtains price opts1 opts2 where "getGasPrice N = Some price" "fill_gas E price opts = Ok opts1"
    "choose_nonce E T B s rand opts1 = Ok opts2" "decodeProtobuf C metadata = Ok opts2"
proof -
  obtain price opts1 opts2 where r: "getGasPrice N = Some price" "fill_gas E price opts = Ok opts1"
    "choose_nonce E T B s rand opts1 = Ok opts2" "marshal_options C opts2 = Ok metadata"
    using assms(2,3) by (auto simp: ConstructionMetadata_def res_simps split: option.splits)
  then show thesis using that decode_protobuf_map [OF assms(1) r(4)] by blast
qed

lemma choose_nonce_constructs:
  assumes "choose_nonce E T B s rand opts = Ok opts'"
  obtains t b where "constructTransfer E T s opts' = Ok t" "checkUnsignedTxHash B s (tx_Hash t) = Ok b"
  using choose_nonce_result(3) [OF assms] nonce_taken_False by blast

lemma choose_nonce_options_for:
  assumes "choose_nonce E T B s rand opts = Ok opts'"
  shows "options_for x opts' \<longleftrightarrow> options_for x opts" "co_payer opts' = co_payer opts"
proof -
  obtain n where "opts' = opts\<lparr>co_nonce := n\<rparr>" using choose_nonce_result(1) [OF assms] by blast
  then show "options_for x opts' \<longleftrightarrow> options_for x opts" "co_payer opts' = co_payer opts"
    by (simp_all add: options_for_def)
qed

lemma fill_gas_options_for:
  "fill_gas E price opts = Ok opts' \<Longrightarrow> options_for x opts' \<longleftrightarrow> options_for x opts"
  by (simp add: options_for_def fill_gas_result)

text \<open>The flow up to the payloads, for one validated transfer.\<close>

lemma flow_options:
  assumes "codec_ok C" "validateOps E s ops = Ok x"
    and "ConstructionPreprocess E C cast s fee multiplier md ops = Ok options"
    and "ConstructionMetadata E T C B N rand False s options = Some (Ok metadata)"
  obtains opts payer t where "decodeProtobuf C metadata = Ok opts" "options_for x opts" "co_nonce opts \<noteq> 0"
    "getPayer E md = Ok payer" "co_payer opts = (if payer = ADDRESS_EMPTY then ti_from x else payer)"
    "constructTransfer E T s opts = Ok t"
proof (rule Preprocess_options [OF assms(1,3)])
  fix x' opts payer assume p: "validateOps E s ops = Ok x'" "decodeProtobuf C options = Ok opts" "options_for x' opts"
    "getPayer E md = Ok payer" "co_payer opts = (if payer = ADDRESS_EMPTY then ti_from x' else payer)"
  show thesis
  proof (rule Metadata_options [OF assms(1,4) p(2)])
    fix price opts1 opts2 assume m: "getGasPrice N = Some price" "fill_gas E price opts = Ok opts1"
      "choose_nonce E T B s rand opts1 = Ok opts2" "decodeProtobuf C metadata = Ok opts2"
    obtain t where t: "constructTransfer E T s opts2 = Ok t" using choose_nonce_constructs [OF m(3)] by blast
    have "x' = x" using p(1) assms(2) by simp
    then show thesis
      using that [OF m(4) _ _ p(4) _ t] p(3,5) choose_nonce_options_for [OF m(3)] fill_gas_options_for [OF m(2)]
        choose_nonce_result(2) [OF m(3)] fill_gas_result(5) [OF m(2)] by simp
  qed
qed

lemma Payloads_of_options:
  assumes "decodeProtobuf C metadata = Ok opts" "validateOps E s ops = Ok x" "options_for x opts"
    and "constructTransfer E T s opts = Ok t"
  shows "ConstructionPayloads E T C s metadata ops = Ok
    \<lparr>pl_payloads =
       (let signer = \<lambda>acct. \<lparr>sp_account = acct, sp_bytes = tx_Hash t, sp_type = Ed25519\<rparr>;
            acct = native_account E x (ti_from x)
        in signer acct # (if tx_Payer t \<noteq> ti_from x then [signer (acct\<lparr>ai_address := ToBase58 E (tx_Payer t)\<rparr>)] else [])),
     pl_unsigned = hex_encode (Serialization T t)\<rparr>"
  using assms by (simp add: ConstructionPayloads_def options_for_def wrap_res_def Let_def)

section \<open>The transaction of a transfer\<close>

lemma constructTransfer_fields:
  assumes "env_ok E" "txlib_ok T" "constructTransfer E T s opts = Ok t"
  shows "tx_GasLimit t = co_gas_limit opts" "tx_GasPrice t = co_gas_price opts" "tx_Nonce t = co_nonce opts"
    "tx_Payer t = co_payer opts" "decodeTransaction T (hex_encode (Serialization T t)) = Ok t"
proof -
  obtain m where m: "IntoImmutable T m = Inr t" "ct_GasLimit m = co_gas_limit opts" "ct_GasPrice m = co_gas_price opts"
    "ct_Nonce m = co_nonce opts" "ct_Payer m = co_payer opts"
    using assms(3) by (auto simp: constructTransfer_iff [OF assms(1)])
  then have "same_fields t m" using assms(2) by (auto simp: txlib_ok_def)
  then show "tx_GasLimit t = co_gas_limit opts" "tx_GasPrice t = co_gas_price opts" "tx_Nonce t = co_nonce opts"
    "tx_Payer t = co_payer opts"
    using m by (simp_all add: same_fields_def)
  show "decodeTransaction T (hex_encode (Serialization T t)) = Ok t"
    using decode_serialized [OF assms(2) m(1)] .
qed

text \<open>A transfer the server can parse back: its contract is registered and not a WASM one.\<close>

lemma parse_constructed:
  assumes "env_ok E" "txlib_ok T" "calls_ok V T" "APPCALL V \<noteq> SYSCALL V" "options_for x opts" "0 \<le> ti_amount x"
    and "tokens s (ti_contract x) = Some info" "\<not> ci_wasm info" "ti_contract x \<noteq> nilAddr"
    and "ti_currency x = ci_currency info" "\<not> ti_isGas x" "constructTransfer E T s opts = Ok t"
  shows "parsePayload V E s (tx_Payload t) = Ok (appendOperations E [] x False, info)"
proof -
  obtain code ty m where c: "is_addr (ti_contract x)" "is_addr (ti_from x)" "is_addr (ti_to x)"
    "invoke_code E T info (ti_contract x) (ti_from x, ti_to x, ti_amount x) = (Inr code, ty)"
    "IntoImmutable T m = Inr t" "ct_Payload m = InvokeCode code"
    using assms(5-7,12) by (auto simp: constructTransfer_iff [OF assms(1)] options_for_def big_set_bytes_big_bytes)
  have "runs_to V code (xfer_of (ti_from x) (ti_to x) (ti_amount x)) (ti_contract x)"
    using invoke_code_runs [OF assms(3) c(1-3) assms(6,9,8) c(4)] .
  moreover have "tx_Payload t = InvokeCode code"
    using assms(2) c(5,6) by (auto simp: txlib_ok_def same_fields_def)
  moreover have "x = \<lparr>ti_amount = ti_amount x, ti_contract = ti_contract x, ti_currency = ci_currency info,
      ti_from = ti_from x, ti_isGas = False, ti_to = ti_to x\<rparr>"
    using assms(10,11) by (cases x) simp
  ultimately show ?thesis
    using parsePayload_transfer [OF assms(1,4), of code "ti_from x" "ti_to x" "ti_amount x" "ti_contract x" s info]
      assms(7) by simp
qed

lemma transfer_operations:
  assumes "\<not> ti_isGas x" "ti_from x \<noteq> nullAddr E" "ti_to x \<noteq> nullAddr E"
  shows "appendOperations E [] x st =
    (let op = \<lambda>i r a v. \<lparr>op_identifier = Some i, op_related = r, op_type = opTransfer,
        op_status = (if st then Some statusSuccess else None), op_account = Some (native_account E x a),
        op_amount = Some \<lparr>am_value = big_string v, am_currency = Some (ti_currency x)\<rparr>\<rparr>
     in [op 0 [] (ti_from x) (- ti_amount x), op 1 [Some 0] (ti_to x) (ti_amount x)])"
  using assms by (simp add: appendOperations_def Let_def)

lemma Parse_transfer:
  assumes "parsePayload V E s (tx_Payload t) = Ok (appendOperations E [] x False, info)"
    and "decodeTransaction T data = Ok t" "0 < ti_amount x" "\<not> ti_isGas x" "ti_from x \<noteq> nullAddr E" "ti_to x \<noteq> nullAddr E"
  shows "ConstructionParse E V T s data is_signed =
    bind_res
      (if is_signed then
         (if tx_Sigs t = [] then
            Err (wrapErr errInvalidTransactionPayload
              (Errorf ''services: signature(s) not present in signed transaction data'' []))
          else map_res (parse_signer E T info) (tx_Sigs t))
       else Ok [])
      (\<lambda>signers.
        Ok \<lparr>pr_signers = signers, pr_gas_limit = tx_GasLimit t, pr_gas_price = tx_GasPrice t, pr_nonce = tx_Nonce t,
            pr_payer = ToBase58 E (tx_Payer t), pr_operations = appendOperations E [] x False\<rparr>)"
proof -
  have "am_value (the (op_amount (appendOperations E [] x False ! 0))) ! 0 = CHR ''-''"
    using assms(3) big_string_hd_minus [of "- ti_amount x"]
    by (simp add: transfer_operations [OF assms(4-6)] hd_conv_nth)
  then show ?thesis
    using assms(1,2) by (simp add: ConstructionParse_def transfer_operations [OF assms(4-6)] Let_def)
qed

lemma validateCurrency_token:
  "toks_wf E (tokens s) \<Longrightarrow> validateCurrency E s cur = Ok c \<Longrightarrow> tokens s (ci_contract c) = Some c"
  by (auto simp: validateCurrency_def toks_wf_def token_ok_def split: option.splits jval.splits sum.splits if_splits)

lemma validateOps_transfer:
  assumes "env_ok E" "toks_wf E (tokens s)" "validateOps E s ops = Ok x"
  shows "0 < ti_amount x" "\<not> ti_isGas x" "ti_from x \<noteq> nullAddr E" "is_addr (ti_from x)" "is_addr (ti_to x)"
    "\<exists>info. tokens s (ti_contract x) = Some info \<and> ti_currency x = ci_currency info"
proof -
  obtain a b where "transfer_intent E s a b x"
    using assms(3) unfolding validateOps_Ok_iff by blast
  then obtain c where c: "op_moves E s a (ti_from x) (- ti_amount x) c" "op_moves E s b (ti_to x) (ti_amount x) c"
      "ti_contract x = ci_contract c" "ti_currency x = ci_currency c"
    and rest: "0 < ti_amount x" "\<not> ti_isGas x" "ti_from x \<noteq> ADDRESS_EMPTY"
    unfolding transfer_intent_def by blast
  have "tokens s (ci_contract c) = Some c"
    using c(1) validateCurrency_token [OF assms(2)] by (auto simp: op_moves_def)
  with c show "\<exists>info. tokens s (ti_contract x) = Some info \<and> ti_currency x = ci_currency info" by auto
  have addr: "is_addr a" if "op_moves E s op a v c" for op a v
    using that assms(1) by (auto simp: op_moves_def env_ok_def base58_ok_def)
  show "is_addr (ti_from x)" "is_addr (ti_to x)" using addr c(1,2) by blast+
  show "0 < ti_amount x" "\<not> ti_isGas x" using rest by blast+
  show "ti_from x \<noteq> nullAddr E" using rest native_addrs(4) [OF assms(1)] by (simp add: ADDRESS_EMPTY_def)
qed

text \<open>From the answers of preprocess and metadata to the unsigned transaction.\<close>

lemma flow_payloads:
  assumes "env_ok E" "codec_ok C" "txlib_ok T" "calls_ok V T" "APPCALL V \<noteq> SYSCALL V" "toks_wf E (tokens s)"
    and "validateOps E s ops = Ok x" "ti_to x \<noteq> nullAddr E"
    and "tokens s (ti_contract x) = Some info" "\<not> ci_wasm info" "ti_contract x \<noteq> nilAddr"
    and "ConstructionPreprocess E C cast s fee multiplier md ops = Ok options"
    and "ConstructionMetadata E T C B N rand False s options = Some (Ok metadata)"
  obtains t payer r where "ConstructionPayloads E T C s metadata ops = Ok r"
    "pl_unsigned r = hex_encode (Serialization T t)"
    "pl_payloads r = map (\<lambda>a. \<lparr>sp_account = (native_account E x (ti_from x))\<lparr>ai_address := a\<rparr>, sp_bytes = tx_Hash t,
       sp_type = Ed25519\<rparr>) (ToBase58 E (ti_from x) # (if tx_Payer t \<noteq> ti_from x then [ToBase58 E (tx_Payer t)] else []))"
    "decodeTransaction T (hex_encode (Serialization T t)) = Ok t" "tx_Nonce t \<noteq> 0" "getPayer E md = Ok payer"
    "tx_Payer t = (if payer = ADDRESS_EMPTY then ti_from x else payer)"
    "parsePayload V E s (tx_Payload t) = Ok (appendOperations E [] x False, info)"
    "\<And>data. decodeTransaction T data = Ok t \<Longrightarrow>
       \<exists>parsed. ConstructionParse E V T s data False = Ok parsed \<and> pr_operations parsed = appendOperations E [] x False"
    "validateOps E s (Some (map Some (appendOperations E [] x False))) = Ok x"
proof (rule flow_options [OF assms(2,7,12,13)])
  fix opts payer t
  assume o: "decodeProtobuf C metadata = Ok opts" "options_for x opts" "co_nonce opts \<noteq> 0" "getPayer E md = Ok payer"
    "co_payer opts = (if payer = ADDRESS_EMPTY then ti_from x else payer)" "constructTransfer E T s opts = Ok t"
  have x: "0 < ti_amount x" "\<not> ti_isGas x" "ti_from x \<noteq> nullAddr E" "ti_currency x = ci_currency info"
    using validateOps_transfer [OF assms(1,6,7)] assms(9) by auto
  have fields: "tx_Nonce t = co_nonce opts" "tx_Payer t = co_payer opts"
    "decodeTransaction T (hex_encode (Serialization T t)) = Ok t"
    using constructTransfer_fields [OF assms(1,3) o(6)] by blast+
  have parse: "parsePayload V E s (tx_Payload t) = Ok (appendOperations E [] x False, info)"
    using x by (intro parse_constructed [OF assms(1,3-5) o(2) _ assms(9-11) x(4,2) o(6)]) simp
  have "validateOps E s (Some (map Some (appendOperations E [] x False))) = Ok x"
    using validateOps_own_operations [OF assms(1,6,9) x(4) _ _ x(1,2,3) assms(8), of "[]" False]
      validateOps_transfer(4,5) [OF assms(1,6,7)] by simp
  moreover have "\<exists>parsed. ConstructionParse E V T s data False = Ok parsed \<and>
      pr_operations parsed = appendOperations E [] x False" if "decodeTransaction T data = Ok t" for data
    using Parse_transfer [OF parse that x(1-3) assms(8), of False] by simp
  ultimately show thesis
    using Payloads_of_options [OF o(1) assms(7) o(2,6)] fields o(3-5) parse
    by (intro that) (auto simp: Let_def native_account_def)
qed

section \<open>Signatures\<close>

text \<open>What one accepted signature is: an Ed25519 signature of the hash under a key of 32 bytes.\<close>

definition signs :: "txlib \<Rightarrow> hash256 \<Rightarrow> signature option \<Rightarrow> bytes \<Rightarrow> bytes \<Rightarrow> bool" where
  "signs T hash sg key osig \<longleftrightarrow>
     (\<exists>sig. sg = Some sig \<and> sg_PublicKey sig = Some (Edwards25519, key) \<and> length key = 32 \<and>
        sg_SignatureType sig = Ed25519 \<and> Verify T key hash (sg_Bytes sig) \<and> SerializeSig T (sg_Bytes sig) = Inr osig)"

lemma combine_signature_iff:
  "combine_signature T hash sig = Ok osig \<longleftrightarrow>
   (\<exists>key data t. osig = \<lparr>sig_M = 1, sig_PubKeys = [key], sig_SigData = [data]\<rparr> \<and> signs T hash (Some sig) key data \<and>
      sg_SigningPayload sig = Some (hash, t))"
  by (auto simp: combine_signature_def signs_def res_simps split: option.splits if_splits)

lemma combine_signature_panic:
  "combine_signature T hash sig = Panic \<longleftrightarrow>
   (\<exists>key. sg_PublicKey sig = Some (Edwards25519, key) \<and> length key = 32) \<and> sg_SignatureType sig \<noteq> Ed25519 \<and>
   sg_SigningPayload sig = None"
  by (auto simp: combine_signature_def res_simps split: option.splits if_splits)

definition signed_key :: "signature option \<Rightarrow> bytes" where
  "signed_key sg = (case sg of Some sig \<Rightarrow> (case sg_PublicKey sig of Some (_, key) \<Rightarrow> key | None \<Rightarrow> []) | None \<Rightarrow> [])"

lemma signs_key: "signs T hash sg key osig \<Longrightarrow> signed_key sg = key"
  by (auto simp: signs_def signed_key_def)

lemma map_res_list_all2: "map_res f xs = Ok ys \<longleftrightarrow> list_all2 (\<lambda>x y. f x = Ok y) xs ys"
  by (induction xs arbitrary: ys) (auto simp: res_simps list_all2_Cons1)

lemma map_res_panic_at: "map_res f before = Ok ys \<Longrightarrow> f x = Panic \<Longrightarrow> map_res f (before @ x # after) = Panic"
  by (induction before arbitrary: ys) (auto simp: res_simps)

lemma map_res_panicE:
  "map_res f xs = Panic \<Longrightarrow> \<exists>before x after. xs = before @ x # after \<and> (\<exists>ys. map_res f before = Ok ys) \<and> f x = Panic"
proof (induction xs)
  case (Cons x xs)
  then consider "f x = Panic" | y where "f x = Ok y" "map_res f xs = Panic" by (auto simp: res_simps)
  then show ?case
  proof cases
    case 1
    then show ?thesis by (intro exI [of _ "[]"]) simp
  next
    case 2
    then obtain before z after ys where "xs = before @ z # after" "map_res f before = Ok ys" "f z = Panic"
      using Cons by blast
    with 2 show ?thesis by (intro exI [of _ "x # before"]) simp
  qed
qed simp

lemma map_res_panic:
  "map_res f xs = Panic \<longleftrightarrow> (\<exists>before x after. xs = before @ x # after \<and> (\<exists>ys. map_res f before = Ok ys) \<and> f x = Panic)"
  using map_res_panicE map_res_panic_at by metis

lemma decodeTransaction_safe [simp]: "decodeTransaction T data \<noteq> Panic"
  by (simp add: decodeTransaction_def split: option.split sum.split)

lemma Combine_result:
  assumes "txlib_ok T" "ConstructionCombine T data sigs = Ok out"
  obtains t t' where "decodeTransaction T data = Ok t" "decodeTransaction T out = Ok t'" "sigs \<noteq> []"
    "tx_Hash t' = tx_Hash t" "tx_GasLimit t' = tx_GasLimit t" "tx_GasPrice t' = tx_GasPrice t" "tx_Nonce t' = tx_Nonce t"
    "tx_Payer t' = tx_Payer t" "tx_Payload t' = tx_Payload t"
    "list_all2 (\<lambda>sg raw. \<exists>key osig. signs T (tx_Hash t) sg key osig \<and>
       GetSig T raw = Inr \<lparr>sig_M = 1, sig_PubKeys = [key], sig_SigData = [osig]\<rparr>) sigs (tx_Sigs t')"
proof -
  obtain t m osigs t' where r: "decodeTransaction T data = Ok t" "IntoMutable T t = Inr m" "ct_Sigs m = []" "sigs \<noteq> []"
      "map_res (\<lambda>sig. bind_res (deref sig) (combine_signature T (TxHash T m))) sigs = Ok osigs"
      "IntoImmutable T (m\<lparr>ct_Sigs := osigs\<rparr>) = Inr t'" "out = hex_encode (Serialization T t')"
    using assms(2) by (auto simp: ConstructionCombine_def res_simps split: if_splits)
  have same: "same_fields t m" "TxHash T m = tx_Hash t"
    using assms(1) r(2) unfolding txlib_ok_def by blast+
  have same': "same_fields t' (m\<lparr>ct_Sigs := osigs\<rparr>)" "tx_Hash t' = TxHash T m" "map (GetSig T) (tx_Sigs t') = map Inr osigs"
    using assms(1) r(6) by (auto simp: txlib_ok_def)
  have "list_all2 (\<lambda>sg x. \<exists>key osig. signs T (tx_Hash t) sg key osig \<and>
      x = \<lparr>sig_M = 1, sig_PubKeys = [key], sig_SigData = [osig]\<rparr>) sigs osigs"
    using r(5) unfolding map_res_list_all2 same(2)
    by (rule list_all2_mono) (auto simp: res_simps combine_signature_iff)
  moreover have "list_all2 (\<lambda>raw x. GetSig T raw = Inr x) (tx_Sigs t') osigs"
    using same'(3) by (simp add: list_all2_conv_all_nth map_eq_conv list_eq_iff_nth_eq)
  ultimately have "list_all2 (\<lambda>sg raw. \<exists>key osig. signs T (tx_Hash t) sg key osig \<and>
       GetSig T raw = Inr \<lparr>sig_M = 1, sig_PubKeys = [key], sig_SigData = [osig]\<rparr>) sigs (tx_Sigs t')"
    by (auto simp: list_all2_conv_all_nth)
  moreover have "decodeTransaction T out = Ok t'"
    using decode_serialized [OF assms(1) r(6)] r(7) by simp
  ultimately show thesis
    using that [OF r(1) _ r(4)] same same' by (simp add: same_fields_def)
qed

lemma parse_signers_of:
  assumes "list_all2 (\<lambda>sg raw. \<exists>key osig. signs T hash sg key osig \<and>
       GetSig T raw = Inr \<lparr>sig_M = 1, sig_PubKeys = [key], sig_SigData = [osig]\<rparr>) sigs raws"
  shows "map_res (parse_signer E T info) raws = Ok (map (\<lambda>sg.
    \<lparr>ai_address = ToBase58 E (AddressFromPubKey T (signed_key sg)),
     ai_sub_account = (if \<not> ci_isNative E info then Some (ToHexString E (ci_contract info)) else None)\<rparr>) sigs)"
  using assms
proof (induction rule: list_all2_induct)
  case (Cons sg sigs raw raws)
  then show ?case by (auto simp: parse_signer_def signs_key)
qed simp

section \<open>A concrete library\<close>

text \<open>
  Transactions of a given list, serialised as their position in it; a signature is stored
  after its key.
\<close>

definition index_in :: "'a list \<Rightarrow> 'a \<Rightarrow> nat" where
  "index_in xs x = length (takeWhile (\<lambda>y. y \<noteq> x) xs)"

lemma index_in: "x \<in> set xs \<Longrightarrow> index_in xs x < length xs \<and> xs ! index_in xs x = x"
  by (induction xs) (auto simp: index_in_def)

definition imm0 :: "mtxn \<Rightarrow> txn" where
  "imm0 m =
     \<lparr>tx_GasLimit = ct_GasLimit m, tx_GasPrice = ct_GasPrice m, tx_Nonce = ct_Nonce m, tx_Payer = ct_Payer m,
      tx_Payload = ct_Payload m, tx_Sigs = map (\<lambda>sg. hd (sig_PubKeys sg) @ hd (sig_SigData sg)) (ct_Sigs m),
      tx_Hash = replicate 28 0 @ le_put32 (ct_Nonce m)\<rparr>"

definition build0 :: "byte \<Rightarrow> address \<Rightarrow> address \<times> address \<times> int \<Rightarrow> string + bytes" where
  "build0 opcode c params =
     (case params of (f, t, n) \<Rightarrow>
        if length (big_bytes n) < 2 ^ 60 then Inr (transfer_code opcode c f t n) else Inl ''amount too large'')"

definition txlib0 :: "mtxn list \<Rightarrow> txlib" where
  "txlib0 ms =
     \<lparr>TransactionFromRawBytes = (\<lambda>bs. if bs = [] \<or> length ms < length bs then Inl ''unknown transaction''
        else Inr (Some (imm0 (ms ! (length bs - 1))))),
      Serialization = (\<lambda>t. replicate (index_in (map imm0 ms) t + 1) 0),
      IntoMutable = (\<lambda>t. if t \<in> set (map imm0 ms) then Inr (ms ! index_in (map imm0 ms) t) else Inl ''unknown transaction''),
      IntoImmutable = (\<lambda>m. if m \<in> set ms then Inr (imm0 m) else Inl ''unknown transaction''),
      TxHash = (\<lambda>m. replicate 28 0 @ le_put32 (ct_Nonce m)),
      GetSig = (\<lambda>raw. Inr \<lparr>sig_M = 1, sig_PubKeys = [take 32 raw], sig_SigData = [drop 32 raw]\<rparr>),
      SerializeSig = Inr,
      Verify = (\<lambda>key msg sig. sig = msg),
      AddressFromPubKey = take 20,
      BuildNativeInvokeCode = (\<lambda>c v meth params. build0 104 c (hd params)),
      BuildWasmVMInvokeCode = (\<lambda>c meth params. Inl ''no wasm''),
      BuildNeoVMInvokeCode = (\<lambda>c meth params. build0 103 c params),
      InvokeNeo = 209, InvokeWasm = 210, AppendTxToPool = (\<lambda>t. None)\<rparr>"

lemma txlib_ok_txlib0:
  assumes "\<forall>m\<in>set ms. \<forall>sg\<in>set (ct_Sigs m).
    \<exists>key data. sg = \<lparr>sig_M = 1, sig_PubKeys = [key], sig_SigData = [data]\<rparr> \<and> length key = 32"
  shows "txlib_ok (txlib0 ms)"
proof -
  have imm: "same_fields (imm0 m) m" "tx_Hash (imm0 m) = replicate 28 0 @ le_put32 (ct_Nonce m)" for m
    by (simp_all add: same_fields_def imm0_def)
  have raw: "imm0 (ms ! index_in (map imm0 ms) (imm0 m)) = imm0 m" "index_in (map imm0 ms) (imm0 m) < length ms"
    if "m \<in> set ms" for m
    using index_in [of "imm0 m" "map imm0 ms"] that by auto
  have sigs: "map (GetSig (txlib0 ms)) (tx_Sigs (imm0 m)) = map Inr (ct_Sigs m)" if "m \<in> set ms" for m
  proof -
    have "GetSig (txlib0 ms) (hd (sig_PubKeys sg) @ hd (sig_SigData sg)) = Inr sg" if sg: "sg \<in> set (ct_Sigs m)" for sg
    proof -
      obtain key data where "sg = \<lparr>sig_M = 1, sig_PubKeys = [key], sig_SigData = [data]\<rparr>" "length key = 32"
        using assms \<open>m \<in> set ms\<close> sg by blast
      then show ?thesis by (simp add: txlib0_def)
    qed
    then show ?thesis by (simp add: imm0_def)
  qed
  have mut: "same_fields t m \<and> replicate 28 0 @ le_put32 (ct_Nonce m) = tx_Hash t"
    if "t \<in> set (map imm0 ms)" "m = ms ! index_in (map imm0 ms) t" for t m
  proof -
    have "t = imm0 m" using index_in [OF that(1)] that(2) by (metis length_map nth_map)
    then show ?thesis using imm [of m] by simp
  qed
  show ?thesis
    unfolding txlib_ok_def
  proof (intro conjI allI impI)
    fix m t assume "IntoImmutable (txlib0 ms) m = Inr t"
    then have m: "m \<in> set ms" "t = imm0 m" by (auto simp: txlib0_def split: if_splits)
    then show "same_fields t m" "map (GetSig (txlib0 ms)) (tx_Sigs t) = map Inr (ct_Sigs m)"
      using imm sigs by simp_all
    show "tx_Hash t = TxHash (txlib0 ms) m" "Serialization (txlib0 ms) t \<noteq> []"
      using m imm by (simp_all add: txlib0_def)
    show "TransactionFromRawBytes (txlib0 ms) (Serialization (txlib0 ms) t) = Inr (Some t)"
      using m raw [OF m(1)] by (simp add: txlib0_def not_less Suc_le_eq)
  next
    fix t m assume "IntoMutable (txlib0 ms) t = Inr m"
    then show "same_fields t m" "TxHash (txlib0 ms) m = tx_Hash t"
      using mut [of t m] by (auto simp: txlib0_def split: if_splits)
  next
    fix m sigs show "TxHash (txlib0 ms) (m\<lparr>ct_Sigs := sigs\<rparr>) = TxHash (txlib0 ms) m" by (simp add: txlib0_def)
  qed
qed

lemma calls_ok_txlib0: "calls_ok vm0 (txlib0 ms)"
  unfolding calls_ok_def
proof (intro allI impI conjI)
  fix c f t :: address and n :: int and code
  assume a: "is_addr c \<and> is_addr f \<and> is_addr t \<and> 0 \<le> n"
  show "runs_to vm0 code (xfer_of f t n) c"
    if "BuildNativeInvokeCode (txlib0 ms) c 0 ''transferV2'' [(f, t, n)] = Inr code"
    using that a execute0_transfer [of c f t n 104] by (auto simp: txlib0_def build0_def runs_to_def split: if_splits)
  show "runs_to vm0 code (xfer_of f t n) c"
    if "BuildNeoVMInvokeCode (txlib0 ms) c ''transfer'' (f, t, n) = Inr code" "c \<noteq> nilAddr"
    using that a execute0_transfer [of c f t n 103] by (auto simp: txlib0_def build0_def runs_to_def split: if_splits)
qed

subsection \<open>One run\<close>

text \<open>Alice pays Bob 70 units of ONG, with nonce 7, on a chain whose gas price is 3000.\<close>

definition opts_req :: construct_options where
  "opts_req = \<lparr>co_amount = big_bytes 70, co_contract = ongAddr env0, co_from = alice, co_gas_limit = 0,
     co_gas_price = 0, co_nonce = 7, co_payer = alice, co_to = bob\<rparr>"

definition opts_fin :: construct_options where
  "opts_fin = opts_req\<lparr>co_gas_limit := 20000, co_gas_price := 3000\<rparr>"

definition codec2 :: codec where
  "codec2 =
     \<lparr>MarshalBlock = (\<lambda>b. Inl ''unsupported''), UnmarshalBlock = (\<lambda>bs. Inl ''unsupported''),
      MarshalOptions = (\<lambda>m. if m = opts_req then Inr [1] else if m = opts_fin then Inr [2] else Inl ''unsupported''),
      UnmarshalOptions = (\<lambda>bs. if bs = [1] then Inr opts_req else if bs = [2] then Inr opts_fin else Inl ''unknown'')\<rparr>"

lemma codec_ok_codec2: "codec_ok codec2"
  by (simp add: codec_ok_def codec2_def)

definition store2 :: "mem_db store" where
  "store2 = store0 \<lparr>tokens := make_tokens env0 []\<rparr>"

definition ops2 :: "operation option list option" where
  "ops2 = Some (map Some (appendOperations env0 [] pay0 True))"

definition md2 :: metadata where
  "md2 = Some [''nonce'' \<mapsto> JFloat (FIntegral 7)]"

definition gas_node2 :: gas_node where
  "gas_node2 = \<lparr>gn_height = 0, gn_root = (\<lambda>h. Inr (Some (replicate 32 7))), gn_prices = (\<lambda>h. Inr (Some [3000]))\<rparr>"

lemma price_gas_node2: "getGasPrice gas_node2 = Some (Ok 3000)"
  by (simp add: getGasPrice_def gas_stop_def gas_loop_hit passed_def gas_at_def found_def UINT256_EMPTY_def gas_node2_def
      block_gas_price_def)

definition unsigned2 :: mtxn where
  "unsigned2 = \<lparr>ct_GasLimit = 20000, ct_GasPrice = 3000, ct_Nonce = 7, ct_Payer = alice,
     ct_Payload = InvokeCode (transfer_code 104 (ongAddr env0) alice bob 70), ct_Sigs = [], ct_TxType = 209\<rparr>"

definition hash2 :: hash256 where
  "hash2 = replicate 28 0 @ le_put32 7"

definition key2 :: bytes where
  "key2 = replicate 32 9"

definition signed2 :: mtxn where
  "signed2 = unsigned2\<lparr>ct_Sigs := [\<lparr>sig_M = 1, sig_PubKeys = [key2], sig_SigData = [hash2]\<rparr>]\<rparr>"

definition lib2 :: txlib where
  "lib2 = txlib0 [unsigned2, signed2]"

definition sign2 :: signature where
  "sign2 = \<lparr>sg_PublicKey = Some (Edwards25519, key2), sg_SignatureType = Ed25519,
     sg_SigningPayload = Some (hash2, Ed25519), sg_Bytes = hash2\<rparr>"

lemma lib2_ok: "txlib_ok lib2" "calls_ok vm0 lib2"
  by (simp_all add: lib2_def calls_ok_txlib0 txlib_ok_txlib0 unsigned2_def signed2_def key2_def)

lemma store2_tokens: "toks_wf env0 (tokens store2)"
    "tokens store2 (ongAddr env0) = Some (native_currency env0 (ongAddr env0) 18 ''ONG'')"
  using toks_wf_make_tokens [of env0 "[]"] ong_registered by (simp_all add: store2_def)

lemma native_ong: "\<not> ci_wasm (native_currency env0 (ongAddr env0) 18 ''ONG'')" "ongAddr env0 \<noteq> nilAddr"
    "ci_isNative env0 (native_currency env0 (ongAddr env0) 18 ''ONG'')"
  using native_addrs(4) [OF env_ok_env0] native_addrs_neq(5) [OF env_ok_env0]
  by (simp_all add: native_currency_def ci_isNative_def nilAddr_def)

lemma validate2: "validateOps env0 store2 ops2 = Ok pay0"
  using validateOps_own_operations [of env0 store2 pay0 _ "[]" True] store2_tokens alice_bob
  by (simp add: ops2_def pay0_def)

lemma preprocess2: "ConstructionPreprocess env0 codec2 cast0 store2 [] None md2 ops2 = Ok (protobuf_map [1])"
proof -
  have "getUint64Field env0 cast0 md2 ''gas_limit'' = Ok 0" "getUint64Field env0 cast0 md2 ''gas_price'' = Ok 0"
    "getUint64Field env0 cast0 md2 ''nonce'' = Ok 7" "getPayer env0 md2 = Ok ADDRESS_EMPTY"
    by (simp_all add: getUint64Field_def getPayer_def md2_def md_get_def cast0_def float_of_u64_def)
  then show ?thesis
    by (simp add: ConstructionPreprocess_def validate2 wrap_res_def marshal_options_def lib_def codec2_def pay0_def opts_req_def)
qed

lemma construct2: "constructTransfer env0 lib2 store2 opts_fin = Ok (imm0 unsigned2)"
proof -
  have "length (big_bytes 70) < 2 ^ 60" by (simp add: big_bytes_def be_bytes.simps)
  then show ?thesis
    using store2_tokens(2) native_ong alice_bob
    by (simp add: constructTransfer_iff opts_fin_def opts_req_def invoke_code_def lib2_def txlib0_def build0_def
        big_set_bytes_big_bytes unsigned2_def)
qed

lemma metadata2:
  "ConstructionMetadata env0 lib2 codec2 mem_badger gas_node2 rand False store2 (protobuf_map [1]) = Some (Ok (protobuf_map [2]))"
proof -
  have fill: "fill_gas env0 (Ok 3000) opts_req = Ok opts_fin"
    by (simp add: fill_gas_def minGasLimit_def opts_fin_def opts_req_def Let_def)
  have "checkUnsignedTxHash mem_badger store2 h = Ok False" for h
    by (simp add: checkUnsignedTxHash_def store2_def store0_def mem_badger_def)
  then have nonce: "choose_nonce env0 lib2 mem_badger store2 rand opts_fin = Ok opts_fin"
    by (simp add: choose_nonce_def nonce_taken_def construct2 wrap_res_def) (simp add: opts_fin_def opts_req_def)
  have decode: "decodeProtobuf codec2 (protobuf_map [1]) = Ok opts_req"
    by (simp add: decodeProtobuf_def protobuf_map_def md_get_def hex_decode_encode codec2_def del: hex_encode.simps)
  have "marshal_options codec2 opts_fin = Ok (protobuf_map [2])"
    by (simp add: marshal_options_def codec2_def wrap_res_def lib_def) (simp add: opts_fin_def opts_req_def)
  then show ?thesis by (simp add: ConstructionMetadata_def decode price_gas_node2 fill nonce)
qed

lemma combine2:
  "ConstructionCombine lib2 (hex_encode (Serialization lib2 (imm0 unsigned2))) [Some sign2] =
     Ok (hex_encode (Serialization lib2 (imm0 signed2)))"
  "decodeTransaction lib2 (hex_encode (Serialization lib2 (imm0 unsigned2))) = Ok (imm0 unsigned2)"
proof -
  show d: "decodeTransaction lib2 (hex_encode (Serialization lib2 (imm0 unsigned2))) = Ok (imm0 unsigned2)"
    by (rule decode_serialized [OF lib2_ok(1), of unsigned2]) (simp add: lib2_def txlib0_def)
  have m: "IntoMutable lib2 (imm0 unsigned2) = Inr unsigned2"
    by (simp add: lib2_def txlib0_def index_in_def)
  have h: "TxHash lib2 unsigned2 = hash2" "Verify lib2 key2 hash2 hash2" "SerializeSig lib2 hash2 = Inr hash2"
    "IntoImmutable lib2 signed2 = Inr (imm0 signed2)"
    by (simp_all add: lib2_def txlib0_def hash2_def unsigned2_def)
  have "combine_signature lib2 hash2 sign2 = Ok \<lparr>sig_M = 1, sig_PubKeys = [key2], sig_SigData = [hash2]\<rparr>"
    using h by (auto simp: combine_signature_iff signs_def sign2_def key2_def)
  moreover have "ct_Sigs unsigned2 = []"
      "unsigned2\<lparr>ct_Sigs := [\<lparr>sig_M = Suc 0, sig_PubKeys = [key2], sig_SigData = [hash2]\<rparr>]\<rparr> = signed2"
    by (simp_all add: unsigned2_def signed2_def)
  ultimately show "ConstructionCombine lib2 (hex_encode (Serialization lib2 (imm0 unsigned2))) [Some sign2] =
     Ok (hex_encode (Serialization lib2 (imm0 signed2)))"
    using h by (simp add: ConstructionCombine_def d m wrap_res_def lib_def)
qed

section \<open>Properties\<close>

text \<open>C3: the construction flow keeps its promise for transfers of a token that is native or an OEP4
  token of the NeoVM, not a WASM one, whose contract is not the nil address, to a recipient that
  is not the null address. (The parser of payloads reads native and NeoVM invocations only, and
  the code of a WASM invocation is the library's.) Once preprocess and metadata have answered for
  two operations that describe such a transfer, payloads succeeds on the same operations; the
  transaction it returns has a nonce, is paid by the payer asked for or else by the sender, and
  has to be signed by the sender and by a different payer; and parsing the unsigned transaction
  gives operations that describe the very same transfer.\<close>

theorem construction_flow:
  assumes "env_ok E" "codec_ok C" "txlib_ok T" "calls_ok V T" "APPCALL V \<noteq> SYSCALL V" "toks_wf E (tokens s)"
    and "validateOps E s ops = Ok x" "ti_to x \<noteq> nullAddr E"
    and "tokens s (ti_contract x) = Some info" "\<not> ci_wasm info" "ti_contract x \<noteq> nilAddr"
    and "ConstructionPreprocess E C cast s fee multiplier md ops = Ok options"
    and "ConstructionMetadata E T C B N rand False s options = Some (Ok metadata)"
  shows "\<exists>r t parsed payer.
    ConstructionPayloads E T C s metadata ops = Ok r \<and> decodeTransaction T (pl_unsigned r) = Ok t \<and>
    tx_Nonce t \<noteq> 0 \<and> getPayer E md = Ok payer \<and>
    tx_Payer t = (if payer = ADDRESS_EMPTY then ti_from x else payer) \<and>
    map sp_bytes (pl_payloads r) = replicate (length (pl_payloads r)) (tx_Hash t) \<and>
    map (\<lambda>p. ai_address (sp_account p)) (pl_payloads r) =
      ToBase58 E (ti_from x) # (if tx_Payer t \<noteq> ti_from x then [ToBase58 E (tx_Payer t)] else []) \<and>
    ConstructionParse E V T s (pl_unsigned r) False = Ok parsed \<and>
    validateOps E s (Some (map Some (pr_operations parsed))) = Ok x"
proof (rule flow_payloads [OF assms])
  fix t payer r
  assume r: "ConstructionPayloads E T C s metadata ops = Ok r" "pl_unsigned r = hex_encode (Serialization T t)"
    "pl_payloads r = map (\<lambda>a. \<lparr>sp_account = (native_account E x (ti_from x))\<lparr>ai_address := a\<rparr>, sp_bytes = tx_Hash t,
       sp_type = Ed25519\<rparr>) (ToBase58 E (ti_from x) # (if tx_Payer t \<noteq> ti_from x then [ToBase58 E (tx_Payer t)] else []))"
    and d: "decodeTransaction T (hex_encode (Serialization T t)) = Ok t"
    and rest: "tx_Nonce t \<noteq> 0" "getPayer E md = Ok payer" "tx_Payer t = (if payer = ADDRESS_EMPTY then ti_from x else payer)"
      "validateOps E s (Some (map Some (appendOperations E [] x False))) = Ok x"
    and "\<And>data. decodeTransaction T data = Ok t \<Longrightarrow>
       \<exists>parsed. ConstructionParse E V T s data False = Ok parsed \<and> pr_operations parsed = appendOperations E [] x False"
  then obtain parsed where "ConstructionParse E V T s (pl_unsigned r) False = Ok parsed"
      "pr_operations parsed = appendOperations E [] x False" by metis
  then show ?thesis using r d rest by auto
qed

theorem construction_flow_witness:
  "\<exists>r t parsed. ConstructionPayloads env0 lib2 codec2 store2 (protobuf_map [2]) ops2 = Ok r \<and>
     ConstructionParse env0 vm0 lib2 store2 (pl_unsigned r) False = Ok parsed \<and>
     validateOps env0 store2 (Some (map Some (pr_operations parsed))) = Ok pay0"
proof -
  have "ti_contract pay0 = ongAddr env0" "ti_to pay0 \<noteq> nullAddr env0" using alice_bob by (simp_all add: pay0_def)
  then show ?thesis
    using construction_flow [OF env_ok_env0 codec_ok_codec2 lib2_ok _ store2_tokens(1) validate2 _ _ native_ong(1) _
        preprocess2 metadata2] store2_tokens(2) native_ong(2) by auto
qed

text \<open>C22: what metadata answers is ready to be signed: the amount, contract, parties and payer of
  the request, at least the minimal gas limit, the default gas price or the given or the
  chain's higher one, and a nonce other than 0 whose unsigned transaction is not in the index,
  unless no nonce was given and all hundred random ones are taken: then the last is used.\<close>

theorem Metadata_ready:
  assumes "codec_ok C" "decodeProtobuf C options = Ok opts"
    and "ConstructionMetadata E T C B N rand False s options = Some (Ok metadata)"
  shows "\<exists>price opts' t taken.
    getGasPrice N = Some price \<and> decodeProtobuf C metadata = Ok opts' \<and>
    opts' = opts\<lparr>co_gas_limit := max (co_gas_limit opts) (minGasLimit E),
      co_gas_price := (case price of
         Ok p \<Rightarrow> if p > co_gas_price opts then p else max (co_gas_price opts) 2500
       | _ \<Rightarrow> max (co_gas_price opts) 2500),
      co_nonce := co_nonce opts'\<rparr> \<and>
    co_nonce opts' \<noteq> 0 \<and> constructTransfer E T s opts' = Ok t \<and> checkUnsignedTxHash B s (tx_Hash t) = Ok taken \<and>
    (taken \<longrightarrow> co_nonce opts = 0 \<and>
      (\<forall>j<100. \<exists>buf nonce t'. rand j = Inr buf \<and> le_get32 buf = Some nonce \<and>
         constructTransfer E T s (opts'\<lparr>co_nonce := nonce\<rparr>) = Ok t' \<and> checkUnsignedTxHash B s (tx_Hash t') = Ok True))"
proof (rule Metadata_options [OF assms(1,3,2)])
  fix price opts1 opts2
  assume m: "getGasPrice N = Some price" "fill_gas E price opts = Ok opts1" "choose_nonce E T B s rand opts1 = Ok opts2"
    "decodeProtobuf C metadata = Ok opts2"
  obtain n where n: "opts2 = opts1\<lparr>co_nonce := n\<rparr>" using choose_nonce_result(1) [OF m(3)] by blast
  obtain t taken where t: "constructTransfer E T s opts2 = Ok t" "checkUnsignedTxHash B s (tx_Hash t) = Ok taken"
    using choose_nonce_constructs [OF m(3)] .
  have "co_nonce opts1 = 0 \<and> all_taken E T B s rand opts1 0 100" if "taken"
    using that t choose_nonce_result(3) [OF m(3)] by (auto simp: nonce_taken_def wrap_res_def)
  then have all: "taken \<Longrightarrow> j < 100 \<Longrightarrow> \<exists>buf nonce t'. rand j = Inr buf \<and> le_get32 buf = Some nonce \<and>
         constructTransfer E T s (opts2\<lparr>co_nonce := nonce\<rparr>) = Ok t' \<and> checkUnsignedTxHash B s (tx_Hash t') = Ok True" for j
    unfolding all_taken_def n using nonce_taken_False by fastforce
  have zero: "taken \<Longrightarrow> co_nonce opts = 0"
    using \<open>taken \<Longrightarrow> co_nonce opts1 = 0 \<and> all_taken E T B s rand opts1 0 100\<close> fill_gas_result(6) [OF m(2)] by simp
  have "opts2 = opts\<lparr>co_gas_limit := max (co_gas_limit opts) (minGasLimit E),
      co_gas_price := (case price of
         Ok p \<Rightarrow> if p > co_gas_price opts then p else max (co_gas_price opts) 2500
       | _ \<Rightarrow> max (co_gas_price opts) 2500),
      co_nonce := co_nonce opts2\<rparr>"
    unfolding n using fill_gas_result [OF m(2)] by (cases opts; cases opts1) (simp add: defaultGasPrice_def split: res.split)
  then show ?thesis
    using m(1,4) t choose_nonce_result(2) [OF m(3)] all zero by blast
qed

theorem Metadata_ready_witness:
  "\<exists>opts' t. decodeProtobuf codec2 (protobuf_map [2]) = Ok opts' \<and> co_nonce opts' \<noteq> 0 \<and>
     constructTransfer env0 lib2 store2 opts' = Ok t"
proof -
  have "decodeProtobuf codec2 (protobuf_map [1]) = Ok opts_req"
    by (simp add: decodeProtobuf_def protobuf_map_def md_get_def hex_decode_encode codec2_def del: hex_encode.simps)
  then show ?thesis
    using Metadata_ready [OF codec_ok_codec2 _ metadata2] by blast
qed

text \<open>C11: combine answers only with a transaction that has the fields and the hash of the unsigned
  one, and one signature for each given, which verifies the hash under its Ed25519 key.\<close>

theorem Combine_signs:
  assumes "txlib_ok T" "ConstructionCombine T data sigs = Ok out"
  shows "\<exists>t t'. decodeTransaction T data = Ok t \<and> decodeTransaction T out = Ok t' \<and>
    tx_Hash t' = tx_Hash t \<and> tx_Payload t' = tx_Payload t \<and> tx_Nonce t' = tx_Nonce t \<and> tx_Payer t' = tx_Payer t \<and>
    tx_GasLimit t' = tx_GasLimit t \<and> tx_GasPrice t' = tx_GasPrice t \<and> tx_Sigs t' \<noteq> [] \<and>
    list_all2 (\<lambda>sg raw. \<exists>key osig. signs T (tx_Hash t) sg key osig \<and>
       GetSig T raw = Inr \<lparr>sig_M = 1, sig_PubKeys = [key], sig_SigData = [osig]\<rparr>) sigs (tx_Sigs t')"
proof (rule Combine_result [OF assms])
  fix t t'
  assume c: "decodeTransaction T data = Ok t" "decodeTransaction T out = Ok t'" "sigs \<noteq> []"
    "tx_Hash t' = tx_Hash t" "tx_GasLimit t' = tx_GasLimit t" "tx_GasPrice t' = tx_GasPrice t" "tx_Nonce t' = tx_Nonce t"
    "tx_Payer t' = tx_Payer t" "tx_Payload t' = tx_Payload t"
    and sigs: "list_all2 (\<lambda>sg raw. \<exists>key osig. signs T (tx_Hash t) sg key osig \<and>
       GetSig T raw = Inr \<lparr>sig_M = 1, sig_PubKeys = [key], sig_SigData = [osig]\<rparr>) sigs (tx_Sigs t')"
  have "tx_Sigs t' \<noteq> []" using c(3) list_all2_lengthD [OF sigs] by auto
  then show ?thesis using c sigs by blast
qed

theorem Combine_signs_witness:
  "\<exists>t'. decodeTransaction lib2 (hex_encode (Serialization lib2 (imm0 signed2))) = Ok t' \<and>
     tx_Hash t' = hash2 \<and> tx_Nonce t' = 7 \<and> length (tx_Sigs t') = 1"
proof -
  have "tx_Hash (imm0 unsigned2) = hash2" "tx_Nonce (imm0 unsigned2) = 7"
    by (simp_all add: imm0_def unsigned2_def hash2_def)
  then show ?thesis
    using Combine_signs [OF lib2_ok(1) combine2(1)] combine2(2) by (auto dest: list_all2_lengthD)
qed

text \<open>A combined transaction is parsed as signed to the operations of the unsigned one, with
  one signer per signature: the address of its key.\<close>

lemma Parse_combined:
  assumes "txlib_ok T" "ConstructionCombine T data sigs = Ok out"
    and "ConstructionParse E V T s data False = Ok parsed"
  shows "\<exists>signers. ConstructionParse E V T s out True = Ok (parsed\<lparr>pr_signers := signers\<rparr>) \<and>
    map ai_address signers = map (\<lambda>sg. ToBase58 E (AddressFromPubKey T (signed_key sg))) sigs"
proof (rule Combine_result [OF assms(1,2)])
  fix t t'
  assume c: "decodeTransaction T data = Ok t" "decodeTransaction T out = Ok t'" "sigs \<noteq> []"
    "tx_Hash t' = tx_Hash t" "tx_GasLimit t' = tx_GasLimit t" "tx_GasPrice t' = tx_GasPrice t" "tx_Nonce t' = tx_Nonce t"
    "tx_Payer t' = tx_Payer t" "tx_Payload t' = tx_Payload t"
    and sigs: "list_all2 (\<lambda>sg raw. \<exists>key osig. signs T (tx_Hash t) sg key osig \<and>
       GetSig T raw = Inr \<lparr>sig_M = 1, sig_PubKeys = [key], sig_SigData = [osig]\<rparr>) sigs (tx_Sigs t')"
  have ne: "tx_Sigs t' \<noteq> []" using c(3) list_all2_lengthD [OF sigs] by auto
  obtain ops info where p: "parsePayload V E s (tx_Payload t) = Ok (ops, info)"
    using assms(3) c(1) by (auto simp: ConstructionParse_def res_simps)
  show ?thesis
    using assms(3) c(1,2,5-9) p ne parse_signers_of [OF sigs, of E info]
    by (auto simp: ConstructionParse_def comp_def split: if_splits option.splits)
qed

lemma Parse_combined_example:
  "\<exists>r. ConstructionParse env0 vm0 lib2 store2 (hex_encode (Serialization lib2 (imm0 signed2))) True = Ok r \<and>
     map ai_address (pr_signers r) = [ToBase58 env0 (replicate 20 9)]"
proof -
  have "\<exists>parsed. ConstructionParse env0 vm0 lib2 store2 (hex_encode (Serialization lib2 (imm0 unsigned2))) False = Ok parsed"
  proof -
    have "parsePayload vm0 env0 store2 (tx_Payload (imm0 unsigned2)) =
        Ok (appendOperations env0 [] pay0 False, native_currency env0 (ongAddr env0) 18 ''ONG'')"
      using lib2_ok store2_tokens(2) native_ong
      by (intro parse_constructed [OF env_ok_env0 lib2_ok _ _ _ _ native_ong(1) _ _ _ construct2])
        (simp_all add: options_for_def opts_fin_def opts_req_def pay0_def)
    from Parse_transfer [OF this combine2(2), of False] show ?thesis
      using alice_bob by (simp add: pay0_def)
  qed
  then obtain parsed where
    "ConstructionParse env0 vm0 lib2 store2 (hex_encode (Serialization lib2 (imm0 unsigned2))) False = Ok parsed" ..
  then obtain signers where s: "map ai_address signers =
      map (\<lambda>sg. ToBase58 env0 (AddressFromPubKey lib2 (signed_key sg))) [Some sign2]"
    "ConstructionParse env0 vm0 lib2 store2 (hex_encode (Serialization lib2 (imm0 signed2))) True =
       Ok (parsed\<lparr>pr_signers := signers\<rparr>)"
    using Parse_combined [OF lib2_ok(1) combine2(1), of env0 vm0 store2 parsed] by blast
  have "AddressFromPubKey lib2 (signed_key (Some sign2)) = replicate 20 9"
    by (simp add: lib2_def txlib0_def signed_key_def sign2_def key2_def)
  then show ?thesis using s by (intro exI [of _ "parsed\<lparr>pr_signers := signers\<rparr>"]) simp
qed

text \<open>C33: combine panics exactly when, after signatures that are all accepted, it meets a null
  signature or one with a good key and an unsupported type but no signing payload, which the
  error message reads before the code checks that it is there.\<close>

theorem Combine_panics:
  "ConstructionCombine T data sigs = Panic \<longleftrightarrow>
    (\<exists>t m before sg after. decodeTransaction T data = Ok t \<and> IntoMutable T t = Inr m \<and> ct_Sigs m = [] \<and>
      sigs = before @ sg # after \<and>
      (\<exists>osigs. map_res (\<lambda>sig. bind_res (deref sig) (combine_signature T (TxHash T m))) before = Ok osigs) \<and>
      (case sg of
         None \<Rightarrow> True
       | Some sig \<Rightarrow>
           (\<exists>key. sg_PublicKey sig = Some (Edwards25519, key) \<and> length key = 32) \<and>
           sg_SignatureType sig \<noteq> Ed25519 \<and> sg_SigningPayload sig = None))"
proof -
  have combine: "bind_res (deref sg) (combine_signature T h) = Panic \<longleftrightarrow>
      (case sg of
         None \<Rightarrow> True
       | Some sig \<Rightarrow>
           (\<exists>key. sg_PublicKey sig = Some (Edwards25519, key) \<and> length key = 32) \<and>
           sg_SignatureType sig \<noteq> Ed25519 \<and> sg_SigningPayload sig = None)" for sg h
    by (cases sg) (simp_all add: combine_signature_panic)
  have "ConstructionCombine T data sigs = Panic \<longleftrightarrow>
      (\<exists>t m. decodeTransaction T data = Ok t \<and> IntoMutable T t = Inr m \<and> ct_Sigs m = [] \<and>
        map_res (\<lambda>sig. bind_res (deref sig) (combine_signature T (TxHash T m))) sigs = Panic)"
    by (auto simp: ConstructionCombine_def res_simps split: if_splits)
  then show ?thesis unfolding map_res_panic combine by blast
qed

theorem Combine_panics_witness:
  "ConstructionCombine lib2 (hex_encode (Serialization lib2 (imm0 unsigned2)))
     [Some (sign2\<lparr>sg_SignatureType := ''ecdsa'', sg_SigningPayload := None\<rparr>)] = Panic"
proof -
  have "IntoMutable lib2 (imm0 unsigned2) = Inr unsigned2" "ct_Sigs unsigned2 = []" "length key2 = 32"
    "''ecdsa'' \<noteq> Ed25519"
    by (simp_all add: lib2_def txlib0_def index_in_def unsigned2_def key2_def Ed25519_def)
  then show ?thesis
    unfolding Combine_panics using combine2(2)
    by (intro exI [of _ "imm0 unsigned2"] exI [of _ unsigned2] exI [of _ "[]"] exI [of _ "Some (sign2\<lparr>sg_SignatureType := ''ecdsa'', sg_SigningPayload := None\<rparr>)"])
      (simp add: sign2_def)
qed

end
