(* ===== verification/Validate.thy ===== *)
theory Validate
  imports Lookup
begin

text \<open>
  \<^verbatim>\<open>Store.Validate\<close> of src/services/store.go: the check of the stored balances against the chain
  behind \<^verbatim>\<open>--validate-store\<close>, with the balance queries of src/chain/chain.go. The node's
  transaction builders and the pre-execution of a contract are the record \<open>ledger\<close>.
\<close>

section \<open>Balances on the chain\<close>

text \<open>The result of a pre-execution is an untyped value, in the contract's case a hexadecimal string.\<close>

record ('m, 't) ledger =
  NewNeovmInvokeTransaction :: "u64 \<Rightarrow> u64 \<Rightarrow> address \<Rightarrow> string \<Rightarrow> address list \<Rightarrow> string + 'm"
  NewNativeInvokeTransaction :: "u64 \<Rightarrow> u64 \<Rightarrow> address \<Rightarrow> byte \<Rightarrow> string \<Rightarrow> address list \<Rightarrow> string + 'm"
  LedgerImmutable :: "'m \<Rightarrow> string + 't"
  PreExecuteContract :: "'t \<Rightarrow> string + jval"

definition ext :: "string + 'a \<Rightarrow> (go_error, 'a) res" where
  "ext r = (case r of Inl e \<Rightarrow> Err (ExtError e) | Inr a \<Rightarrow> Ok a)"

definition Exec :: "('m, 't) ledger \<Rightarrow> address \<Rightarrow> string \<Rightarrow> address list \<Rightarrow> (go_error, jval) res" where
  "Exec L contract meth params =
     bind_res (ext (NewNeovmInvokeTransaction L 0 0 contract meth params)) (\<lambda>mut.
     bind_res (ext (LedgerImmutable L mut)) (\<lambda>txn.
     ext (PreExecuteContract L txn)))"

definition NativeExec :: "('m, 't) ledger \<Rightarrow> address \<Rightarrow> string \<Rightarrow> address list \<Rightarrow> (go_error, jval) res" where
  "NativeExec L contract meth params =
     bind_res (ext (NewNativeInvokeTransaction L 0 0 contract 0 meth params)) (\<lambda>mut.
     bind_res (ext (LedgerImmutable L mut)) (\<lambda>txn.
     ext (PreExecuteContract L txn)))"

text \<open>The type the message names is that of the whole result.\<close>

definition BalanceOf :: "env \<Rightarrow> ('m, 't) ledger \<Rightarrow> address \<Rightarrow> address \<Rightarrow> (go_error, int) res" where
  "BalanceOf E L acct contract =
     bind_res (Exec L contract ''balanceOf'' [acct]) (\<lambda>result.
     case result of
       JString raw \<Rightarrow>
         (case hex_decode raw of
            None \<Rightarrow> Err (ExtError ''encoding/hex: invalid input'')
          | Some val \<Rightarrow> Ok (BigIntFromNeoBytes E val))
     | _ \<Rightarrow> Err (Errorf ''chain: unexpected \"balanceOf\" response type: %s'' [ArgStr ''*states.PreExecResult'']))"

definition NativeBalanceOf :: "env \<Rightarrow> ('m, 't) ledger \<Rightarrow> address \<Rightarrow> address \<Rightarrow> (go_error, int) res" where
  "NativeBalanceOf E L acct contract =
     bind_res (NativeExec L contract ''balanceOfV2'' [acct]) (\<lambda>result.
     case result of
       JString raw \<Rightarrow>
         (case hex_decode raw of
            None \<Rightarrow> Err (ExtError ''encoding/hex: invalid input'')
          | Some val \<Rightarrow> Ok (BigIntFromNeoBytes E val))
     | _ \<Rightarrow> Err (Errorf ''chain: unexpected \"balanceOfV2\" response type: %s'' [ArgStr ''*states.PreExecResult'']))"

section \<open>The accounts of the store\<close>

record accountInfo =
  vi_acct :: address
  vi_contract :: address
  vi_key :: bytes
  vi_native :: bool

text \<open>
  The keys come in descending order, so the first of each account and contract is that of its
  latest entry; \<open>ident\<close> is the account and contract seen last.
\<close>

fun scan_accounts :: "env \<Rightarrow> bytes \<Rightarrow> item list \<Rightarrow> (go_error, accountInfo list) res" where
  "scan_accounts E ident [] = Ok []"
| "scan_accounts E ident (it # items) =
     bind_res (split_account_key E (fst it)) (\<lambda>(pre, acct, contract, native).
     if pre = ident then scan_accounts E ident items
     else
       bind_res (scan_accounts E pre items) (\<lambda>accts.
       Ok (\<lparr>vi_acct = acct, vi_contract = contract, vi_key = fst it, vi_native = native\<rparr> # accts)))"

definition account_items :: "'db badger \<Rightarrow> 'db \<Rightarrow> item list" where
  "account_items B d = takeWhile (\<lambda>it. prefix [97] (fst it)) (db_seek B d [98])"

text \<open>
  One account: a difference is an error for a native contract and a warning, which the result
  holds, for an OEP4 token.
\<close>

definition on_chain :: "env \<Rightarrow> ('m, 't) ledger \<Rightarrow> bool \<Rightarrow> address \<Rightarrow> address \<Rightarrow> (go_error, int) res" where
  "on_chain E L native acct contract =
     (if native then NativeBalanceOf E L acct contract else BalanceOf E L acct contract)"

definition compare_value :: "env \<Rightarrow> accountInfo \<Rightarrow> int \<Rightarrow> berr + bytes \<Rightarrow> go_error option" where
  "compare_value E info balance val =
     (case val of
        Inl err \<Rightarrow> Some (berr_error err)
      | Inr val \<Rightarrow>
          let amount = big_set_bytes val in
          if amount \<noteq> balance then
            Some (Errorf ''balance of account %s for %s (%d) does not match: stored (%s), on chain (%s)''
              [ArgStr (ToBase58 E (vi_acct info)), ArgStr (ToHexString E (vi_contract info)), ArgInt amount, ArgInt balance])
          else None)"

definition check_account ::
  "env \<Rightarrow> 'db badger \<Rightarrow> ('m, 't) ledger \<Rightarrow> 'db \<Rightarrow> accountInfo \<Rightarrow> (go_error, go_error option) res" where
  "check_account E B L d info =
     (case on_chain E L (vi_native info) (vi_acct info) (vi_contract info) of
        Err err \<Rightarrow> Err (Errorf ''unable to get balanceOf account %s for %s (%d): %s''
          [ArgStr (ToBase58 E (vi_acct info)), ArgStr (ToHexString E (vi_contract info)), ArgErr err])
      | Panic \<Rightarrow> Panic
      | Ok balance \<Rightarrow>
          (case db_get B d (vi_key info) of
             Inl err \<Rightarrow> Err (Errorf ''unable to get stored balance of account %s for %s (%d): %s''
               [ArgStr (ToBase58 E (vi_acct info)), ArgStr (ToHexString E (vi_contract info)), ArgErr (berr_error err)])
           | Inr it \<Rightarrow>
               (case compare_value E info balance (snd it) of
                  None \<Rightarrow> Ok None
                | Some err \<Rightarrow> if vi_native info then Err err else Ok (Some err))))"

text \<open>An error ends the process (\<^verbatim>\<open>log.Fatalf\<close>).\<close>

definition Validate ::
  "env \<Rightarrow> 'db badger \<Rightarrow> ('m, 't) ledger \<Rightarrow> u32 \<Rightarrow> 'db store \<Rightarrow> (go_error, go_error option list) res" where
  "Validate E B L latest_height s =
     (if getHeight s \<noteq> latest_height then
        Err (Errorf ''Indexed height %d does not match latest synced block %d''
          [ArgInt (uint (getHeight s)), ArgInt (uint latest_height)])
      else
        (case scan_accounts E [] (account_items B (st_db s)) of
           Err err \<Rightarrow> Err (Errorf ''Unable to calculate number of unique accounts: %s'' [ArgErr err])
         | Panic \<Rightarrow> Panic
         | Ok accts \<Rightarrow>
             (case map_res (check_account E B L (st_db s)) accts of
                Err err \<Rightarrow> Err (Errorf ''Unable to validate account balances: %s'' [ArgErr err])
              | Panic \<Rightarrow> Panic
              | Ok warnings \<Rightarrow> Ok warnings)))"

section \<open>What the scan finds\<close>

lemma acct_prefix_neq:
  "env_ok E \<Longrightarrow> is_addr a \<Longrightarrow> is_addr b \<Longrightarrow> is_addr c \<Longrightarrow> is_addr d \<Longrightarrow>
   acct_prefix E a c = acct_prefix E b d \<longleftrightarrow> a = b \<and> c = d"
  using acct_prefix_iff [of E a b c d 0] by (auto simp: acct_key_eq)

definition acct_entry :: "env \<Rightarrow> bytes \<Rightarrow> bool" where
  "acct_entry E k \<longleftrightarrow> (\<exists>a c h. is_addr a \<and> is_addr c \<and> k = acct_key E a c h)"

text \<open>The greatest key of an account and a contract in a set of keys.\<close>

definition last_key :: "env \<Rightarrow> bytes set \<Rightarrow> address \<Rightarrow> address \<Rightarrow> bytes \<Rightarrow> bool" where
  "last_key E K a c k \<longleftrightarrow> k \<in> K \<and> (\<exists>h. k = acct_key E a c h) \<and> (\<forall>h. acct_key E a c h \<in> K \<longrightarrow> acct_key E a c h \<le> k)"

definition account_of_key :: "env \<Rightarrow> address \<Rightarrow> address \<Rightarrow> bytes \<Rightarrow> accountInfo" where
  "account_of_key E a c k = \<lparr>vi_acct = a, vi_contract = c, vi_key = k, vi_native = (hd (addr2slice E c) = 1)\<rparr>"

lemma last_key_insert_other:
  assumes "env_ok E" "is_addr a" "is_addr c" "is_addr b" "is_addr d" "(a, c) \<noteq> (b, d)"
  shows "last_key E (insert (acct_key E b d h) K) a c k \<longleftrightarrow> last_key E K a c k"
  using assms by (auto simp: last_key_def acct_key_inj)

lemma last_key_insert_max:
  assumes "\<forall>k\<in>K. k < acct_key E a c h"
  shows "last_key E (insert (acct_key E a c h) K) a c k \<longleftrightarrow> k = acct_key E a c h"
  using assms by (auto simp: last_key_def intro: less_imp_le dest: leD)

text \<open>Keys between two entries of one account and contract are entries of the same.\<close>

lemma between_entries:
  assumes "env_ok E" "is_addr a" "is_addr c" "is_addr b" "is_addr d"
    and "acct_key E a c h1 \<le> acct_key E b d h" "acct_key E b d h \<le> acct_key E a c h2"
  shows "a = b \<and> c = d"
proof -
  have "prefix (acct_prefix E a c) (acct_key E b d h)"
    using assms(6,7) by (auto intro: prefix_sandwich simp: acct_key_eq)
  then show ?thesis using acct_prefix_iff assms(1-5) by blast
qed

lemma scan_accounts_result:
  assumes E: "env_ok E"
  shows "sorted_wrt (>) (map fst items) \<Longrightarrow> \<forall>it\<in>set items. acct_entry E (fst it) \<Longrightarrow>
    ident = [] \<or> (\<exists>a c h. is_addr a \<and> is_addr c \<and> ident = acct_prefix E a c \<and> (\<forall>it\<in>set items. fst it < acct_key E a c h)) \<Longrightarrow>
    \<exists>xs. scan_accounts E ident items = Ok xs \<and>
      set xs = {account_of_key E a c k | a c k. is_addr a \<and> is_addr c \<and> acct_prefix E a c \<noteq> ident \<and>
        last_key E (fst ` set items) a c k}"
proof (induction items arbitrary: ident)
  case Nil
  then show ?case by (simp add: last_key_def)
next
  case (Cons it items)
  obtain a c h where k: "is_addr a" "is_addr c" "fst it = acct_key E a c h"
    using Cons.prems(2) by (auto simp: acct_entry_def)
  let ?p = "acct_prefix E a c" and ?K = "fst ` set items"
  have split: "split_account_key E (fst it) = Ok (?p, a, c, hd (addr2slice E c) = 1)"
    using split_account_key_acct_key [OF E k(1,2)] k(3) by simp
  have below: "\<forall>k'\<in>?K. k' < acct_key E a c h" using Cons.prems(1) k(3) by auto
  have sorted: "sorted_wrt (>) (map fst items)" and entries: "\<forall>it\<in>set items. acct_entry E (fst it)"
    using Cons.prems(1,2) by simp_all
  have K: "fst ` set (it # items) = insert (acct_key E a c h) ?K" using k(3) by simp
  have other: "last_key E (insert (acct_key E a c h) ?K) a' c' k' \<longleftrightarrow> last_key E ?K a' c' k'"
    if "is_addr a'" "is_addr c'" "acct_prefix E a' c' \<noteq> ?p" for a' c' k'
    using last_key_insert_other [OF E that(1,2) k(1,2)] that(3) by auto
  show ?case
  proof (cases "?p = ident")
    case True
    have "\<exists>a c h. is_addr a \<and> is_addr c \<and> ident = acct_prefix E a c \<and> (\<forall>it\<in>set items. fst it < acct_key E a c h)"
      using k(1,2) True below by blast
    then obtain xs where xs: "scan_accounts E ident items = Ok xs"
      "set xs = {account_of_key E a c k | a c k. is_addr a \<and> is_addr c \<and> acct_prefix E a c \<noteq> ident \<and> last_key E ?K a c k}"
      using Cons.IH [OF sorted entries, of ident] by blast
    moreover have "scan_accounts E ident (it # items) = Ok xs" using split True xs(1) by simp
    moreover have "{account_of_key E a' c' k' | a' c' k'. is_addr a' \<and> is_addr c' \<and> acct_prefix E a' c' \<noteq> ident \<and>
          last_key E (insert (acct_key E a c h) ?K) a' c' k'} =
        {account_of_key E a c k | a c k. is_addr a \<and> is_addr c \<and> acct_prefix E a c \<noteq> ident \<and> last_key E ?K a c k}"
      using other True by blast
    ultimately show ?thesis unfolding K by simp
  next
    case False
    have "\<exists>a' c' h. is_addr a' \<and> is_addr c' \<and> ?p = acct_prefix E a' c' \<and> (\<forall>it\<in>set items. fst it < acct_key E a' c' h)"
      using k(1,2) below by blast
    then obtain xs where xs: "scan_accounts E ?p items = Ok xs"
      "set xs = {account_of_key E a c k | a c k. is_addr a \<and> is_addr c \<and> acct_prefix E a c \<noteq> ?p \<and> last_key E ?K a c k}"
      using Cons.IH [OF sorted entries, of ?p] by blast
    have scan: "scan_accounts E ident (it # items) = Ok (account_of_key E a c (acct_key E a c h) # xs)"
      using split False xs(1) k(3) by (simp add: account_of_key_def)
    have gone: "acct_prefix E a' c' \<noteq> ident"
      if addrs: "is_addr a'" "is_addr c'" and last: "last_key E ?K a' c' k'" for a' c' k'
    proof
      assume i: "acct_prefix E a' c' = ident"
      obtain h' where h': "k' = acct_key E a' c' h'" "k' \<in> ?K" using last unfolding last_key_def by blast
      have "ident \<noteq> []" using i by (auto simp: acct_prefix_eq)
      then obtain a0 c0 h0 where old: "is_addr a0" "is_addr c0" "ident = acct_prefix E a0 c0"
          "fst it < acct_key E a0 c0 h0"
        using Cons.prems(3) by auto
      have "a0 = a'" "c0 = c'" using i old(1-3) addrs acct_prefix_neq [OF E] by blast+
      then have "a' = a \<and> c' = c"
        using between_entries [OF E addrs k(1,2), of h' h h0] h' below old(4) k(3) by (auto intro: less_imp_le)
      then show False using False i by simp
    qed
    have "{account_of_key E a' c' k' | a' c' k'. is_addr a' \<and> is_addr c' \<and> acct_prefix E a' c' \<noteq> ident \<and>
          last_key E (insert (acct_key E a c h) ?K) a' c' k'} =
        insert (account_of_key E a c (acct_key E a c h))
          {account_of_key E a c k | a c k. is_addr a \<and> is_addr c \<and> acct_prefix E a c \<noteq> ?p \<and> last_key E ?K a c k}"
      (is "?L = ?R")
    proof (intro equalityI subsetI)
      fix x assume "x \<in> ?L"
      then obtain a' c' k' where x: "x = account_of_key E a' c' k'" "is_addr a'" "is_addr c'"
        "last_key E (insert (acct_key E a c h) ?K) a' c' k'" by blast
      show "x \<in> ?R"
      proof (cases "acct_prefix E a' c' = ?p")
        case True
        then have "a' = a" "c' = c" using acct_prefix_neq [OF E x(2) k(1) x(3) k(2)] by simp_all
        then show ?thesis using x last_key_insert_max [OF below] by auto
      next
        case False
        then show ?thesis using x other by blast
      qed
    next
      fix x assume "x \<in> ?R"
      then consider "x = account_of_key E a c (acct_key E a c h)"
        | a' c' k' where "x = account_of_key E a' c' k'" "is_addr a'" "is_addr c'" "acct_prefix E a' c' \<noteq> ?p" "last_key E ?K a' c' k'"
        by blast
      then show "x \<in> ?L"
      proof cases
        case 1
        have "last_key E (insert (acct_key E a c h) ?K) a c (acct_key E a c h)" using last_key_insert_max [OF below] by blast
        then show ?thesis using 1 k(1,2) False by blast
      next
        case 2
        then show ?thesis using other [OF 2(2-4)] gone [OF 2(2,3,5)] by blast
      qed
    qed
    then show ?thesis unfolding K using scan xs(2) by simp
  qed
qed

section \<open>The accounts of a database\<close>

lemma sorted_wrt_takeWhile: "sorted_wrt P xs \<Longrightarrow> sorted_wrt P (takeWhile Q xs)"
  by (induction xs) (auto dest: set_takeWhileD)

text \<open>
  Below the single byte \<^verbatim>\<open>'b'\<close> the account entries come first: a key that follows another of a
  descending list and starts with \<^verbatim>\<open>'a'\<close> is never behind one that starts lower.
\<close>

lemma takeWhile_prefix_desc:
  assumes "sorted_wrt (>) (map fst items)" "\<forall>it\<in>set items. fst it \<noteq> [] \<and> hd (fst it) \<le> (97 :: byte)"
  shows "set (takeWhile (\<lambda>it. prefix [97] (fst it)) items) = {it \<in> set items. hd (fst it) = 97}"
  using assms
proof (induction items)
  case (Cons it items)
  have p: "prefix [97] (fst i) \<longleftrightarrow> hd (fst i) = 97" if "i \<in> set (it # items)" for i
    using Cons.prems(2) that by (cases "fst i") auto
  show ?case
  proof (cases "hd (fst it) = 97")
    case True
    then show ?thesis using Cons p by auto
  next
    case False
    then have "hd (fst it) < 97" using Cons.prems(2) by (simp add: order_less_le)
    moreover have "hd (fst i) \<le> hd (fst it)" if "i \<in> set items" for i
    proof -
      have "fst i < fst it" using Cons.prems(1) that by auto
      then show ?thesis using Cons.prems(2) that by (cases "fst i"; cases "fst it") auto
    qed
    ultimately show ?thesis using False p by fastforce
  qed
qed simp

text \<open>The key that the reverse scan starts from is not in use: block keys are five bytes long.\<close>

lemma account_items_ok:
  assumes "badger_ok B con" "acct_keys_ok E (con d)" "con d [98] = None"
  shows "sorted_wrt (>) (map fst (account_items B d))" "\<forall>it\<in>set (account_items B d). acct_entry E (fst it)"
    "fst ` set (account_items B d) = {k. con d k \<noteq> None \<and> acct_entry E k}"
proof -
  let ?items = "db_seek B d [98]"
  have scan: "sorted_wrt (>) (map fst ?items)" "set ?items = {(k, Inr v) | k v. con d k = Some v \<and> k \<le> [98]}"
    using badger_seek [OF assms(1), of d "[98]"] by (simp_all add: scan_ok_def)
  have heads: "k \<noteq> [] \<and> hd k \<le> 97" if "con d k \<noteq> None" "k \<le> [98]" for k
  proof -
    have "k \<noteq> []" using assms(2) that(1) by (simp add: acct_keys_ok_def)
    moreover have "k \<noteq> [98]" using assms(3) that(1) by auto
    ultimately show ?thesis
      using that(2) by (cases k) (auto simp: word_le_nat_alt word_less_nat_alt)
  qed
  then have "set (account_items B d) = {it \<in> set ?items. hd (fst it) = 97}"
    unfolding account_items_def using scan by (intro takeWhile_prefix_desc) auto
  then have set: "set (account_items B d) = {(k, Inr v) | k v. con d k = Some v \<and> k \<le> [98] \<and> hd k = 97}"
    unfolding scan(2) by auto
  show "sorted_wrt (>) (map fst (account_items B d))"
    using scan(1) unfolding account_items_def sorted_wrt_map by (rule sorted_wrt_takeWhile)
  have entry: "acct_entry E k \<longleftrightarrow> hd k = 97" if "con d k \<noteq> None" for k
    using assms(2) that unfolding acct_keys_ok_def acct_entry_def by (metis acct_key_hd(1))
  have le: "k \<le> [98]" if "hd k = 97" for k :: bytes
    using that by (cases k) auto
  show "\<forall>it\<in>set (account_items B d). acct_entry E (fst it)"
    unfolding set using entry by fastforce
  show "fst ` set (account_items B d) = {k. con d k \<noteq> None \<and> acct_entry E k}"
    unfolding set using entry le by (force simp: image_iff)
qed

text \<open>Writing a block keeps that key unused.\<close>

lemma block_contents_start: "block_contents E m ds state data [98] = m [98]"
proof -
  have ne: "[98] \<noteq> k" if "hd k \<noteq> 98 \<or> length k \<noteq> 1" for k :: bytes using that by auto
  have "[98] \<noteq> heightKey" "[98] \<noteq> blockHeight2HashKey h" "[98] \<noteq> blockHash2HeightKey x" "[98] \<noteq> blockKey h"
    "[98] \<noteq> txnHashKey x" for h x
    by (rule ne, simp add: blockKey_eq)+
  moreover from this have "[98] \<notin> txnHashKey ` set (bs_hashes state)" by blast
  ultimately have "map_of (rev (block_writes state data)) [98] = None" by (simp add: map_of_block_writes)
  then show ?thesis by (simp add: block_contents_other map_add_def)
qed

lemma setBlock_start:
  assumes "badger_ok B con" "env_ok E" "acct_keys_ok E (con (st_db s))" "diffs_ok ds"
    and "bs_changes state = map (change_at E (bid_height (bs_id state))) ds" "setBlock B C s state = Ok s'"
  shows "con (st_db s') [98] = con (st_db s) [98]"
  using setBlock_effect [OF assms] block_contents_start by metis

lemma scan_database:
  assumes "badger_ok B con" "env_ok E" "acct_keys_ok E (con d)" "con d [98] = None"
  obtains xs where "scan_accounts E [] (account_items B d) = Ok xs"
    "set xs = {account_of_key E a c k | a c k. is_addr a \<and> is_addr c \<and>
       last_key E {k. con d k \<noteq> None \<and> acct_entry E k} a c k}"
  using scan_accounts_result [OF assms(2) account_items_ok(1,2) [OF assms(1,3,4)], of "[]"]
  unfolding account_items_ok(3) [OF assms(1,3,4)] by (auto simp: acct_prefix_eq)

text \<open>The last key of an account and a contract holds its latest balance.\<close>

lemma last_key_latest:
  assumes "is_addr a" "is_addr c" "last_key E {k. m k \<noteq> None \<and> acct_entry E k} a c k"
  shows "m k \<noteq> None" "k \<noteq> []" "big_set_bytes (the (m k)) = latest (acct_hist E m a c) (2 ^ 32 - 1)"
proof -
  have "acct_entry E (acct_key E a c h)" for h using assms(1,2) by (auto simp: acct_entry_def)
  then obtain h where h: "k = acct_key E a c h" "m k \<noteq> None" "\<And>h'. m (acct_key E a c h') \<noteq> None \<Longrightarrow> h' \<le> h"
    using assms(3) unfolding last_key_def by (auto simp: acct_key_le_iff)
  then show "m k \<noteq> None" "k \<noteq> []" by simp_all
  have "latest (acct_hist E m a c) (2 ^ 32 - 1) = big_set_bytes (the (m k))"
  proof (rule latest_eq [of "unat h"])
    show "unat h \<le> 2 ^ 32 - 1" using unat_u32_less [of h] by simp
    show "acct_hist E m a c (unat h) = Some (big_set_bytes (the (m k)))" using h(1,2) by auto
    show "acct_hist E m a c n = None" if "unat h < n" "n \<le> 2 ^ 32 - 1" for n
    proof -
      have "unat (word_of_nat n :: u32) = n" using that by (intro unat_of_nat_u32) simp
      then have "\<not> (word_of_nat n :: u32) \<le> h" using that by (simp add: word_le_nat_alt)
      then show ?thesis using h(3) by (auto simp: acct_hist_None_iff)
    qed
  qed
  then show "big_set_bytes (the (m k)) = latest (acct_hist E m a c) (2 ^ 32 - 1)" ..
qed

lemma last_key_exists:
  assumes "is_addr a" "is_addr c" "m (acct_key E a c h) \<noteq> None"
  shows "\<exists>k. last_key E {k. m k \<noteq> None \<and> acct_entry E k} a c k"
proof -
  let ?H = "{h. m (acct_key E a c h) \<noteq> None}"
  have "finite ?H" "?H \<noteq> {}" using assms(3) by auto
  then have "Max ?H \<in> ?H" "\<forall>h\<in>?H. h \<le> Max ?H" by (rule Max_in, simp)
  then show ?thesis
    using assms(1,2) by (intro exI [of _ "acct_key E a c (Max ?H)"]) (auto simp: last_key_def acct_entry_def acct_key_le_iff)
qed

lemma check_account_iff:
  assumes "badger_ok B con" "con d k = Some v" "k \<noteq> []"
  shows "(\<exists>w. check_account E B L d (account_of_key E a c k) = Ok w) \<longleftrightarrow>
    (\<exists>balance. on_chain E L (hd (addr2slice E c) = 1) a c = Ok balance \<and>
       (hd (addr2slice E c) = 1 \<longrightarrow> big_set_bytes v = balance))"
  using assms
  by (auto simp: check_account_def account_of_key_def badger_get compare_value_def Let_def split: res.split)

section \<open>Properties\<close>

text \<open>C17: validation passes exactly when the index is at the chain's height, the node answers with
  a balance for every account and contract that has an entry, and for the native contracts that
  balance is the latest stored one. Every account is checked once, at its latest entry.\<close>

theorem Validate_accepts:
  assumes "badger_ok B con" "env_ok E" "acct_keys_ok E (con (st_db s))" "con (st_db s) [98] = None"
  shows "(\<exists>warnings. Validate E B L tip s = Ok warnings) \<longleftrightarrow>
    getHeight s = tip \<and>
    (\<forall>a c h. is_addr a \<and> is_addr c \<and> con (st_db s) (acct_key E a c h) \<noteq> None \<longrightarrow>
       (\<exists>balance. on_chain E L (hd (addr2slice E c) = 1) a c = Ok balance \<and>
          (hd (addr2slice E c) = 1 \<longrightarrow> latest (acct_hist E (con (st_db s)) a c) (2 ^ 32 - 1) = balance)))"
proof -
  let ?m = "con (st_db s)"
  let ?ok = "\<lambda>a c. \<exists>balance. on_chain E L (hd (addr2slice E c) = 1) a c = Ok balance \<and>
      (hd (addr2slice E c) = 1 \<longrightarrow> latest (acct_hist E ?m a c) (2 ^ 32 - 1) = balance)"
  obtain xs where xs: "scan_accounts E [] (account_items B (st_db s)) = Ok xs"
    "set xs = {account_of_key E a c k | a c k. is_addr a \<and> is_addr c \<and>
       last_key E {k. ?m k \<noteq> None \<and> acct_entry E k} a c k}"
    using scan_database [OF assms] by blast
  have one: "(\<exists>w. check_account E B L (st_db s) (account_of_key E a c k) = Ok w) \<longleftrightarrow> ?ok a c"
    if "is_addr a" "is_addr c" "last_key E {k. ?m k \<noteq> None \<and> acct_entry E k} a c k" for a c k
  proof -
    have "?m k \<noteq> None" by (rule last_key_latest(1) [OF that])
    then obtain v where v: "?m k = Some v" by blast
    then have "big_set_bytes v = latest (acct_hist E ?m a c) (2 ^ 32 - 1)" using last_key_latest(3) [of a c E ?m k] that by simp
    moreover have "k \<noteq> []" by (rule last_key_latest(2) [OF that])
    ultimately show ?thesis using check_account_iff [OF assms(1) v, of E L a c] by simp
  qed
  have "(\<exists>ws. map_res (check_account E B L (st_db s)) xs = Ok ws) \<longleftrightarrow>
      (\<forall>x\<in>set xs. \<exists>w. check_account E B L (st_db s) x = Ok w)"
    by (induction xs) (auto simp: res_simps)
  also have "\<dots> \<longleftrightarrow> (\<forall>a c k. is_addr a \<and> is_addr c \<and> last_key E {k. ?m k \<noteq> None \<and> acct_entry E k} a c k \<longrightarrow> ?ok a c)"
    unfolding xs(2) using one by blast
  also have "\<dots> \<longleftrightarrow> (\<forall>a c h. is_addr a \<and> is_addr c \<and> ?m (acct_key E a c h) \<noteq> None \<longrightarrow> ?ok a c)"
    using last_key_exists [where m = ?m and E = E] last_key_def [of E] by (smt (verit) mem_Collect_eq)
  finally show ?thesis
    by (auto simp: Validate_def xs(1) split: res.split)
qed

text \<open>A node that reports the balances of the first block of the witness store.\<close>

definition ledger0 :: "(address, address) ledger" where
  "ledger0 =
     \<lparr>NewNeovmInvokeTransaction = (\<lambda>p l c meth params. Inl ''no contract''),
      NewNativeInvokeTransaction = (\<lambda>p l c v meth params. Inr (hd params)),
      LedgerImmutable = Inr,
      PreExecuteContract = (\<lambda>a. Inr (JString (hex_encode (rev (big_bytes (if a = alice then 70 else 30))))))\<rparr>"

lemma on_chain0: "on_chain env0 ledger0 True a c = Ok (if a = alice then 70 else 30)"
  by (simp add: on_chain_def NativeBalanceOf_def NativeExec_def ext_def ledger0_def hex_decode_encode big_set_bytes_big_bytes
      del: hex_encode.simps)

theorem Validate_accepts_witness:
  "\<exists>s. setBlock mem_badger codec0 store0 (block0 4 diffs0) = Ok s \<and>
    (\<exists>warnings. Validate env0 mem_badger ledger0 4 s = Ok warnings)"
proof (rule store_after_block0 [OF diffs_ok_diffs0])
  fix s
  assume s: "setBlock mem_badger codec0 store0 (block0 4 diffs0) = Ok s" "acct_keys_ok env0 (map_of (st_db s))"
    "heightIndexed s = Some 4"
    and hist: "\<And>a c. is_addr a \<Longrightarrow> is_addr c \<Longrightarrow> acct_hist env0 (map_of (st_db s)) a c =
      (case map_of diffs0 (a, c) of None \<Rightarrow> Map.empty | Some \<delta> \<Rightarrow> [4 \<mapsto> \<bar>\<delta>\<bar>])"
  have start: "map_of (st_db s) [98] = None"
    using setBlock_start [OF badger_ok_mem env_ok_env0 _ diffs_ok_diffs0 _ s(1)] by simp
  have tip: "getHeight s = 4" using s(3) by (simp add: getHeight_def)
  have native: "hd (addr2slice env0 (ontAddr env0)) = 1"
    by (simp add: addr2slice_def)
  have balances: "hd (addr2slice env0 c) = 1 \<and>
      latest (acct_hist env0 (map_of (st_db s)) a c) (2 ^ 32 - 1) = (if a = alice then 70 else 30)"
    if a: "is_addr a" "is_addr c" "map_of (st_db s) (acct_key env0 a c h) \<noteq> None" for a c h
  proof -
    have "acct_hist env0 (map_of (st_db s)) a c (unat h) \<noteq> None" using a(3) by simp
    then have ac: "c = ontAddr env0" "a = alice \<or> a = bob"
      using hist [OF a(1,2)] by (auto simp: diffs0_def split: if_splits)
    have "latest [4 \<mapsto> v] (2 ^ 32 - 1) = v" for v :: int
      by (rule latest_eq [of 4]) auto
    then show ?thesis using ac hist [OF a(1,2)] native by (auto simp: diffs0_def)
  qed
  have "\<exists>balance. on_chain env0 ledger0 (hd (addr2slice env0 c) = 1) a c = Ok balance \<and>
      (hd (addr2slice env0 c) = 1 \<longrightarrow> latest (acct_hist env0 (map_of (st_db s)) a c) (2 ^ 32 - 1) = balance)"
    if "is_addr a \<and> is_addr c \<and> map_of (st_db s) (acct_key env0 a c h) \<noteq> None" for a c h
    using balances [of a c h] that on_chain0 by simp
  then show ?thesis
    using Validate_accepts [OF badger_ok_mem env_ok_env0 s(2) start, of ledger0 4] s(1) tip by blast
qed

end
