(* ===== verification/Format.thy ===== *)
theory Format
  imports Model
begin

text \<open>
  The renderings of the stored messages for the log (src/model/transform.go). \<^verbatim>\<open>fmt.Fprint\<close> on the
  state is appending to the output; only the verb \<^verbatim>\<open>%s\<close> prints anything.
\<close>

definition hexaddr :: "env \<Rightarrow> bytes \<Rightarrow> string" where
  "hexaddr E addr = hex_encode (ToArrayReverse E addr)"

text \<open>\<^verbatim>\<open>blockID.String\<close> (src/services/services.go), for the log.\<close>

definition blockID_String :: "env \<Rightarrow> blockID \<Rightarrow> string" where
  "blockID_String E b =
     ''block<'' @ (if bid_byHeight b then ''true'' else ''false'') @ '', '' @ big_string (uint (bid_height b)) @
     '', '' @ Uint256ToHexString E (bid_hash b) @ ''>''"

text \<open>\<^verbatim>\<open>for i, x := range xs { if i != 0 { print(", ") }; print(x) }\<close>\<close>

fun print_list :: "nat \<Rightarrow> ('a \<Rightarrow> string) \<Rightarrow> 'a list \<Rightarrow> string" where
  "print_list i f [] = []"
| "print_list i f (x # xs) = (if i \<noteq> 0 then '', '' else []) @ f x @ print_list (i + 1) f xs"

definition format_transfer :: "env \<Rightarrow> mtransfer \<Rightarrow> char \<Rightarrow> string" where
  "format_transfer E t verb =
     (if verb = CHR ''s'' then
        ''{amount: '' @ big_string (big_set_bytes (mx_amount t)) @ '', contract: '' @ hexaddr E (mx_contract t) @
        '', from: '' @ hexaddr E (mx_from t) @ '', to: '' @ hexaddr E (mx_to t) @
        (if mx_is_gas t then '', is_gas: true}'' else '', is_gas: false}'')
      else [])"

definition format_transaction :: "env \<Rightarrow> mtransaction \<Rightarrow> char \<Rightarrow> string" where
  "format_transaction E t verb =
     (if verb = CHR ''s'' then
        ''{hash: '' @ hexaddr E (mt_hash t) @ '', transfers: ['' @
        print_list 0 (\<lambda>xfer. format_transfer E xfer CHR ''s'') (mt_transfers t) @ '']}''
      else [])"

definition format_block :: "env \<Rightarrow> mblock \<Rightarrow> char \<Rightarrow> string" where
  "format_block E b verb =
     (if verb = CHR ''s'' then
        ''{timestamp: '' @ big_string (uint (mb_timestamp b)) @ '', transactions: ['' @
        print_list 0 (\<lambda>txn. format_transaction E txn CHR ''s'') (mb_transactions b) @ '']}''
      else [])"

text \<open>A field of the options: printed when it is set, after a comma when one was printed before.\<close>

definition print_field :: "bool \<Rightarrow> string \<Rightarrow> string \<times> bool \<Rightarrow> string \<times> bool" where
  "print_field present txt st =
     (if present then (fst st @ (if snd st then '', '' else []) @ txt, True) else st)"

definition format_options :: "env \<Rightarrow> construct_options \<Rightarrow> char \<Rightarrow> string" where
  "format_options E c verb =
     (if verb = CHR ''s'' then
        (let st = (''{'', False);
             st = print_field (co_amount c \<noteq> []) (''amount: '' @ big_string (big_set_bytes (co_amount c))) st;
             st = print_field (co_contract c \<noteq> []) (''contract: '' @ hexaddr E (co_contract c)) st;
             st = print_field (co_from c \<noteq> []) (''from: '' @ hexaddr E (co_from c)) st;
             st = print_field (co_gas_limit c > 0) (''gas_limit: '' @ big_string (uint (co_gas_limit c))) st;
             st = print_field (co_gas_price c > 0) (''gas_price: '' @ big_string (uint (co_gas_price c))) st;
             st = print_field (co_nonce c > 0) (''nonce: '' @ big_string (uint (co_nonce c))) st;
             st = print_field (co_payer c \<noteq> []) (''payer: '' @ hexaddr E (co_payer c)) st;
             st = print_field (co_to c \<noteq> []) (''to: '' @ hexaddr E (co_to c)) st
         in fst st @ ''}'')
      else [])"

section \<open>The renderings as lists of fields\<close>

fun commas :: "string list \<Rightarrow> string" where
  "commas [] = []"
| "commas [x] = x"
| "commas (x # y # xs) = x @ '', '' @ commas (y # xs)"

lemma commas_snoc: "xs \<noteq> [] \<Longrightarrow> commas (xs @ [x]) = commas xs @ '', '' @ x"
  by (induction xs rule: commas.induct) auto

lemma print_list_Suc: "print_list (Suc i) f xs = concat (map (\<lambda>x. '', '' @ f x) xs)"
  by (induction xs arbitrary: i) auto

lemma commas_Cons: "commas (x # xs) = x @ concat (map (\<lambda>y. '', '' @ y) xs)"
  by (induction xs arbitrary: x) auto

lemma print_list_commas: "print_list 0 f xs = commas (map f xs)"
  by (cases xs) (simp_all add: print_list_Suc commas_Cons comp_def del: commas.simps(2,3))

text \<open>The state of the printer stands for the fields printed so far.\<close>

definition printed :: "string list \<Rightarrow> string \<times> bool" where
  "printed fs = (''{'' @ commas fs, fs \<noteq> [])"

lemma print_field_printed: "print_field p txt (printed fs) = printed (fs @ (if p then [txt] else []))"
  by (simp add: print_field_def printed_def commas_snoc)

definition options_fields :: "env \<Rightarrow> construct_options \<Rightarrow> string list" where
  "options_fields E c =
     concat (map (\<lambda>(p, txt). if p then [txt] else [])
       [(co_amount c \<noteq> [], ''amount: '' @ big_string (int (be_nat (co_amount c)))),
        (co_contract c \<noteq> [], ''contract: '' @ hex_encode (rev (co_contract c))),
        (co_from c \<noteq> [], ''from: '' @ hex_encode (rev (co_from c))),
        (co_gas_limit c \<noteq> 0, ''gas_limit: '' @ nat_string (unat (co_gas_limit c))),
        (co_gas_price c \<noteq> 0, ''gas_price: '' @ nat_string (unat (co_gas_price c))),
        (co_nonce c \<noteq> 0, ''nonce: '' @ nat_string (unat (co_nonce c))),
        (co_payer c \<noteq> [], ''payer: '' @ hex_encode (rev (co_payer c))),
        (co_to c \<noteq> [], ''to: '' @ hex_encode (rev (co_to c)))])"

lemma uint_string: "big_string (uint w) = nat_string (unat w)"
  by (simp add: big_string_def)

section \<open>Properties\<close>

text \<open>The options are logged as their set fields in a fixed order, between braces and with a
  comma and a blank between any two, and blocks and transactions as comma-separated lists:
  the loops and the flag that place the separators never print one too many or too few.\<close>

theorem format_separators:
  assumes "env_ok E"
  shows "format_options E c CHR ''s'' = ''{'' @ commas (options_fields E c) @ ''}'' \<and>
    format_transaction E t CHR ''s'' = ''{hash: '' @ hex_encode (rev (mt_hash t)) @ '', transfers: ['' @
      commas (map (\<lambda>x. format_transfer E x CHR ''s'') (mt_transfers t)) @ '']}'' \<and>
    format_block E b CHR ''s'' = ''{timestamp: '' @ nat_string (unat (mb_timestamp b)) @ '', transactions: ['' @
      commas (map (\<lambda>t. format_transaction E t CHR ''s'') (mb_transactions b)) @ '']}''"
proof -
  have E: "ToArrayReverse E bs = rev bs" for bs using assms by (simp add: env_ok_def)
  have start: "(''{'', False) = printed []" by (simp add: printed_def)
  have "format_options E c CHR ''s'' = fst (printed (options_fields E c)) @ ''}''"
    unfolding format_options_def Let_def start print_field_printed
    by (simp add: options_fields_def hexaddr_def E big_set_bytes_def uint_string word_gt_0)
  then show ?thesis
    by (simp add: printed_def format_transaction_def format_block_def print_list_commas hexaddr_def E uint_string)
qed

definition opts0 :: construct_options where
  "opts0 = \<lparr>co_amount = [7], co_contract = [], co_from = [1, 2], co_gas_limit = 0, co_gas_price = 5,
     co_nonce = 0, co_payer = [], co_to = []\<rparr>"

lemma char_digits: "char_of (n :: nat) = c \<longleftrightarrow> n mod 256 = of_char c"
  by (simp add: char_of_eq_iff take_bit_eq_mod)

lemma digits0:
  "char_of (55::nat) = CHR ''7''" "char_of (53::nat) = CHR ''5''" "char_of (48::nat) = CHR ''0''"
  "char_of (49::nat) = CHR ''1''" "char_of (50::nat) = CHR ''2''"
  by (simp_all add: char_digits)

lemma options_fields_opts0: "options_fields E opts0 = [''amount: 7'', ''from: 0201'', ''gas_price: 5'']"
  by (simp add: options_fields_def opts0_def be_nat_def big_string_def nat_string.simps [of 5]
      nat_string.simps [of 7] dec_digit_def hex_digit_def digits0)

theorem format_separators_witness:
  "format_options env0 opts0 CHR ''s'' = ''{amount: 7, from: 0201, gas_price: 5}''"
  using format_separators [OF env_ok_env0, THEN conjunct1, where c1 = opts0]
  unfolding options_fields_opts0 by simp

end
