(* ===== verification/Shutdown.thy ===== *)
theory Shutdown
  imports Prelude
begin

text \<open>
  The exit and signal handlers of the process (src/process/process.go) as a machine that steps
  event by event. The mutex makes the registration and the beginning of \<^verbatim>\<open>Exit\<close> and of the
  treatment of a signal atomic; handlers run outside of it, one at a time in each goroutine and
  interleaved with everything else. Handlers are values of any type: what one does while it
  runs (registering another, calling \<^verbatim>\<open>Exit\<close>) are events of their own.
\<close>

section \<open>The registry\<close>

datatype os_signal = Interrupt | SIGTERM | Signal nat

record 'h process =
  exiting :: bool
  registry :: "os_signal \<Rightarrow> 'h list"  \<comment> \<open>a missing key reads as nil\<close>

definition prepend :: "'h list \<Rightarrow> 'h \<Rightarrow> 'h list" where
  "prepend xs handler = [handler] @ xs"

definition clone :: "'h list \<Rightarrow> 'h list" where
  "clone xs = map (\<lambda>i. xs ! i) [0..<length xs]"

definition SetExitHandler :: "'h \<Rightarrow> 'h process \<Rightarrow> 'h process" where
  "SetExitHandler handler p =
     (let p = p\<lparr>registry := (registry p)(Interrupt := prepend (registry p Interrupt) handler)\<rparr>
      in p\<lparr>registry := (registry p)(SIGTERM := prepend (registry p SIGTERM) handler)\<rparr>)"

definition SetSignalHandler :: "os_signal \<Rightarrow> 'h \<Rightarrow> 'h process \<Rightarrow> 'h process" where
  "SetSignalHandler sig handler p = p\<lparr>registry := (registry p)(sig := prepend (registry p sig) handler)\<rparr>"

text \<open>\<^verbatim>\<open>Exit\<close> up to the loop: \<open>None\<close> is the early return.\<close>

definition begin_exit :: "'h process \<Rightarrow> 'h list option \<times> 'h process" where
  "begin_exit p =
     (if exiting p then (None, p)
      else (Some (clone (registry p Interrupt)), p\<lparr>exiting := True\<rparr>))"

definition fatal_signal :: "os_signal \<Rightarrow> bool" where
  "fatal_signal sig \<longleftrightarrow> sig = SIGTERM \<or> sig = Interrupt"

text \<open>The goroutine of \<^verbatim>\<open>handleSignals\<close> up to its loop over the handlers.\<close>

definition begin_signal :: "os_signal \<Rightarrow> 'h process \<Rightarrow> 'h list \<times> 'h process" where
  "begin_signal sig p =
     (let p = (if fatal_signal sig then p\<lparr>exiting := True\<rparr> else p)
      in (clone (registry p sig), p))"

section \<open>The goroutines\<close>

text \<open>
  The calls of \<^verbatim>\<open>Exit\<close> that are in their loop, each with its status code and the handlers still
  to run; the signal the notifier goroutine works on, likewise; the signals waiting in its
  channel, which holds 100 and drops what comes when it is full; and the status code once
  \<^verbatim>\<open>os.Exit\<close> was called.
\<close>

record 'h machine =
  proc :: "'h process"
  exits :: "(int \<times> 'h list) list"
  notifier :: "(os_signal \<times> 'h list) option"
  channel :: "os_signal list"
  exited :: "int option"

datatype 'h event =
    Set_exit_handler 'h
  | Set_signal_handler os_signal 'h
  | Call_exit int  \<comment> \<open>a goroutine calls \<^verbatim>\<open>Exit\<close>\<close>
  | Raise os_signal  \<comment> \<open>the process gets a signal\<close>
  | Take os_signal  \<comment> \<open>the notifier receives it\<close>
  | Exit_runs nat 'h  \<comment> \<open>a handler has run for a call of \<^verbatim>\<open>Exit\<close>\<close>
  | Notifier_runs 'h
  | Exit_ends nat  \<comment> \<open>the loop is over, \<^verbatim>\<open>os.Exit\<close>\<close>
  | Notifier_ends

fun step :: "'h machine \<Rightarrow> 'h event \<Rightarrow> 'h machine option" where
  "step m (Set_exit_handler h) = Some (m\<lparr>proc := SetExitHandler h (proc m)\<rparr>)"
| "step m (Set_signal_handler sig h) = Some (m\<lparr>proc := SetSignalHandler sig h (proc m)\<rparr>)"
| "step m (Call_exit code) =
     (case begin_exit (proc m) of
        (None, p) \<Rightarrow> Some (m\<lparr>proc := p\<rparr>)
      | (Some hs, p) \<Rightarrow> Some (m\<lparr>proc := p, exits := exits m @ [(code, hs)]\<rparr>))"
| "step m (Raise sig) =
     Some (if length (channel m) < 100 then m\<lparr>channel := channel m @ [sig]\<rparr> else m)"
| "step m (Take sig) =
     (case (notifier m, channel m) of
        (None, sig' # q) \<Rightarrow>
          if sig = sig' then
            (case begin_signal sig (proc m) of
               (hs, p) \<Rightarrow> Some (m\<lparr>proc := p, notifier := Some (sig, hs), channel := q\<rparr>))
          else None
      | _ \<Rightarrow> None)"
| "step m (Exit_runs i h) =
     (if i < length (exits m) then
        (case exits m ! i of
           (code, h' # hs) \<Rightarrow> if h = h' then Some (m\<lparr>exits := (exits m)[i := (code, hs)]\<rparr>) else None
         | _ \<Rightarrow> None)
      else None)"
| "step m (Notifier_runs h) =
     (case notifier m of
        Some (sig, h' # hs) \<Rightarrow> if h = h' then Some (m\<lparr>notifier := Some (sig, hs)\<rparr>) else None
      | _ \<Rightarrow> None)"
| "step m (Exit_ends i) =
     (if i < length (exits m) then
        (case exits m ! i of (code, []) \<Rightarrow> Some (m\<lparr>exited := Some code\<rparr>) | _ \<Rightarrow> None)
      else None)"
| "step m Notifier_ends =
     (case notifier m of
        Some (sig, []) \<Rightarrow>
          Some (if fatal_signal sig then m\<lparr>exited := Some 1\<rparr> else m\<lparr>notifier := None\<rparr>)
      | _ \<Rightarrow> None)"

text \<open>Nothing happens after \<^verbatim>\<open>os.Exit\<close>.\<close>

fun run_events :: "'h machine \<Rightarrow> 'h event list \<Rightarrow> 'h machine option" where
  "run_events m [] = Some m"
| "run_events m (e # es) =
     (if exited m = None then (case step m e of None \<Rightarrow> None | Some m' \<Rightarrow> run_events m' es) else None)"

text \<open>The package after \<^verbatim>\<open>init\<close>.\<close>

definition handleSignals :: "'h machine" where
  "handleSignals =
     \<lparr>proc = \<lparr>exiting = False, registry = (\<lambda>sig. [])\<rparr>, exits = [], notifier = None, channel = [], exited = None\<rparr>"

section \<open>What a history of events registers and runs\<close>

text \<open>The handlers set for a signal, the latest first.\<close>

fun set_for :: "os_signal \<Rightarrow> 'h event \<Rightarrow> 'h list" where
  "set_for sig (Set_exit_handler h) = (if fatal_signal sig then [h] else [])"
| "set_for sig (Set_signal_handler sig' h) = (if sig = sig' then [h] else [])"
| "set_for sig e = []"

definition registered :: "os_signal \<Rightarrow> 'h event list \<Rightarrow> 'h list" where
  "registered sig es = rev (concat (map (set_for sig) es))"

fun exit_run :: "'h event \<Rightarrow> 'h list" where
  "exit_run (Exit_runs i h) = [h]"
| "exit_run e = []"

fun notifier_run :: "'h event \<Rightarrow> 'h list" where
  "notifier_run (Notifier_runs h) = [h]"
| "notifier_run e = []"

definition exit_runs :: "'h event list \<Rightarrow> 'h list" where
  "exit_runs es = concat (map exit_run es)"

definition notifier_runs :: "'h event list \<Rightarrow> 'h list" where
  "notifier_runs es = concat (map notifier_run es)"

fun is_take :: "'h event \<Rightarrow> bool" where
  "is_take (Take sig) = True"
| "is_take e = False"

section \<open>The invariant\<close>

lemma clone_same [simp]: "clone xs = xs"
  by (simp add: clone_def map_nth)

lemma registered_snoc: "registered sig (es @ [e]) = rev (set_for sig e) @ registered sig es"
  by (simp add: registered_def)

lemma runs_snoc [simp]:
  "exit_runs (es @ [e]) = exit_runs es @ exit_run e"
  "notifier_runs (es @ [e]) = notifier_runs es @ notifier_run e"
  by (simp_all add: exit_runs_def notifier_runs_def)

lemma runs_Nil [simp]: "exit_runs [] = []" "notifier_runs [] = []" "registered sig [] = []"
  by (simp_all add: exit_runs_def notifier_runs_def registered_def)

lemma run_events_snoc:
  "run_events m (es @ [e]) = Some m'' \<longleftrightarrow>
     (\<exists>m'. run_events m es = Some m' \<and> exited m' = None \<and> step m' e = Some m'')"
  by (induction es arbitrary: m) (auto split: option.splits if_splits)

text \<open>
  A loop of \<^verbatim>\<open>Exit\<close> has begun at a call in the history and has run since then what it does not have to
  run any more; there is no second one. Likewise for the signal the notifier works on.
\<close>

definition exit_begun :: "'h event list \<Rightarrow> int \<Rightarrow> 'h list \<Rightarrow> bool" where
  "exit_begun es c hs \<longleftrightarrow>
     (\<exists>pre post. es = pre @ Call_exit c # post \<and> exit_runs pre = [] \<and>
        exit_runs post @ hs = registered Interrupt pre)"

definition signal_begun :: "'h event list \<Rightarrow> os_signal \<Rightarrow> 'h list \<Rightarrow> bool" where
  "signal_begun es sig hs \<longleftrightarrow>
     (\<exists>pre post. es = pre @ Take sig # post \<and> \<not> list_ex is_take post \<and>
        notifier_runs post @ hs = registered sig pre)"

definition registry_inv :: "'h event list \<Rightarrow> 'h machine \<Rightarrow> bool" where
  "registry_inv es m \<longleftrightarrow> (\<forall>sig. registry (proc m) sig = registered sig es)"

definition exit_inv :: "'h event list \<Rightarrow> 'h machine \<Rightarrow> bool" where
  "exit_inv es m \<longleftrightarrow>
     exits m = [] \<and> exit_runs es = [] \<or>
     exiting (proc m) \<and> (\<exists>c hs. exits m = [(c, hs)] \<and> exit_begun es c hs)"

definition notifier_inv :: "'h event list \<Rightarrow> 'h machine \<Rightarrow> bool" where
  "notifier_inv es m \<longleftrightarrow>
     (\<forall>sig hs. notifier m = Some (sig, hs) \<longrightarrow> signal_begun es sig hs)"

definition exited_inv :: "'h event list \<Rightarrow> 'h machine \<Rightarrow> bool" where
  "exited_inv es m \<longleftrightarrow>
     (\<forall>c. exited m = Some c \<longrightarrow>
        exit_begun es c [] \<or> (\<exists>sig. c = 1 \<and> fatal_signal sig \<and> signal_begun es sig []))"

lemma exit_begun_snoc:
  assumes "exit_begun es c hs" and "hs = exit_run e @ hs'"
  shows "exit_begun (es @ [e]) c hs'"
proof -
  obtain pre post where "es = pre @ Call_exit c # post" "exit_runs pre = []"
    "exit_runs post @ hs = registered Interrupt pre"
    using assms(1) by (auto simp: exit_begun_def)
  then have "es @ [e] = pre @ Call_exit c # (post @ [e])" "exit_runs pre = []"
    "exit_runs (post @ [e]) @ hs' = registered Interrupt pre"
    using assms(2) by simp_all
  then show ?thesis unfolding exit_begun_def by blast
qed

lemma signal_begun_snoc:
  assumes "signal_begun es sig hs" and "hs = notifier_run e @ hs'" and "\<not> is_take e"
  shows "signal_begun (es @ [e]) sig hs'"
proof -
  obtain pre post where "es = pre @ Take sig # post" "\<not> list_ex is_take post"
    "notifier_runs post @ hs = registered sig pre"
    using assms(1) by (auto simp: signal_begun_def)
  then have "es @ [e] = pre @ Take sig # (post @ [e])" "\<not> list_ex is_take (post @ [e])"
    "notifier_runs (post @ [e]) @ hs' = registered sig pre"
    using assms(2,3) by simp_all
  then show ?thesis unfolding signal_begun_def by blast
qed

lemma begun_now:
  "exit_runs es = [] \<Longrightarrow> exit_begun (es @ [Call_exit c]) c (registered Interrupt es)"
  "signal_begun (es @ [Take sig]) sig (registered sig es)"
  unfolding exit_begun_def signal_begun_def
  by (rule exI [of _ es], rule exI [of _ "[]"], simp)+

lemmas machine_defs = SetExitHandler_def SetSignalHandler_def prepend_def begin_exit_def begin_signal_def

lemma registry_inv_step:
  assumes "registry_inv es m" and "step m e = Some m'"
  shows "registry_inv (es @ [e]) m'"
  using assms
  by (cases e)
    (auto simp: registry_inv_def registered_snoc machine_defs fatal_signal_def Let_def
      split: prod.splits option.splits list.splits if_splits)

lemma exit_inv_step:
  assumes "exit_inv es m" and "registry_inv es m" and "step m e = Some m'"
  shows "exit_inv (es @ [e]) m'"
  using assms exit_begun_snoc [of es _ _ e] begun_now(1) [of es]
  by (cases e)
    (fastforce simp: exit_inv_def registry_inv_def machine_defs Let_def
      split: prod.splits option.splits list.splits if_splits)+

lemma notifier_inv_step:
  assumes "notifier_inv es m" and "registry_inv es m" and "step m e = Some m'"
  shows "notifier_inv (es @ [e]) m'"
  using assms signal_begun_snoc [of es _ _ e] begun_now(2) [of es]
  by (cases e)
    (fastforce simp: notifier_inv_def registry_inv_def machine_defs Let_def
      split: prod.splits option.splits list.splits if_splits)+

lemma exited_inv_step:
  assumes "exit_inv es m" and "notifier_inv es m" and "exited m = None" and "step m e = Some m'"
  shows "exited_inv (es @ [e]) m'"
  using assms exit_begun_snoc [of es _ _ e] signal_begun_snoc [of es _ _ e]
  by (cases e)
    (fastforce simp: exited_inv_def exit_inv_def notifier_inv_def Let_def
      split: prod.splits option.splits list.splits if_splits)+


lemma reachable_inv:
  assumes "run_events handleSignals es = Some m"
  shows "registry_inv es m \<and> exit_inv es m \<and> notifier_inv es m \<and> exited_inv es m"
  using assms
proof (induction es arbitrary: m rule: rev_induct)
  case Nil
  then show ?case
    by (auto simp: handleSignals_def registry_inv_def exit_inv_def notifier_inv_def exited_inv_def)
next
  case (snoc e es)
  obtain m' where m': "run_events handleSignals es = Some m'" "exited m' = None" "step m' e = Some m"
    using snoc.prems by (auto simp: run_events_snoc)
  then show ?case
    using snoc.IH [OF m'(1)]
    by (blast intro: registry_inv_step exit_inv_step notifier_inv_step exited_inv_step)
qed

text \<open>
  The guard \<^verbatim>\<open>exiting\<close> protects a call of \<^verbatim>\<open>Exit\<close> from other calls, not from the signals: an
  interrupt that arrives after the call runs the same handler a second time.
\<close>

lemma handler_runs_twice:
  "\<exists>m. run_events handleSignals
     [Set_exit_handler ''close'', Call_exit 1, Exit_runs 0 ''close'', Raise Interrupt, Take Interrupt,
      Notifier_runs ''close'', Notifier_ends] = Some m \<and> exited m = Some 1"
  by (simp add: handleSignals_def machine_defs fatal_signal_def)

text \<open>A second call of \<^verbatim>\<open>Exit\<close> returns to its caller.\<close>

lemma second_Exit_returns:
  "exiting (proc m) \<Longrightarrow> step m (Call_exit code) = Some m"
  by (simp add: begin_exit_def)

section \<open>Properties\<close>

text \<open>C29: when the process has exited, then by a call of \<^verbatim>\<open>Exit\<close> with this status code, the first one to
  begin its loop, or with status 1 by an interrupt or a SIGTERM; and that call or signal has
  run every handler registered when it began exactly once, the latest registered first,
  whatever other goroutines registered, raised or ran in between.\<close>

theorem exit_runs_handlers:
  assumes "run_events handleSignals es = Some m" and "exited m = Some c"
  shows "(\<exists>pre post. es = pre @ Call_exit c # post \<and> exit_runs pre = [] \<and>
            exit_runs post = registered Interrupt pre) \<or>
         (\<exists>pre sig post. es = pre @ Take sig # post \<and> fatal_signal sig \<and> c = 1 \<and>
            \<not> list_ex is_take post \<and> notifier_runs post = registered sig pre)"
proof -
  consider "exit_begun es c []" | sig where "c = 1" "fatal_signal sig" "signal_begun es sig []"
    using reachable_inv [OF assms(1)] assms(2) unfolding exited_inv_def by blast
  then show ?thesis
  proof cases
    case 1
    then show ?thesis unfolding exit_begun_def append_Nil2 by blast
  next
    case 2
    then show ?thesis unfolding signal_begun_def append_Nil2 by blast
  qed
qed

text \<open>The handlers that the online server registers, in the order of src/main.go.\<close>

definition shutdown0 :: "string event list" where
  "shutdown0 =
     [Set_exit_handler ''ledger'', Set_exit_handler ''store'', Set_exit_handler ''cancel'',
      Set_exit_handler ''http'', Raise SIGTERM, Take SIGTERM, Notifier_runs ''http'',
      Notifier_runs ''cancel'', Notifier_runs ''store'', Notifier_runs ''ledger'', Notifier_ends]"

theorem exit_runs_handlers_witness:
  "\<exists>pre post. shutdown0 = pre @ Take SIGTERM # post \<and>
     notifier_runs post = [''http'', ''cancel'', ''store'', ''ledger''] \<and>
     registered SIGTERM pre = [''http'', ''cancel'', ''store'', ''ledger'']"
proof -
  obtain m where m: "run_events handleSignals shutdown0 = Some m" "exited m = Some 1"
    by (simp add: shutdown0_def handleSignals_def machine_defs fatal_signal_def)
  have no_call: "shutdown0 \<noteq> pre @ Call_exit 1 # post" for pre post
  proof
    assume "shutdown0 = pre @ Call_exit 1 # post"
    then have "Call_exit 1 \<in> set shutdown0" using in_set_conv_decomp by fast
    then show False by (simp add: shutdown0_def)
  qed
  obtain pre sig post where
    split: "shutdown0 = pre @ Take sig # post" "notifier_runs post = registered sig pre"
    using exit_runs_handlers [OF m] no_call by blast
  then have sig: "Take sig \<in> set shutdown0" using in_set_conv_decomp by fast
  then have "sig = SIGTERM" by (simp add: shutdown0_def)
  moreover have "length pre = 5"
    using split(1) unfolding \<open>sig = SIGTERM\<close>
    by (auto simp: shutdown0_def Cons_eq_append_conv)
  then have "pre = take 5 shutdown0" "Take sig # post = drop 5 shutdown0"
    using split(1) by (metis append_eq_conv_conj)+
  ultimately show ?thesis
    using split by (intro exI [of _ pre] exI [of _ post])
      (simp add: shutdown0_def registered_def notifier_runs_def fatal_signal_def)
qed

end
