(* ===== verification/Server_Config.thy ===== *)
theory Server_Config
  imports Intent Lookup Shutdown
begin

text \<open>
  The start of the server (src/main.go): its configuration file, the store it opens with the
  tokens of the file, the mode it runs in and the exit handlers that mode registers. Opening
  and reading the file and \<^verbatim>\<open>json.Unmarshal\<close> are arguments; the command line, the ledger, the
  transaction pool, the P2P node and the HTTP server belong to other packages.
\<close>

section \<open>The configuration\<close>

record token =
  cf_contract :: string
  cf_decimals :: int
  cf_symbol :: string
  cf_wasm :: bool

text \<open>The fields of the file, and the two the server computes from them.\<close>

record serverConfig =
  BlockWait :: u32
  OEP4Tokens :: "token option list"
  Port :: u32
  sc_tokens :: "OEP4Token list"
  waitTime :: int  \<comment> \<open>\<^verbatim>\<open>time.Duration\<close>, nanoseconds in 64 bits\<close>

text \<open>Why \<^verbatim>\<open>log.Fatalf\<close> ended the process, with what it printed.\<close>

datatype fatal =
    Failed_to_open string
  | Failed_to_read string
  | Failed_to_decode string
  | Missing_contract nat
  | Invalid_contract string string
  | Invalid_decimals nat int
  | Missing_symbol string
  | Invalid_port u32
  | Unable_to_open_store go_error
  | Failed_node_config string
  | Failed_to_open_ledger string
  | Txpool_error string
  | Failed_p2p_server string
  | P2p_start_error string
  | Failed_router go_error

definition second :: int where
  "second = 1000000000"

text \<open>The body of the loop over the tokens: a null entry is dereferenced.\<close>

definition config_token :: "env \<Rightarrow> nat \<Rightarrow> token option \<Rightarrow> (fatal, OEP4Token) res" where
  "config_token E idx entry =
     (case entry of
        None \<Rightarrow> Panic
      | Some token \<Rightarrow>
          if cf_contract token = [] then Err (Missing_contract idx)
          else
            (case AddressFromHexString E (cf_contract token) of
               Inl err \<Rightarrow> Err (Invalid_contract (cf_contract token) err)
             | Inr contract \<Rightarrow>
                 if cf_decimals token < 0 then Err (Invalid_decimals idx (cf_decimals token))
                 else if cf_symbol token = [] then Err (Missing_symbol (cf_contract token))
                 else Ok \<lparr>tk_contract = contract, tk_decimals = cf_decimals token,
                   tk_symbol = cf_symbol token, tk_wasm = cf_wasm token\<rparr>))"

fun config_loop :: "env \<Rightarrow> nat \<Rightarrow> token option list \<Rightarrow> OEP4Token list \<Rightarrow> (fatal, OEP4Token list) res" where
  "config_loop E idx [] acc = Ok acc"
| "config_loop E idx (entry # entries) acc =
     bind_res (config_token E idx entry) (\<lambda>token. config_loop E (idx + 1) entries (acc @ [token]))"

definition initServerConfig ::
  "env \<Rightarrow> string + (string + bytes) \<Rightarrow> (bytes \<Rightarrow> string + serverConfig) \<Rightarrow> (fatal, serverConfig) res" where
  "initServerConfig E file unmarshal =
     (case file of
        Inl err \<Rightarrow> Err (Failed_to_open err)
      | Inr (Inl err) \<Rightarrow> Err (Failed_to_read err)
      | Inr (Inr data) \<Rightarrow>
          (case unmarshal data of
             Inl err \<Rightarrow> Err (Failed_to_decode err)
           | Inr cfg \<Rightarrow>
               (let cfg = (if BlockWait cfg = 0 then cfg\<lparr>BlockWait := 1\<rparr> else cfg);
                    cfg = cfg\<lparr>waitTime := wrap64 (uint (BlockWait cfg) * second)\<rparr>
                in bind_res (config_loop E 0 (OEP4Tokens cfg) (sc_tokens cfg)) (\<lambda>toks.
                   if Port cfg > 65535 then Err (Invalid_port (Port cfg))
                   else Ok (cfg\<lparr>sc_tokens := toks\<rparr>)))))"

section \<open>The store and the modes\<close>

definition initStore ::
  "env \<Rightarrow> 'db badger \<Rightarrow> string + 'db \<Rightarrow> serverConfig \<Rightarrow> bool \<Rightarrow> u32 \<Rightarrow> (fatal, 'db store) res" where
  "initStore E B opened scfg offline current =
     (case NewStore E B opened (sc_tokens scfg) offline current of
        Ok store \<Rightarrow> Ok store
      | Err err \<Rightarrow> Err (Unable_to_open_store err)
      | Panic \<Rightarrow> Panic)"

datatype mode = Validate_store | Offline | Online

definition run_mode :: "bool \<Rightarrow> bool \<Rightarrow> mode" where
  "run_mode validate_flag offline_flag =
     (if validate_flag then Validate_store else if offline_flag then Offline else Online)"

text \<open>The handlers, in the order the functions of the mode register them.\<close>

datatype handler = Close_ledger | Wait_and_close_store | Close_store | Cancel_indexer | Shutdown_http

definition initLedger_handlers :: "handler list" where
  "initLedger_handlers = [Close_ledger]"

definition initServer_handlers :: "bool \<Rightarrow> handler list" where
  "initServer_handlers offline =
     (if offline then [Close_store] else [Wait_and_close_store, Cancel_indexer]) @ [Shutdown_http]"

definition run_handlers :: "mode \<Rightarrow> handler list" where
  "run_handlers mode =
     (case mode of
        Validate_store \<Rightarrow> initLedger_handlers
      | Offline \<Rightarrow> initServer_handlers True
      | Online \<Rightarrow> initLedger_handlers @ initServer_handlers False)"

text \<open>The name of the network that the API serves (src/services/services.go).\<close>

definition networkName :: "string \<Rightarrow> string \<Rightarrow> string \<Rightarrow> string \<Rightarrow> string" where
  "networkName main_net polaris_net solo_net name =
     (if name = main_net then ''mainnet''
      else if name = polaris_net then ''testnet''
      else if name = solo_net then ''privatenet''
      else ''unknown'')"

subsection \<open>Running the handlers\<close>

text \<open>
  An exit of the server: the handlers still to run, whether the context of the indexer is
  cancelled, whether the indexer has returned and whether its message is in the channel \<^verbatim>\<open>done\<close>.
  \<^verbatim>\<open>IndexBlocks\<close> sees the cancellation at its next round or height and sends the message, unless it is
  itself the goroutine that runs the handlers (\<open>by_indexer\<close>): \<^verbatim>\<open>log.Fatalf\<close> calls \<^verbatim>\<open>process.Exit\<close>, also
  where \<^verbatim>\<open>IndexBlocks\<close> and \<^verbatim>\<open>decodeTransfer\<close> call it (src/services/store.go).
\<close>

record exit_state =
  todo :: "handler list"
  cancelled :: bool
  indexer_returned :: bool
  done_sent :: bool

inductive exit_step :: "bool \<Rightarrow> exit_state \<Rightarrow> exit_state \<Rightarrow> bool" for by_indexer where
  close_ledger: "todo st = Close_ledger # hs \<Longrightarrow> exit_step by_indexer st (st\<lparr>todo := hs\<rparr>)"
| close_store: "todo st = Close_store # hs \<Longrightarrow> exit_step by_indexer st (st\<lparr>todo := hs\<rparr>)"
| wait: "todo st = Wait_and_close_store # hs \<Longrightarrow> done_sent st \<Longrightarrow>
    exit_step by_indexer st (st\<lparr>todo := hs, done_sent := False\<rparr>)"
| cancel: "todo st = Cancel_indexer # hs \<Longrightarrow> exit_step by_indexer st (st\<lparr>todo := hs, cancelled := True\<rparr>)"
| shutdown: "todo st = Shutdown_http # hs \<Longrightarrow> exit_step by_indexer st (st\<lparr>todo := hs\<rparr>)"
| indexer: "\<not> by_indexer \<Longrightarrow> cancelled st \<Longrightarrow> \<not> indexer_returned st \<Longrightarrow>
    exit_step by_indexer st (st\<lparr>indexer_returned := True, done_sent := True\<rparr>)"

inductive_cases exit_stepE: "exit_step by_indexer st st'"

definition exit_from :: "handler list \<Rightarrow> exit_state" where
  "exit_from handlers =
     \<lparr>todo = registered Interrupt (map Set_exit_handler handlers), cancelled = False,
      indexer_returned = False, done_sent = False\<rparr>"

definition exit_start :: "mode \<Rightarrow> exit_state" where
  "exit_start mode = exit_from (run_handlers mode)"

text \<open>What is left to do: the handlers and the return of the indexer.\<close>

definition exit_measure :: "exit_state \<Rightarrow> nat" where
  "exit_measure st = length (todo st) + (if indexer_returned st then 0 else 1)"

lemma exit_step_decreases: "exit_step by_indexer st st' \<Longrightarrow> exit_measure st' < exit_measure st"
  by (erule exit_stepE) (simp_all add: exit_measure_def)

lemma exit_start_todo:
  "todo (exit_start Online) = [Shutdown_http, Cancel_indexer, Wait_and_close_store, Close_ledger]"
  "todo (exit_start Offline) = [Shutdown_http, Close_store]"
  "todo (exit_start Validate_store) = [Close_ledger]"
  by (simp_all add: exit_start_def exit_from_def registered_def run_handlers_def initLedger_handlers_def
      initServer_handlers_def fatal_signal_def)

text \<open>Handlers are left while the indexer itself runs them: the third one waits for it.\<close>

interpretation hanging: step_invariant "exit_step True" "\<lambda>st. Wait_and_close_store \<in> set (todo st) \<and> \<not> done_sent st"
proof unfold_locales
  fix s t :: exit_state
  assume "exit_step True s t" and inv: "Wait_and_close_store \<in> set (todo s) \<and> \<not> done_sent s"
  then show "Wait_and_close_store \<in> set (todo t) \<and> \<not> done_sent t"
    by (elim exit_stepE) auto
qed

text \<open>Elsewhere the cancellation comes before the wait, and the message of the indexer is there or comes.\<close>

definition online_inv :: "exit_state \<Rightarrow> bool" where
  "online_inv st \<longleftrightarrow>
     todo st = [Shutdown_http, Cancel_indexer, Wait_and_close_store, Close_ledger] \<and>
       \<not> cancelled st \<and> \<not> indexer_returned st \<or>
     todo st = [Cancel_indexer, Wait_and_close_store, Close_ledger] \<and>
       \<not> cancelled st \<and> \<not> indexer_returned st \<or>
     todo st = [Wait_and_close_store, Close_ledger] \<and> cancelled st \<and> (indexer_returned st \<longrightarrow> done_sent st) \<or>
     todo st = [Close_ledger] \<or> todo st = []"

interpretation online: ending_system "exit_step False" online_inv "\<lambda>st. todo st = []" exit_measure
proof unfold_locales
  show "online_inv t" if "exit_step False s t" "online_inv s" for s t
    using that by (elim exit_stepE) (auto simp: online_inv_def)
  show "\<exists>t. exit_step False s t" if "online_inv s" "todo s \<noteq> []" for s
    using that unfolding online_inv_def by (auto intro: exit_step.intros)
qed (rule exit_step_decreases)

text \<open>The other modes register no handler that waits.\<close>

definition other_inv :: "exit_state \<Rightarrow> bool" where
  "other_inv st \<longleftrightarrow> set (todo st) \<subseteq> {Shutdown_http, Close_store, Close_ledger}"

interpretation other: ending_system "exit_step by_indexer" other_inv "\<lambda>st. todo st = []" exit_measure for by_indexer
proof unfold_locales
  show "other_inv t" if "exit_step by_indexer s t" "other_inv s" for s t
    using that by (elim exit_stepE) (auto simp: other_inv_def)
  show "\<exists>t. exit_step by_indexer s t" if "other_inv s" "todo s \<noteq> []" for s
    using that by (cases "todo s") (auto simp: other_inv_def intro: exit_step.intros)
qed (rule exit_step_decreases)

lemma exit_start_inv:
  "Wait_and_close_store \<in> set (todo (exit_start Online)) \<and> \<not> done_sent (exit_start Online)"
  "online_inv (exit_start Online)" "mode \<noteq> Online \<Longrightarrow> other_inv (exit_start mode)"
proof -
  have flags: "\<not> cancelled (exit_start m)" "\<not> indexer_returned (exit_start m)" "\<not> done_sent (exit_start m)" for m
    by (simp_all add: exit_start_def exit_from_def)
  show "Wait_and_close_store \<in> set (todo (exit_start Online)) \<and> \<not> done_sent (exit_start Online)"
    "online_inv (exit_start Online)"
    by (simp_all add: exit_start_todo flags online_inv_def)
  show "other_inv (exit_start mode)" if "mode \<noteq> Online"
    using that by (cases mode) (simp_all add: exit_start_todo other_inv_def)
qed

section \<open>Accepted configurations\<close>

definition entry_ok :: "env \<Rightarrow> token \<Rightarrow> bool" where
  "entry_ok E token \<longleftrightarrow>
     cf_contract token \<noteq> [] \<and> \<not> isl (AddressFromHexString E (cf_contract token)) \<and>
     0 \<le> cf_decimals token \<and> cf_symbol token \<noteq> []"

definition entry_token :: "env \<Rightarrow> token \<Rightarrow> OEP4Token" where
  "entry_token E token =
     \<lparr>tk_contract = projr (AddressFromHexString E (cf_contract token)), tk_decimals = cf_decimals token,
      tk_symbol = cf_symbol token, tk_wasm = cf_wasm token\<rparr>"

text \<open>\<^verbatim>\<open>json.Unmarshal\<close> leaves the unexported fields of the fresh configuration at zero.\<close>

definition unmarshal_ok :: "(bytes \<Rightarrow> string + serverConfig) \<Rightarrow> bool" where
  "unmarshal_ok unmarshal \<longleftrightarrow> (\<forall>data c. unmarshal data = Inr c \<longrightarrow> sc_tokens c = [] \<and> waitTime c = 0)"

lemma config_token_Ok_iff:
  "config_token E idx entry = Ok t \<longleftrightarrow> (\<exists>token. entry = Some token \<and> entry_ok E token \<and> t = entry_token E token)"
  by (auto simp: config_token_def entry_ok_def entry_token_def split: option.splits sum.splits if_splits)

lemma config_loop_Ok_iff:
  "config_loop E idx entries acc = Ok ts \<longleftrightarrow>
     (\<exists>xs. entries = map Some xs \<and> (\<forall>x\<in>set xs. entry_ok E x) \<and> ts = acc @ map (entry_token E) xs)"
proof (induction entries arbitrary: idx acc)
  case Nil
  then show ?case by auto
next
  case (Cons e es)
  show ?case
    unfolding config_loop.simps bind_res_Ok_iff Cons.IH config_token_Ok_iff
    by (force simp: Cons_eq_map_conv)
qed

lemma wait_no_overflow: "wrap64 (uint (w :: u32) * second) = uint w * second"
proof -
  obtain n where n: "uint w = n" "n < 2 ^ 32" "0 \<le> n" using uint_bounded [of w] by simp
  then have "n * second < 2 ^ 32 * second" "0 \<le> n * second" by (simp_all add: second_def)
  then have "is_int64 (n * second)" by (simp add: is_int64_def second_def)
  then show ?thesis unfolding n(1) by (rule wrap64_small)
qed

text \<open>In the map of tokens the last of several with the same contract stands.\<close>

lemma foldl_upd_other:
  "\<forall>t\<in>set ts. key t \<noteq> k \<Longrightarrow> foldl (\<lambda>m t. m(key t \<mapsto> f t)) m ts k = m k"
  by (induction ts arbitrary: m) auto

lemma make_tokens_last:
  assumes "toks = us @ t # vs" and "\<forall>v\<in>set vs. tk_contract v \<noteq> tk_contract t"
  shows "make_tokens E toks (tk_contract t) = Some (oep4_currency E t)"
  using assms by (simp add: make_tokens_def foldl_upd_other)

lemma initStore_Ok: "initStore E B opened cfg offline current = Ok s \<Longrightarrow> tokens s = make_tokens E (sc_tokens cfg)"
  by (auto simp: initStore_def NewStore_tokens split: res.splits)

text \<open>The contracts of the tokens that are taken over are addresses.\<close>

lemma entry_token_addr:
  assumes "env_ok E" "entry_ok E x"
  shows "is_addr (tk_contract (entry_token E x))"
proof -
  obtain a where a: "AddressFromHexString E (cf_contract x) = Inr a"
    using assms(2) by (cases "AddressFromHexString E (cf_contract x)") (simp_all add: entry_ok_def)
  then have "is_addr a" using addr_hex_iff [OF assms(1)] by blast
  then show ?thesis by (simp add: entry_token_def a)
qed

lemma config_tokens_addr:
  assumes "env_ok E" "unmarshal_ok unmarshal" "initServerConfig E file unmarshal = Ok cfg"
  shows "\<forall>t\<in>set (sc_tokens cfg). is_addr (tk_contract t)"
proof -
  obtain data c xs where "unmarshal data = Inr c" "\<forall>x\<in>set xs. entry_ok E x"
    "sc_tokens cfg = sc_tokens c @ map (entry_token E) xs"
    using assms(3)
    by (auto simp: initServerConfig_def Let_def bind_res_Ok_iff config_loop_Ok_iff split: sum.splits if_splits)
  then show ?thesis using assms(2) entry_token_addr [OF assms(1)] by (auto simp: unmarshal_ok_def)
qed

section \<open>Properties\<close>



text \<open>C37: a configuration is accepted exactly when every entry of its token list is there, has a
  contract that is a hexadecimal address, decimals that are not negative and a symbol, and
  the port fits in 16 bits; the server then waits the configured seconds, at least one, without
  overflow, and takes the tokens over in order. In the store it opens with them the last
  token listed for a contract passes the check of currencies, so the API serves it.\<close>

theorem initServerConfig_exact:
  assumes "env_ok E" and "unmarshal_ok unmarshal"
  shows "(initServerConfig E file unmarshal = Ok cfg \<longleftrightarrow>
      (\<exists>data c xs. file = Inr (Inr data) \<and> unmarshal data = Inr c \<and>
         OEP4Tokens c = map Some xs \<and> (\<forall>x\<in>set xs. entry_ok E x) \<and> Port c \<le> 65535 \<and>
         cfg = c\<lparr>BlockWait := max 1 (BlockWait c), sc_tokens := map (entry_token E) xs,
                 waitTime := max 1 (uint (BlockWait c)) * second\<rparr>)) \<and>
    (\<forall>us t vs. initServerConfig E file unmarshal = Ok cfg \<longrightarrow> sc_tokens cfg = us @ t # vs \<longrightarrow>
       (\<forall>v\<in>set vs. tk_contract v \<noteq> tk_contract t) \<longrightarrow> initStore E B opened cfg offline current = Ok s \<longrightarrow>
       validateCurrency E s (Some (ci_currency (oep4_currency E t))) = Ok (oep4_currency E t))"
proof (intro conjI allI impI)
  show accepted: "initServerConfig E file unmarshal = Ok cfg \<longleftrightarrow>
      (\<exists>data c xs. file = Inr (Inr data) \<and> unmarshal data = Inr c \<and>
         OEP4Tokens c = map Some xs \<and> (\<forall>x\<in>set xs. entry_ok E x) \<and> Port c \<le> 65535 \<and>
         cfg = c\<lparr>BlockWait := max 1 (BlockWait c), sc_tokens := map (entry_token E) xs,
                 waitTime := max 1 (uint (BlockWait c)) * second\<rparr>)"
    (is "_ \<longleftrightarrow> ?valid")
  proof -
    have wait: "(if BlockWait c = 0 then c\<lparr>BlockWait := 1\<rparr> else c) = c\<lparr>BlockWait := max 1 (BlockWait c)\<rparr>" for c
      by (auto simp: max_def word_le_nat_alt unat_eq_zero not_le)
    have "uint (max 1 w) = max 1 (uint w)" for w :: u32
      by (auto simp: max_def word_le_def)
    with assms(2) show ?thesis
      by (force simp: initServerConfig_def wait wait_no_overflow Let_def bind_res_Ok_iff config_loop_Ok_iff
          unmarshal_ok_def not_less split: sum.splits if_splits)
  qed
  fix us t vs
  assume a: "initServerConfig E file unmarshal = Ok cfg" "sc_tokens cfg = us @ t # vs"
    "\<forall>v\<in>set vs. tk_contract v \<noteq> tk_contract t" "initStore E B opened cfg offline current = Ok s"
  obtain xs where xs: "sc_tokens cfg = map (entry_token E) xs" "\<forall>x\<in>set xs. entry_ok E x"
    using a(1) unfolding accepted by auto
  have addrs: "\<forall>u\<in>set (sc_tokens cfg). is_addr (tk_contract u)"
    using entry_token_addr [OF assms(1)] xs by auto
  have tok: "make_tokens E (sc_tokens cfg) (tk_contract t) = Some (oep4_currency E t)"
    using make_tokens_last a(2,3) by blast
  show "validateCurrency E s (Some (ci_currency (oep4_currency E t))) = Ok (oep4_currency E t)"
    by (rule validateCurrency_registered [OF assms(1) make_tokens_ok [OF assms(1) addrs tok]])
      (simp add: tok initStore_Ok [OF a(4)])
qed

definition entry0 :: token where
  "entry0 = \<lparr>cf_contract = ToHexString env0 (replicate 20 3), cf_decimals = 8, cf_symbol = ''OEP'', cf_wasm = False\<rparr>"

definition json0 :: serverConfig where
  "json0 = \<lparr>BlockWait = 0, OEP4Tokens = [Some entry0], Port = 8080, sc_tokens = [], waitTime = 0\<rparr>"

definition oep0 :: OEP4Token where
  "oep0 = \<lparr>tk_contract = replicate 20 3, tk_decimals = 8, tk_symbol = ''OEP'', tk_wasm = False\<rparr>"

lemma oep0: "AddressFromHexString env0 (ToHexString env0 (replicate 20 3)) = Inr (replicate 20 3)"
  by (rule addr_hex_roundtrip) (simp_all add: is_addr_def)

theorem initServerConfig_exact_witness:
  "\<exists>cfg s. initServerConfig env0 (Inr (Inr [])) (\<lambda>data. Inr json0) = Ok cfg \<and> waitTime cfg = second \<and>
     initStore env0 mem_badger (Inr []) cfg True 9 = Ok s \<and>
     validateCurrency env0 s (Some (ci_currency (oep4_currency env0 oep0))) = Ok (oep4_currency env0 oep0)"
proof -
  have json: "unmarshal_ok (\<lambda>data. Inr json0)" by (simp add: unmarshal_ok_def json0_def)
  define cfg where
    "cfg = json0\<lparr>BlockWait := max 1 (BlockWait json0), sc_tokens := [oep0],
       waitTime := max 1 (uint (BlockWait json0)) * second\<rparr>"
  obtain s where s: "initStore env0 mem_badger (Inr []) cfg True 9 = Ok s"
    by (simp add: initStore_def NewStore_def Let_def)
  have hex: "ToHexString env0 (replicate 20 3) \<noteq> []" by (simp add: hex_encode_eq_Nil)
  note exact = initServerConfig_exact [OF env_ok_env0 json, of "Inr (Inr [])" cfg mem_badger "Inr []" True 9 s]
  have ok: "initServerConfig env0 (Inr (Inr [])) (\<lambda>data. Inr json0) = Ok cfg"
    unfolding exact [THEN conjunct1]
    using hex oep0 unfolding cfg_def
    by (intro exI [of _ "[]"] exI [of _ json0] exI [of _ "[entry0]"])
      (simp add: json0_def oep0_def entry0_def entry_ok_def entry_token_def del: env0_simps)
  moreover have "sc_tokens cfg = [] @ oep0 # []" by (simp add: cfg_def)
  then have "validateCurrency env0 s (Some (ci_currency (oep4_currency env0 oep0))) = Ok (oep4_currency env0 oep0)"
    using exact [THEN conjunct2, rule_format, of "[]" oep0 "[]"] ok s by simp
  moreover have "waitTime cfg = second" by (simp add: cfg_def json0_def)
  ultimately show ?thesis using s by blast
qed

end
