(* ===== verification/Logging.thy ===== *)
theory Logging
  imports Intent
begin

text \<open>
  The log package (src/log/log.go): the levels and their names, the logger with its threshold,
  and the package functions that add where they were called from. The lines are the strings
  given to the standard library's logger, which adds the time and writes them; the arguments
  are already rendered as \<^verbatim>\<open>%v\<close> renders them. The goroutine id, the caller and the file system
  are arguments.
\<close>

section \<open>Levels\<close>

abbreviation Blue :: string where "Blue \<equiv> ''0;34''"
abbreviation Red :: string where "Red \<equiv> ''0;31''"
abbreviation Green :: string where "Green \<equiv> ''0;32''"
abbreviation Yellow :: string where "Yellow \<equiv> ''0;33''"
abbreviation Cyan :: string where "Cyan \<equiv> ''0;36''"
abbreviation Pink :: string where "Pink \<equiv> ''1;35''"

definition escape :: char where
  "escape = CHR 0x1B"

definition Color :: "string \<Rightarrow> string \<Rightarrow> string" where
  "Color code msg = [escape] @ ''['' @ code @ ''m'' @ msg @ [escape] @ ''[m''"

definition TraceLog :: int where "TraceLog = 0"
definition DebugLog :: int where "DebugLog = 1"
definition InfoLog :: int where "InfoLog = 2"
definition WarnLog :: int where "WarnLog = 3"
definition ErrorLog :: int where "ErrorLog = 4"
definition FatalLog :: int where "FatalLog = 5"
definition MaxLevelLog :: int where "MaxLevelLog = 6"

definition levels :: "(int \<times> string) list" where
  "levels =
     [(DebugLog, Color Green ''[DEBUG]''), (InfoLog, Color Cyan ''[INFO ]''),
      (WarnLog, Color Yellow ''[WARN ]''), (ErrorLog, Color Red ''[ERROR]''),
      (FatalLog, Color Red ''[FATAL]''), (TraceLog, Color Pink ''[TRACE]'')]"

definition namePrefix :: string where
  "namePrefix = ''LEVEL''"

text \<open>\<^verbatim>\<open>strconv.Itoa\<close> and \<^verbatim>\<open>Atoi\<close>: zero for what is not a number, the nearest value for one out of range.\<close>

definition Itoa :: "int \<Rightarrow> string" where
  "Itoa i = big_string i"

definition Atoi :: "string \<Rightarrow> int" where
  "Atoi s =
     (case big_parse s of
        None \<Rightarrow> 0
      | Some i \<Rightarrow> if i < - (2 ^ 63) then - (2 ^ 63) else if 2 ^ 63 \<le> i then 2 ^ 63 - 1 else i)"

definition LevelName :: "int \<Rightarrow> string" where
  "LevelName level =
     (case map_of levels level of Some name \<Rightarrow> name | None \<Rightarrow> namePrefix @ Itoa level)"

text \<open>\<^verbatim>\<open>NameLevel\<close> ranges over the map in any \<open>order\<close>.\<close>

definition NameLevel :: "(int \<times> string) list \<Rightarrow> string \<Rightarrow> int" where
  "NameLevel order name =
     (case find (\<lambda>(k, v). v = name) order of
        Some (k, v) \<Rightarrow> k
      | None \<Rightarrow>
          if take (length namePrefix) name = namePrefix then Atoi (drop (length namePrefix) name) else 0)"

section \<open>The logger\<close>

record logger =
  level :: int
  written :: "string list"

definition SetDebugLevel :: "logger \<Rightarrow> int \<Rightarrow> string option \<times> logger" where
  "SetDebugLevel l lvl =
     (if lvl > MaxLevelLog \<or> lvl < 0 then (Some ''invalid debug level'', l) else (None, l\<lparr>level := lvl\<rparr>))"

text \<open>\<^verbatim>\<open>fmt.Sprintln\<close> of strings.\<close>

fun Sprintln :: "string list \<Rightarrow> string" where
  "Sprintln [] = [CHR 0x0A]"
| "Sprintln [a] = a @ [CHR 0x0A]"
| "Sprintln (a # b # as) = a @ '' '' @ Sprintln (b # as)"

definition Output :: "logger \<Rightarrow> nat \<Rightarrow> int \<Rightarrow> string list \<Rightarrow> logger" where
  "Output l gid lvl a =
     (if lvl \<ge> level l then
        l\<lparr>written := written l @ [Sprintln ([LevelName lvl, ''GID'', nat_string gid @ '','' ] @ a)]\<rparr>
      else l)"

text \<open>\<^verbatim>\<open>Outputf\<close>: the text the format and its arguments give is one string.\<close>

definition Outputf :: "logger \<Rightarrow> nat \<Rightarrow> int \<Rightarrow> string \<Rightarrow> logger" where
  "Outputf l gid lvl txt =
     (if lvl \<ge> level l then
        l\<lparr>written := written l @ [LevelName lvl @ '' GID '' @ nat_string gid @ '', '' @ txt @ [CHR 0x0A]]\<rparr>
      else l)"

section \<open>The package functions\<close>

record caller =
  fn_name :: string
  file_base :: string
  file_line :: nat

text \<open>\<^verbatim>\<open>filepath.Ext\<close>: from the last dot of the last path element on.\<close>

definition Ext :: "string \<Rightarrow> string" where
  "Ext path =
     (let tl = takeWhile (\<lambda>c. c \<noteq> CHR ''/'') (rev path);
          ext = takeWhile (\<lambda>c. c \<noteq> CHR ''.'') tl
      in if ext = tl then [] else CHR ''.'' # rev ext)"

definition trim_dot :: "string \<Rightarrow> string" where
  "trim_dot s = (case s of c # cs \<Rightarrow> if c = CHR ''.'' then cs else s | [] \<Rightarrow> [])"

definition location :: "caller \<Rightarrow> string" where
  "location c = file_base c @ '':'' @ Itoa (int (file_line c))"

datatype kind = Trace | Debug | Info | Warn | Error | Fatal

fun kind_level :: "kind \<Rightarrow> int" where
  "kind_level Trace = TraceLog"
| "kind_level Debug = DebugLog"
| "kind_level Info = InfoLog"
| "kind_level Warn = WarnLog"
| "kind_level Error = ErrorLog"
| "kind_level Fatal = FatalLog"

text \<open>The arguments of a call, or the text that its format and arguments give.\<close>

datatype log_args = Args "string list" | Formatted string

record log_call =
  lc_kind :: kind
  lc_gid :: nat
  lc_caller :: caller
  lc_args :: log_args

definition caller_args :: "log_call \<Rightarrow> log_args" where
  "caller_args c =
     (let func = (if lc_kind c = Trace then trim_dot (Ext (fn_name (lc_caller c))) @ ''()'' else fn_name (lc_caller c))
      in if lc_kind c = Trace \<or> lc_kind c = Debug then
           (case lc_args c of
              Args a \<Rightarrow> Args ([func, location (lc_caller c)] @ a)
            | Formatted txt \<Rightarrow> Formatted (func @ '' '' @ location (lc_caller c) @ '' '' @ txt))
         else lc_args c)"

text \<open>A method of the logger; \<^verbatim>\<open>Fatal\<close> and \<^verbatim>\<open>Fatalf\<close> then call \<^verbatim>\<open>process.Exit\<close> (the flag of the result).\<close>

definition log_method :: "logger \<Rightarrow> nat \<Rightarrow> kind \<Rightarrow> log_args \<Rightarrow> logger \<times> bool" where
  "log_method l gid k args =
     (case args of
        Args a \<Rightarrow> (Output l gid (kind_level k) a, k = Fatal)
      | Formatted txt \<Rightarrow> (Outputf l gid (kind_level k) txt, k = Fatal))"

text \<open>
  A call of a package function: \<^verbatim>\<open>Trace\<close>, \<^verbatim>\<open>Debug\<close> and their variants look at the threshold before they
  find their caller.
\<close>

definition log_package :: "logger \<Rightarrow> log_call \<Rightarrow> logger \<times> bool" where
  "log_package l c =
     (if (lc_kind c = Trace \<or> lc_kind c = Debug) \<and> kind_level (lc_kind c) < level l then (l, False)
      else log_method l (lc_gid c) (lc_kind c) (caller_args c))"

text \<open>The calls of a program one after the other; \<^verbatim>\<open>process.Exit\<close> ends it (src/process/process.go).\<close>

fun log_all :: "logger \<Rightarrow> log_call list \<Rightarrow> logger" where
  "log_all l [] = l"
| "log_all l (c # cs) = (case log_package l c of (l', exit_now) \<Rightarrow> if exit_now then l' else log_all l' cs)"

section \<open>Opening and the size of the file\<close>

datatype dest = Log_dir string | Log_file nat | Other_dest

datatype init_error = Open_log_file_failed | Invalid_log_location

record log_setup =
  writers :: "nat list"  \<comment> \<open>file descriptors, none is \<^verbatim>\<open>ioutil.Discard\<close>\<close>
  logFile :: "nat option"
  log_logger :: logger

text \<open>\<^verbatim>\<open>FileOpen\<close>: the answers of \<^verbatim>\<open>os.Stat\<close>, \<^verbatim>\<open>os.MkdirAll\<close> and \<^verbatim>\<open>os.OpenFile\<close> are arguments.\<close>

datatype stat = Is_dir | Not_dir | Not_exist | Stat_error string

definition FileOpen ::
  "(string \<Rightarrow> stat) \<Rightarrow> (string \<Rightarrow> string option) \<Rightarrow> string \<Rightarrow> (string \<Rightarrow> string + nat) \<Rightarrow> string \<Rightarrow> string + nat" where
  "FileOpen stat_path mkdir now open_file path =
     (case stat_path path of
        Not_dir \<Rightarrow> Inl (''open '' @ path @ '': not a directory'')
      | Stat_error err \<Rightarrow> Inl err
      | Is_dir \<Rightarrow> open_file (path @ now @ ''_LOG.log'')
      | Not_exist \<Rightarrow>
          (case mkdir path of Some err \<Rightarrow> Inl err | None \<Rightarrow> open_file (path @ now @ ''_LOG.log'')))"

fun init_loop ::
  "(string \<Rightarrow> string + nat) \<Rightarrow> dest list \<Rightarrow> nat list \<Rightarrow> nat option \<Rightarrow> init_error + (nat list \<times> nat option)" where
  "init_loop file_open [] ws f = Inr (ws, f)"
| "init_loop file_open (Log_dir path # ds) ws f =
     (case file_open path of
        Inl err \<Rightarrow> Inl Open_log_file_failed
      | Inr fd \<Rightarrow> init_loop file_open ds (ws @ [fd]) (Some fd))"
| "init_loop file_open (Log_file fd # ds) ws f = init_loop file_open ds (ws @ [fd]) f"
| "init_loop file_open (Other_dest # ds) ws f = Inl Invalid_log_location"

definition InitLog :: "(string \<Rightarrow> string + nat) \<Rightarrow> int \<Rightarrow> dest list \<Rightarrow> init_error + log_setup" where
  "InitLog file_open logLevel a =
     (case init_loop file_open a [] None of
        Inl err \<Rightarrow> Inl err
      | Inr (ws, f) \<Rightarrow> Inr \<lparr>writers = ws, logFile = f, log_logger = \<lparr>level = logLevel, written = []\<rparr>\<rparr>)"

definition megabyte :: int where
  "megabyte = 1024 * 1024"

definition GetMaxLogChangeInterval :: "int \<Rightarrow> int" where
  "GetMaxLogChangeInterval maxLogSize =
     (if maxLogSize \<noteq> 0 then wrap64 (maxLogSize * megabyte) else wrap64 (maxLogSize * megabyte))"

text \<open>The size of the log file is an argument, or the error of \<^verbatim>\<open>Stat\<close>.\<close>

definition CheckIfNeedNewFile :: "string + int \<Rightarrow> bool" where
  "CheckIfNeedNewFile stat_size =
     (case stat_size of
        Inl err \<Rightarrow> False
      | Inr logFileSize \<Rightarrow>
          if logFileSize > GetMaxLogChangeInterval 0 then True else False)"

text \<open>The limit is zero, so every file that is not empty counts as full.\<close>

lemma CheckIfNeedNewFile_any: "CheckIfNeedNewFile (Inr n) \<longleftrightarrow> 0 < n"
  by (simp add: CheckIfNeedNewFile_def GetMaxLogChangeInterval_def wrap64_def)

text \<open>The rest of the package: the deprecated \<^verbatim>\<open>Init\<close>, the size and the closing of the log file.\<close>

definition Init :: "(string \<Rightarrow> string + nat) \<Rightarrow> dest list \<Rightarrow> string \<times> (init_error + log_setup)" where
  "Init file_open a = (''warning: use of deprecated Init. Use InitLog instead'' @ [CHR 0x0A], InitLog file_open InfoLog a)"

text \<open>A method of a nil \<^verbatim>\<open>os.File\<close> returns an error.\<close>

definition GetLogFileSize :: "(nat \<Rightarrow> string + int) \<Rightarrow> log_setup \<Rightarrow> string + int" where
  "GetLogFileSize stat_size l =
     (case logFile l of None \<Rightarrow> Inl ''invalid argument'' | Some fd \<Rightarrow> stat_size fd)"

text \<open>\<^verbatim>\<open>ClosePrintLog\<close> with the file descriptor it closes.\<close>

definition ClosePrintLog :: "(nat \<Rightarrow> string option) \<Rightarrow> log_setup \<Rightarrow> nat option \<times> string option" where
  "ClosePrintLog close l = (case logFile l of None \<Rightarrow> (None, None) | Some fd \<Rightarrow> (Some fd, close fd))"

text \<open>Of several log directories only the file in the last one is kept, and closed in the end.\<close>

definition opened_logs :: "(string \<Rightarrow> string + nat) \<Rightarrow> dest list \<Rightarrow> nat list" where
  "opened_logs file_open ds =
     concat (map (\<lambda>d. case d of Log_dir path \<Rightarrow> (case file_open path of Inr fd \<Rightarrow> [fd] | Inl err \<Rightarrow> []) | _ \<Rightarrow> []) ds)"

lemma init_loop_file:
  assumes "init_loop file_open ds ws f = Inr (ws', f')"
  shows "set (opened_logs file_open ds) \<subseteq> set ws'" "set ws \<subseteq> set ws'"
    "f' = (if opened_logs file_open ds = [] then f else Some (last (opened_logs file_open ds)))"
proof -
  have "set (opened_logs file_open ds) \<subseteq> set ws' \<and> set ws \<subseteq> set ws' \<and>
      f' = (if opened_logs file_open ds = [] then f else Some (last (opened_logs file_open ds)))"
    using assms
  proof (induction file_open ds ws f rule: init_loop.induct)
    case (2 file_open path ds ws f)
    then obtain fd where "file_open path = Inr fd" by (cases "file_open path") auto
    with 2 show ?case by (auto simp: opened_logs_def split: if_splits)
  qed (auto simp: opened_logs_def)
  then show "set (opened_logs file_open ds) \<subseteq> set ws'" "set ws \<subseteq> set ws'"
    "f' = (if opened_logs file_open ds = [] then f else Some (last (opened_logs file_open ds)))" by blast+
qed

lemma ClosePrintLog_last:
  assumes "InitLog file_open lvl ds = Inr l"
  shows "fst (ClosePrintLog close l) =
    (if opened_logs file_open ds = [] then None else Some (last (opened_logs file_open ds)))"
  using assms init_loop_file(3) [of file_open ds "[]" None]
  by (auto simp: InitLog_def ClosePrintLog_def split: sum.splits)

section \<open>The goroutine of a line\<close>

text \<open>The value of \<^verbatim>\<open>strconv.ParseUint\<close>, also where it reports an error.\<close>

fun ParseUint_loop :: "nat \<Rightarrow> string \<Rightarrow> nat" where
  "ParseUint_loop n [] = n"
| "ParseUint_loop n (c # cs) =
     (case dec_val c of
        None \<Rightarrow> 0
      | Some d \<Rightarrow> if 2 ^ 64 \<le> 10 * n + d then 2 ^ 64 - 1 else ParseUint_loop (10 * n + d) cs)"

text \<open>The stack trace of \<^verbatim>\<open>runtime.Stack\<close> is an argument. Without a blank the slice panics.\<close>

definition GetGID :: "string \<Rightarrow> nat option" where
  "GetGID stack =
     (let b = take 64 stack;
          b = (if prefix ''goroutine '' b then drop (length ''goroutine '') b else b)
      in if CHR '' '' \<notin> set b then None
         else Some (ParseUint_loop 0 (takeWhile (\<lambda>c. c \<noteq> CHR '' '') b)))"

lemma digits_val_ge: "digits_val n cs = Some m \<Longrightarrow> n \<le> m"
  by (induction cs arbitrary: n) (fastforce split: option.splits)+

lemma ParseUint_digits: "digits_val n cs = Some m \<Longrightarrow> m < 2 ^ 64 \<Longrightarrow> ParseUint_loop n cs = m"
proof (induction cs arbitrary: n)
  case (Cons c cs)
  then obtain d where d: "dec_val c = Some d" "digits_val (10 * n + d) cs = Some m" by (auto split: option.splits)
  then have "10 * n + d < 2 ^ 64" using digits_val_ge Cons.prems(2) by (meson le_less_trans)
  then show ?case using d Cons.IH [OF d(2) Cons.prems(2)] by simp
qed simp

lemma digits_no_blank: "digits_val n cs = Some m \<Longrightarrow> CHR '' '' \<notin> set cs"
  by (induction cs arbitrary: n) (auto simp: dec_val_def split: option.splits if_splits)

lemma length_nat_string: "n < 10 ^ k \<Longrightarrow> 0 < k \<Longrightarrow> length (nat_string n) \<le> k"
proof (induction k arbitrary: n)
  case (Suc k)
  show ?case
  proof (cases "n < 10")
    case False
    then have "k \<noteq> 0" using Suc.prems(1) by (cases k) auto
    then have "length (nat_string (n div 10)) \<le> k"
      using Suc by (intro Suc.IH) (simp_all add: div_less_iff_less_mult)
    then show ?thesis using False by (subst nat_string.simps) simp
  qed (subst nat_string.simps, simp)
qed simp

text \<open>What the runtime prints first in a trace is read back.\<close>

lemma GetGID_reads:
  assumes "n < 2 ^ 64"
  shows "GetGID (''goroutine '' @ nat_string n @ '' '' @ rest) = Some n"
proof -
  have len: "length (nat_string n) \<le> 20" using assms by (intro length_nat_string) simp_all
  have digits: "CHR '' '' \<notin> set (nat_string n)" "ParseUint_loop 0 (nat_string n) = n"
    using digits_no_blank [OF digits_val_nat_string] ParseUint_digits [OF digits_val_nat_string assms] by blast+
  have trace: "take 64 (''goroutine '' @ nat_string n @ '' '' @ rest) =
      ''goroutine '' @ nat_string n @ '' '' @ take (53 - length (nat_string n)) rest"
    using len by (simp add: take_Cons')
  have "takeWhile (\<lambda>c. c \<noteq> CHR '' '') (nat_string n @ CHR '' '' # xs) = nat_string n" for xs
    using digits(1) by (simp add: takeWhile_append takeWhile_eq_all_conv [THEN iffD2])
  then show ?thesis unfolding GetGID_def trace by (simp add: Let_def digits(2))
qed

section \<open>Names are read back\<close>

lemmas level_defs = TraceLog_def DebugLog_def InfoLog_def WarnLog_def ErrorLog_def FatalLog_def

lemma level_names:
  "(k, v) \<in> set levels \<Longrightarrow> (k', v) \<in> set levels \<Longrightarrow> k = k'"
  "(k, v) \<in> set levels \<Longrightarrow> hd v = escape" "(k, v) \<in> set levels \<Longrightarrow> map_of levels k = Some v"
  by (auto simp: levels_def Color_def level_defs)

lemma find_name:
  assumes "set order = set levels" and "(k, v) \<in> set levels"
  shows "\<exists>v'. find (\<lambda>(k, v'). v' = v) order = Some (k, v')"
proof -
  obtain e where e: "find (\<lambda>(k, v'). v' = v) order = Some e"
    using assms by (cases "find (\<lambda>(k, v'). v' = v) order") (auto simp: find_None_iff)
  then have "e \<in> set order" "snd e = v" 
    by (auto simp: case_prod_unfold find_Some_iff)
  with assms level_names(1) [of "fst e" v k] show ?thesis by (cases e) (simp add: e)
qed

lemma find_other:
  assumes "set order = set levels" and "hd name \<noteq> escape"
  shows "find (\<lambda>(k, v). v = name) order = None"
  using assms level_names(2) by (fastforce simp: find_None_iff)

lemma Atoi_Itoa: "is_int64 i \<Longrightarrow> Atoi (Itoa i) = i"
  by (simp add: Atoi_def Itoa_def big_parse_big_string is_int64_def)

lemma NameLevel_LevelName:
  assumes "set order = set levels" and "is_int64 l"
  shows "NameLevel order (LevelName l) = l"
proof (cases "map_of levels l")
  case None
  have "hd (namePrefix @ Itoa l) \<noteq> escape" by (simp add: namePrefix_def escape_def)
  with None find_other [OF assms(1)] show ?thesis
    by (simp add: NameLevel_def LevelName_def Atoi_Itoa assms(2))
next
  case (Some v)
  then obtain v' where "find (\<lambda>(k, v'). v' = v) order = Some (l, v')"
    using find_name [OF assms(1) map_of_SomeD] by blast
  with Some show ?thesis by (simp add: NameLevel_def LevelName_def)
qed

section \<open>Properties\<close>

text \<open>
  The calls that are made before the process exits, with the first fatal one: no exit is under way
  when it is made, or else it would return.
\<close>

fun until_fatal :: "log_call list \<Rightarrow> log_call list" where
  "until_fatal [] = []"
| "until_fatal (c # cs) = c # (if lc_kind c = Fatal then [] else until_fatal cs)"

definition log_line :: "log_call \<Rightarrow> string" where
  "log_line c =
     (let name = LevelName (kind_level (lc_kind c)) in
      case caller_args c of
        Args a \<Rightarrow> Sprintln ([name, ''GID'', nat_string (lc_gid c) @ '','' ] @ a)
      | Formatted txt \<Rightarrow> name @ '' GID '' @ nat_string (lc_gid c) @ '', '' @ txt @ [CHR 0x0A])"

lemma kind_level_int64: "is_int64 (kind_level k)"
  by (cases k) (simp_all add: is_int64_def level_defs)

text \<open>A program's calls of the log functions write one line for each call at the threshold or
  above it, in order, up to the first fatal call, which ends the process (where no exit is under
  way already) even when the threshold suppresses its line; and whatever the order of the map of names, the name that
  opens a line is read back as the level of the call, as is the name of every other level.\<close>

theorem log_lines:
  "written (log_all l cs) =
     written l @ map log_line (filter (\<lambda>c. level l \<le> kind_level (lc_kind c)) (until_fatal cs)) \<and>
   (set order = set levels \<longrightarrow> NameLevel order (LevelName (kind_level k)) = kind_level k \<and>
      (\<forall>lvl. is_int64 lvl \<longrightarrow> NameLevel order (LevelName lvl) = lvl))"
proof (intro conjI impI allI)
  show "written (log_all l cs) =
     written l @ map log_line (filter (\<lambda>c. level l \<le> kind_level (lc_kind c)) (until_fatal cs))"
  proof (induction cs arbitrary: l)
    case (Cons c cs)
    show ?case
      by (cases "caller_args c")
        (auto simp: log_package_def log_method_def Output_def Outputf_def log_line_def Let_def Cons.IH)
  qed simp
qed (simp_all add: NameLevel_LevelName kind_level_int64)

definition calls0 :: "log_call list" where
  "calls0 =
     (let here = \<lparr>fn_name = ''main.run'', file_base = ''main.go'', file_line = 7\<rparr> in
      [\<lparr>lc_kind = Debug, lc_gid = 1, lc_caller = here, lc_args = Args [''a'']\<rparr>,
       \<lparr>lc_kind = Warn, lc_gid = 1, lc_caller = here, lc_args = Args [''b'']\<rparr>,
       \<lparr>lc_kind = Fatal, lc_gid = 1, lc_caller = here, lc_args = Formatted ''c''\<rparr>,
       \<lparr>lc_kind = Error, lc_gid = 1, lc_caller = here, lc_args = Args [''d'']\<rparr>])"

theorem log_lines_witness:
  "written (log_all \<lparr>level = InfoLog, written = []\<rparr> calls0) = [log_line (calls0 ! 1), log_line (calls0 ! 2)] \<and>
   NameLevel (rev levels) (LevelName FatalLog) = FatalLog \<and> NameLevel (rev levels) (LevelName 42) = 42"
  using log_lines [of "\<lparr>level = InfoLog, written = []\<rparr>" calls0 "rev levels" Fatal]
  by (simp add: calls0_def level_defs is_int64_def Let_def)

end
