(* ===== verification/Readers.thy ===== *)
theory Readers
  imports Operations
begin

text \<open>
  API requests beside the indexer. A request reads the heights of the store and the database
  several times, and between two of its reads the indexer may commit blocks and publish their
  heights. A commit (\<^verbatim>\<open>db.Update\<close> of \<^verbatim>\<open>setBlock\<close>) becomes visible before its heights (\<^verbatim>\<open>setHeight\<close>); the
  lock of the heights and the transactions of the database make each of the two atomic. The
  definitions repeat the endpoints of Store and Operations with the store that each read sees;
  the properties say that the answers are those of a request that runs alone.
\<close>

section \<open>What a reader may see\<close>

text \<open>
  The store in memory, with the contents of its database; the next store when its contents are
  committed and its heights are not published; the height \<^verbatim>\<open>IndexBlocks\<close> is about to index. A
  block that fails changes nothing that a reader sees, and neither does a round that ends.
\<close>

type_synonym 'db live = "'db store \<times> 'db store option \<times> u32"

inductive live_step ::
  "env \<Rightarrow> evm_lib \<Rightarrow> (mutable_tx \<Rightarrow> hash256) \<Rightarrow> 'db badger \<Rightarrow> codec \<Rightarrow> (node \<Rightarrow> bool) \<Rightarrow> 'db live \<Rightarrow> 'db live \<Rightarrow> bool"
  for E L MutHash B C nds where
  round: "live_step E L MutHash B C nds (s, None, h) (s, None, next_height s)"
| commit: "nds nd \<Longrightarrow> h \<le> nd_latest nd \<Longrightarrow> nd_block nd h = Inr (Some src) \<Longrightarrow>
    index_block E L MutHash (tokens s) (nd_exiting nd h) h (nd_latest nd) src (nd_events nd h) (nd_order nd h) = Ok state \<Longrightarrow>
    setBlock B C s state = Ok t \<Longrightarrow>
    live_step E L MutHash B C nds (s, None, h) (s\<lparr>st_db := st_db t\<rparr>, Some t, h)"
| publish: "live_step E L MutHash B C nds (s, Some t, h) (t, None, h + 1)"

text \<open>A round of the indexer is a sequence of these steps.\<close>

lemma live_block:
  assumes "nds nd" "h \<le> nd_latest nd" "nd_block nd h = Inr (Some src)"
    and "index_block E L MutHash (tokens s) (nd_exiting nd h) h (nd_latest nd) src (nd_events nd h) (nd_order nd h) = Ok state"
    and "setBlock B C s state = Ok t"
  shows "(live_step E L MutHash B C nds)\<^sup>*\<^sup>* (s, None, h) (t, None, h + 1)"
proof -
  have "live_step E L MutHash B C nds (s, None, h) (s\<lparr>st_db := st_db t\<rparr>, Some t, h)"
    using assms by (rule live_step.commit)
  then have "(live_step E L MutHash B C nds)\<^sup>*\<^sup>* (s, None, h) (s\<lparr>st_db := st_db t\<rparr>, Some t, h)" ..
  moreover have "live_step E L MutHash B C nds (s\<lparr>st_db := st_db t\<rparr>, Some t, h) (t, None, h + 1)"
    by (rule live_step.publish)
  ultimately show ?thesis by (rule rtranclp.rtrancl_into_rtrancl)
qed

lemma index_loop_live:
  assumes "index_loop E L MutHash B C nd h s = Some out" "nds nd"
  shows "out = Again t \<or> out = Returned t \<Longrightarrow> \<exists>h'. (live_step E L MutHash B C nds)\<^sup>*\<^sup>* (s, None, h) (t, None, h')"
proof -
  have "nds nd \<longrightarrow> (\<forall>t. out = Again t \<or> out = Returned t \<longrightarrow>
      (\<exists>h'. (live_step E L MutHash B C nds)\<^sup>*\<^sup>* (s, None, h) (t, None, h')))"
  proof (rule index_loop.raw_induct [where P = "\<lambda>E L MutHash B C nd h s out. nds nd \<longrightarrow>
      (\<forall>t. out = Again t \<or> out = Returned t \<longrightarrow>
        (\<exists>h'. (live_step E L MutHash B C nds)\<^sup>*\<^sup>* (s, None, h) (t, None, h')))", OF _ assms(1)])
    fix loop E L MutHash B C nd h s out
    assume IH: "\<And>E L MutHash B C nd h s out. loop E L MutHash B C nd h s = Some out \<Longrightarrow> nds nd \<longrightarrow>
        (\<forall>t. out = Again t \<or> out = Returned t \<longrightarrow>
          (\<exists>h'. (live_step E L MutHash B C nds)\<^sup>*\<^sup>* (s, None, h) (t, None, h')))"
      and run: "(if h > nd_latest nd then Some (Again s)
        else if nd_cancel nd h then Some (Returned s)
        else case nd_block nd h of Inl err \<Rightarrow> Some (Again s)
          | Inr None \<Rightarrow> Some Died
          | Inr (Some src) \<Rightarrow> (case index_block E L MutHash (tokens s) (nd_exiting nd h) h (nd_latest nd) src (nd_events nd h) (nd_order nd h) of
              Ok state \<Rightarrow> (case setBlock B C s state of
                  Ok s' \<Rightarrow> loop E L MutHash B C nd (h + 1) s' | Err err \<Rightarrow> Some (Again s) | Panic \<Rightarrow> Some Died)
            | _ \<Rightarrow> Some Died)) = Some out"
    show "nds nd \<longrightarrow> (\<forall>t. out = Again t \<or> out = Returned t \<longrightarrow>
        (\<exists>h'. (live_step E L MutHash B C nds)\<^sup>*\<^sup>* (s, None, h) (t, None, h')))"
    proof (intro impI allI)
      fix t assume nd: "nds nd" and out: "out = Again t \<or> out = Returned t"
      show "\<exists>h'. (live_step E L MutHash B C nds)\<^sup>*\<^sup>* (s, None, h) (t, None, h')"
      proof (cases "\<exists>src state s'. h \<le> nd_latest nd \<and> nd_block nd h = Inr (Some src) \<and>
          index_block E L MutHash (tokens s) (nd_exiting nd h) h (nd_latest nd) src (nd_events nd h) (nd_order nd h) = Ok state \<and>
          setBlock B C s state = Ok s' \<and> loop E L MutHash B C nd (h + 1) s' = Some out")
        case True
        then obtain s' where s': "(live_step E L MutHash B C nds)\<^sup>*\<^sup>* (s, None, h) (s', None, h + 1)"
          "loop E L MutHash B C nd (h + 1) s' = Some out"
          using live_block nd by metis
        from IH [OF s'(2)] nd out
        obtain h' where "(live_step E L MutHash B C nds)\<^sup>*\<^sup>* (s', None, h + 1) (t, None, h')" by blast
        with s'(1) show ?thesis by (blast intro: rtranclp_trans)
      next
        case False
        then have "t = s" using run out by (auto split: if_splits sum.splits option.splits res.splits simp: not_less)
        then show ?thesis by blast
      qed
    qed
  qed
  then show "out = Again t \<or> out = Returned t \<Longrightarrow> \<exists>h'. (live_step E L MutHash B C nds)\<^sup>*\<^sup>* (s, None, h) (t, None, h')"
    using assms(2) by blast
qed

lemma index_round_live:
  assumes "index_round E L MutHash B C exitEarly nd s = Some out" "nds nd" "out = Again t \<or> out = Returned t"
  shows "\<exists>h'. (live_step E L MutHash B C nds)\<^sup>*\<^sup>* (s, None, h) (t, None, h')"
proof -
  have start: "(live_step E L MutHash B C nds)\<^sup>*\<^sup>* (s, None, h) (s, None, next_height s)"
    by (blast intro: live_step.round)
  show ?thesis
  proof (cases "index_loop E L MutHash B C nd (next_height s) s = Some out")
    case True
    then show ?thesis using index_loop_live [where nds = nds, OF True assms(2,3)] start by (meson rtranclp_trans)
  next
    case False
    then have "t = s" using assms(1,3) by (auto simp: index_round_def split: if_splits)
    then show ?thesis by blast
  qed
qed

section \<open>Endpoints, read by read\<close>

text \<open>\<open>\<sigma> i\<close> is the store at the read number \<open>i\<close>: \<^verbatim>\<open>getBlockInfo\<close> makes the reads 0 to 2.\<close>

definition getBlockInfo_at ::
  "env \<Rightarrow> 'db badger \<Rightarrow> codec \<Rightarrow> (nat \<Rightarrow> 'db store) \<Rightarrow> partial_block_identifier option \<Rightarrow> bool \<Rightarrow>
   (xerror, blockInfo) res" where
  "getBlockInfo_at E B C \<sigma> pid withBlock =
     bind_res (getBlockID E (\<sigma> 0) pid True) (\<lambda>bid.
       if bid_byHeight bid \<and> getHeight (\<sigma> 1) < bid_height bid then Err errUnknownBlockIndex
       else getBlockInfoRaw E B C (\<sigma> 2) bid withBlock)"

text \<open>\<^verbatim>\<open>getBalance\<close> reads each balance in a transaction of its own. The tokens never change.\<close>

fun balance_loop_at ::
  "env \<Rightarrow> 'db badger \<Rightarrow> (nat \<Rightarrow> 'db store) \<Rightarrow> nat \<Rightarrow> blockInfo \<Rightarrow> address \<Rightarrow> bool \<Rightarrow> address set \<Rightarrow> address list \<Rightarrow>
   amount list \<Rightarrow> (xerror, amount list) res" where
  "balance_loop_at E B \<sigma> i info acct filtered flt [] balances = Ok balances"
| "balance_loop_at E B \<sigma> i info acct filtered flt (contract # cs) balances =
     bind_res (getCurrencyInfo (\<sigma> 0) contract) (\<lambda>cinfo.
       if filtered \<and> ci_contract cinfo \<notin> flt then
         balance_loop_at E B \<sigma> i info acct filtered flt cs balances
       else
         (let pre = accountKeyPrefix (addr2slice E acct) (addr2slice E contract);
              key = accountKey pre (info_hval info)
          in case lookup_balance B (st_db (\<sigma> i)) pre key of
               Inl err \<Rightarrow> Err (wrapErr errDatastore (berr_error err))
             | Inr balance \<Rightarrow>
                 balance_loop_at E B \<sigma> (Suc i) info acct filtered flt cs
                   (balances @ [\<lparr>am_value = big_string balance, am_currency = Some (ci_currency cinfo)\<rparr>])))"

definition getBalance_at ::
  "env \<Rightarrow> 'db badger \<Rightarrow> codec \<Rightarrow> (nat \<Rightarrow> 'db store) \<Rightarrow> partial_block_identifier option \<Rightarrow> address \<Rightarrow>
   currency option list \<Rightarrow> address list \<Rightarrow> (xerror, balance_response) res" where
  "getBalance_at E B C \<sigma> pid acct currencies contracts =
     bind_res (getBlockInfo_at E B C \<sigma> pid False) (\<lambda>info.
     bind_res (balance_filter E (\<sigma> 0) currencies {}) (\<lambda>flt.
     bind_res (balance_loop_at E B \<sigma> 3 info acct (0 < length currencies) flt contracts []) (\<lambda>balances.
     Ok \<lparr>br_balances = balances, br_blockID = info_blockID info\<rparr>)))"

definition AccountBalance_at ::
  "env \<Rightarrow> 'db badger \<Rightarrow> codec \<Rightarrow> bool \<Rightarrow> (nat \<Rightarrow> 'db store) \<Rightarrow> account_identifier option \<Rightarrow>
   partial_block_identifier option \<Rightarrow> currency option list \<Rightarrow> (xerror, balance_response) res" where
  "AccountBalance_at E B C offline \<sigma> account pid currencies =
     (if offline then Err errOfflineMode
      else
        (case account of
           None \<Rightarrow> Err errInvalidAccountAddress
         | Some ident \<Rightarrow>
        (case AddressFromBase58 E (ai_address ident) of
           Inl err \<Rightarrow> Err errInvalidAccountAddress
         | Inr acct \<Rightarrow>
        (case ai_sub_account ident of
           None \<Rightarrow> getBalance_at E B C \<sigma> pid acct currencies [ontAddr E, ongAddr E]
         | Some sub \<Rightarrow>
             (case AddressFromHexString E sub of
                Inl err \<Rightarrow> Err errInvalidContractAddress
              | Inr contract \<Rightarrow> getBalance_at E B C \<sigma> pid acct currencies [contract])))))"

text \<open>\<^verbatim>\<open>Block\<close> reads the parent last.\<close>

definition Block_at ::
  "env \<Rightarrow> 'db badger \<Rightarrow> codec \<Rightarrow> bool \<Rightarrow> (nat \<Rightarrow> 'db store) \<Rightarrow> partial_block_identifier option \<Rightarrow>
   (xerror, rblock) res" where
  "Block_at E B C offline \<sigma> pid =
     (if offline then Err errOfflineMode
      else
        bind_res (getBlockInfo_at E B C \<sigma> pid True) (\<lambda>info.
        bind_res
          (if info_height info > 0 then
             bind_res (getBlockInfoRaw E B C (\<sigma> 3) (id_of_height (info_height info - 1)) False)
               (\<lambda>pinfo. Ok (info_blockID pinfo))
           else Ok (info_blockID info)) (\<lambda>parent.
        bind_res (map_res (\<lambda>src. consistency (transformTransaction E (\<sigma> 0) src)) (mb_transactions (info_block info))) (\<lambda>txs.
        Ok \<lparr>rb_blockID = info_blockID info, rb_parent = parent, rb_timestamp = blockTimestamp info,
            rb_transactions = txs\<rparr>))))"

definition BlockTransaction_at ::
  "env \<Rightarrow> 'db badger \<Rightarrow> codec \<Rightarrow> bool \<Rightarrow> (nat \<Rightarrow> 'db store) \<Rightarrow> block_identifier option \<Rightarrow> string option \<Rightarrow>
   (xerror, rtransaction) res" where
  "BlockTransaction_at E B C offline \<sigma> bid txid =
     (if offline then Err errOfflineMode
      else
        (case txid of
           None \<Rightarrow> Err errInvalidTransactionHash
         | Some hs \<Rightarrow>
        (case Uint256FromHexString E hs of
           Inl err \<Rightarrow> Err errInvalidTransactionHash
         | Inr txhash \<Rightarrow>
        (case bid of
           None \<Rightarrow> Err errInvalidBlockIdentifier
         | Some b \<Rightarrow>
             bind_res (getBlockInfo_at E B C \<sigma> (Some \<lparr>pbi_index = Some (bi_index b), pbi_hash = Some (bi_hash b)\<rparr>) True)
               (\<lambda>info. find_transaction E (\<sigma> 0) txhash (mb_transactions (info_block info)))))))"

text \<open>\<^verbatim>\<open>NetworkStatus\<close> reads the height, two blocks, and at the end the heights again.\<close>

definition NetworkStatus_at ::
  "env \<Rightarrow> 'db badger \<Rightarrow> codec \<Rightarrow> bool \<Rightarrow> (nat \<Rightarrow> 'db store) \<Rightarrow> 'p list option \<Rightarrow> (xerror, 'p status_response) res" where
  "NetworkStatus_at E B C offline \<sigma> node =
     (if offline then Err errOfflineMode
      else
        bind_res (getBlockInfoRaw E B C (\<sigma> 1) (id_of_height (getHeight (\<sigma> 0))) True) (\<lambda>cur.
        bind_res (getBlockInfoRaw E B C (\<sigma> 2) (id_of_height 0) False) (\<lambda>genesis.
        (case node of
           None \<Rightarrow> Panic
         | Some peers \<Rightarrow>
        (case syncStatus (\<sigma> 3) of
           Ok st \<Rightarrow>
             Ok \<lparr>ns_current = info_blockID cur, ns_timestamp = blockTimestamp cur,
                 ns_genesis = info_blockID genesis, ns_peers = peers, ns_sync = st\<rparr>
         | _ \<Rightarrow> Panic)))))"

text \<open>A request that runs alone sees one store, and these are the endpoints of the other theories.\<close>

lemma getBlockInfo_alone: "getBlockInfo_at E B C (\<lambda>i. s) pid w = getBlockInfo E B C s pid w"
  by (simp add: getBlockInfo_at_def getBlockInfo_def)

lemma balance_loop_at_eq:
  assumes "tokens (\<sigma> 0) = tokens s"
    and "\<forall>c\<in>set cs. \<forall>j\<ge>i. lookup_balance B (st_db (\<sigma> j)) (acct_prefix E acct c) (accountKey (acct_prefix E acct c) (info_hval info)) =
       lookup_balance B (st_db s) (acct_prefix E acct c) (accountKey (acct_prefix E acct c) (info_hval info))"
  shows "balance_loop_at E B \<sigma> i info acct filtered flt cs bs = balance_loop E B s info acct filtered flt cs bs"
  using assms(2)
proof (induction cs arbitrary: i bs)
  case (Cons c cs)
  let ?pre = "acct_prefix E acct c"
  have rest: "balance_loop_at E B \<sigma> k info acct filtered flt cs bs' = balance_loop E B s info acct filtered flt cs bs'"
    if "i \<le> k" for k bs'
    using Cons.prems that by (intro Cons.IH) auto
  have read: "lookup_balance B (st_db (\<sigma> i)) ?pre (accountKey ?pre (info_hval info)) =
      lookup_balance B (st_db s) ?pre (accountKey ?pre (info_hval info))"
    using Cons.prems by simp
  show ?case
  proof (cases "tokens s c")
    case (Some cinfo)
    show ?thesis
    proof (cases "filtered \<and> ci_contract cinfo \<notin> flt")
      case False
      then show ?thesis
        using Some assms(1) rest [of "Suc i"] read
        by (cases "lookup_balance B (st_db s) ?pre (accountKey ?pre (info_hval info))")
          (auto simp: getCurrencyInfo_def Let_def acct_prefix_def)
    qed (use Some assms(1) rest in \<open>simp add: getCurrencyInfo_def\<close>)
  qed (use assms(1) in \<open>simp add: getCurrencyInfo_def\<close>)
qed simp

lemma balance_loop_alone:
  "balance_loop_at E B (\<lambda>i. s) i info acct filtered flt cs bs = balance_loop E B s info acct filtered flt cs bs"
  by (rule balance_loop_at_eq) simp_all

lemma requests_alone:
  "AccountBalance_at E B C offline (\<lambda>i. s) account pid currencies = AccountBalance E B C offline s account pid currencies"
  "Block_at E B C offline (\<lambda>i. s) pid = Block E B C offline s pid"
  "BlockTransaction_at E B C offline (\<lambda>i. s) bid txid = BlockTransaction E B C offline s bid txid"
  "NetworkStatus_at E B C offline (\<lambda>i. s) node = NetworkStatus E B C offline s node"
  by (simp_all add: AccountBalance_at_def AccountBalance_def getBalance_at_def getBalance_def getBlockInfo_alone
      balance_loop_alone Block_at_def Block_def BlockTransaction_at_def BlockTransaction_def NetworkStatus_at_def NetworkStatus_def cong: option.case_cong sum.case_cong)

section \<open>Invariant\<close>

text \<open>The heights are those of the first \<open>k\<close> blocks, the contents those of the first \<open>n\<close>.\<close>

definition heights_of :: "nat \<Rightarrow> int option" where
  "heights_of n = (if n = 0 then None else Some (int n - 1))"

definition seen ::
  "env \<Rightarrow> evm_lib \<Rightarrow> (mutable_tx \<Rightarrow> hash256) \<Rightarrow> codec \<Rightarrow> (address \<rightharpoonup> currencyInfo) \<Rightarrow> chain \<Rightarrow>
   ('db \<Rightarrow> bytes \<rightharpoonup> bytes) \<Rightarrow> nat \<Rightarrow> nat \<Rightarrow> 'db store \<Rightarrow> bool" where
  "seen E L MutHash C toks ch con k n s \<longleftrightarrow>
     k \<le> n \<and> heightIndexed s = heights_of k \<and>
     synced E L MutHash C toks ch con n (s\<lparr>heightIndexed := heights_of n\<rparr>)"

lemma seen_synced: "seen E L MutHash C toks ch con n n s \<longleftrightarrow> synced E L MutHash C toks ch con n s"
  by (cases s) (auto simp: seen_def heights_of_def synced_def)

lemma seen_tokens: "seen E L MutHash C toks ch con k n s \<Longrightarrow> tokens s = toks"
  by (simp add: seen_def synced_def)

text \<open>The assumptions on the node, the database, the codec and the libraries, in one name.\<close>

definition indexing ::
  "env \<Rightarrow> evm_lib \<Rightarrow> (mutable_tx \<Rightarrow> hash256) \<Rightarrow> 'db badger \<Rightarrow> codec \<Rightarrow> (address \<rightharpoonup> currencyInfo) \<Rightarrow> chain \<Rightarrow>
   ('db \<Rightarrow> bytes \<rightharpoonup> bytes) \<Rightarrow> bool" where
  "indexing E L MutHash B C toks ch con \<longleftrightarrow>
     badger_ok B con \<and> env_ok E \<and> evm_ok L \<and> toks_ok toks \<and> codec_ok C \<and> chain_ok MutHash ch"

definition live_ok ::
  "env \<Rightarrow> evm_lib \<Rightarrow> (mutable_tx \<Rightarrow> hash256) \<Rightarrow> codec \<Rightarrow> (address \<rightharpoonup> currencyInfo) \<Rightarrow> chain \<Rightarrow>
   ('db \<Rightarrow> bytes \<rightharpoonup> bytes) \<Rightarrow> nat \<Rightarrow> nat \<Rightarrow> 'db live \<Rightarrow> bool" where
  "live_ok E L MutHash C toks ch con k n v =
     (case v of (s, pend, h) \<Rightarrow>
        seen E L MutHash C toks ch con k n s \<and>
        (case pend of
           None \<Rightarrow> k = n \<and> (n = unat h \<or> n = Suc (unat h))
         | Some t \<Rightarrow> synced E L MutHash C toks ch con n t \<and> h < 4294967295 \<and> n = Suc (unat h)))"

lemma live_ok_step:
  assumes ctx: "indexing E L MutHash B C toks ch con"
    and step: "live_step E L MutHash B C (serves E L toks ch) v v'" and ok: "live_ok E L MutHash C toks ch con k n v"
  shows "\<exists>k'\<ge>k. \<exists>n'\<ge>n. live_ok E L MutHash C toks ch con k' n' v'"
  using step
proof (cases rule: live_step.cases)
  case (round s h)
  then have n: "synced E L MutHash C toks ch con n s" "k = n"
    using ok by (auto simp: live_ok_def seen_synced)
  then have "live_ok E L MutHash C toks ch con n n v'"
    using synced_next_height(1) [OF n(1)] by (simp add: round live_ok_def seen_synced)
  then show ?thesis using n(2) by blast
next
  case (commit nd h src s state t)
  have n: "synced E L MutHash C toks ch con n s" "k = n" "n = unat h \<or> n = Suc (unat h)" "tokens s = toks"
    using ok commit(1) by (auto simp: live_ok_def seen_synced synced_def)
  have h: "h < 4294967295" using commit(4) servesD(4) [OF commit(3)] by simp
  have t: "synced E L MutHash C toks ch con (Suc (unat h)) t"
    using ctx commit(6) n(4) unfolding indexing_def
    by (intro synced_step [OF _ _ _ _ _ _ commit(3) n(1,3) commit(4,5) _ commit(7)]) simp_all
  then have "live_ok E L MutHash C toks ch con n (Suc (unat h)) v'"
    using n(1,3) h
    by (auto simp: commit(2) live_ok_def seen_def synced_def heights_of_def)
  moreover have "n \<le> Suc (unat h)" using n(3) by auto
  ultimately show ?thesis using n(2) by blast
next
  case (publish s t h)
  then have n: "synced E L MutHash C toks ch con n t" "n = Suc (unat h)" "h < 4294967295" "k \<le> n"
    using ok by (auto simp: live_ok_def seen_def)
  then have "live_ok E L MutHash C toks ch con n n v'"
    by (simp add: publish live_ok_def seen_synced word_less_nat_alt unat_word_ariths)
  then show ?thesis using n(4) by blast
qed

text \<open>Neither the contents nor the heights ever go back.\<close>

interpretation live: step_invariant "live_step E L MutHash B C (serves E L toks ch)"
  "\<lambda>v. indexing E L MutHash B C toks ch con \<and> (\<exists>k\<ge>k0. \<exists>n\<ge>n0. live_ok E L MutHash C toks ch con k n v)"
  for E L MutHash B C toks ch con k0 n0
proof unfold_locales
  fix v v' assume "live_step E L MutHash B C (serves E L toks ch) v v'"
    and "indexing E L MutHash B C toks ch con \<and> (\<exists>k\<ge>k0. \<exists>n\<ge>n0. live_ok E L MutHash C toks ch con k n v)"
  then show "indexing E L MutHash B C toks ch con \<and> (\<exists>k\<ge>k0. \<exists>n\<ge>n0. live_ok E L MutHash C toks ch con k n v')"
    using live_ok_step by (meson order_trans)
qed

text \<open>A store that was opened online knows the height of the node, whatever happens later.\<close>

interpretation target: step_invariant "live_step E L MutHash B C nds"
  "\<lambda>(s, pend, h). heightSynced s \<noteq> None \<and> (\<forall>t. pend = Some t \<longrightarrow> heightSynced t \<noteq> None)"
  for E L MutHash B C nds
  by unfold_locales (auto elim!: live_step.cases dest: setBlock_synced)

lemma server_steps_target:
  assumes "(server_step E L MutHash B C nds oep4)\<^sup>*\<^sup>* s t" "heightSynced s \<noteq> None"
  shows "heightSynced t \<noteq> None"
  using assms
proof (induction rule: rtranclp_induct)
  case (step y z)
  have run: "heightSynced z \<noteq> None"
    if "nds nd" "index_round E L MutHash B C exitEarly nd y = Some out" "out = Again z \<or> out = Returned z" for nd exitEarly out
    using index_round_live [where nds = nds and h = 0, OF that(2,1,3)] target.reached [of E L MutHash B C nds "(y, None, 0)"] step by fastforce
  from step.hyps(2) show ?case
  proof (cases rule: server_step.cases)
    case (next_round exitEarly)
    then show ?thesis using run by (auto simp: index_step_iff)
  next
    case (stops nd exitEarly)
    then show ?thesis using run by blast
  next
    case (restart current)
    then show ?thesis by (auto simp: NewStore_def Let_def split: res.splits berr.splits)
  qed
qed simp

text \<open>The stores that the reads of one request see.\<close>

definition reads ::
  "env \<Rightarrow> evm_lib \<Rightarrow> (mutable_tx \<Rightarrow> hash256) \<Rightarrow> 'db badger \<Rightarrow> codec \<Rightarrow> (node \<Rightarrow> bool) \<Rightarrow> 'db store \<Rightarrow> (nat \<Rightarrow> 'db store) \<Rightarrow> bool" where
  "reads E L MutHash B C nds s \<sigma> \<longleftrightarrow>
     (\<exists>v. (live_step E L MutHash B C nds)\<^sup>*\<^sup>* (s, None, next_height s) (v 0) \<and>
        (\<forall>i. (live_step E L MutHash B C nds)\<^sup>*\<^sup>* (v i) (v (Suc i)) \<and> \<sigma> i = fst (v i)))"

lemma reads_target:
  assumes "reads E L MutHash B C nds s \<sigma>" "heightSynced s \<noteq> None"
  shows "heightSynced (\<sigma> i) \<noteq> None"
proof -
  from assms(1) obtain v where v: "(live_step E L MutHash B C nds)\<^sup>*\<^sup>* (s, None, next_height s) (v 0)"
    "\<And>i. (live_step E L MutHash B C nds)\<^sup>*\<^sup>* (v i) (v (Suc i))" "\<And>i. \<sigma> i = fst (v i)"
    by (auto simp: reads_def)
  have "(live_step E L MutHash B C nds)\<^sup>*\<^sup>* (s, None, next_height s) (v i)"
    by (induction i) (use v(1,2) in \<open>blast intro: rtranclp_trans\<close>)+
  from target.reached [OF this] show ?thesis using assms(2) v(3) [of i] by (auto split: prod.splits)
qed

lemma reads_seen:
  assumes ctx: "indexing E L MutHash B C toks ch con" and path: "reads E L MutHash B C (serves E L toks ch) s \<sigma>"
    and s: "synced E L MutHash C toks ch con m s"
  obtains k n where "mono k" "mono n" "\<And>i. seen E L MutHash C toks ch con (k i) (n i) (\<sigma> i)" "m \<le> k 0"
proof -
  from path obtain v where v: "(live_step E L MutHash B C (serves E L toks ch))\<^sup>*\<^sup>* (s, None, next_height s) (v 0)"
    "\<And>i. (live_step E L MutHash B C (serves E L toks ch))\<^sup>*\<^sup>* (v i) (v (Suc i))" "\<And>i. \<sigma> i = fst (v i)"
    by (auto simp: reads_def)
  let ?ok = "\<lambda>i x. m \<le> fst x \<and> live_ok E L MutHash C toks ch con (fst x) (snd x) (v i)"
  have "live_ok E L MutHash C toks ch con m m (s, None, next_height s)"
    using synced_next_height(1) [OF s] s by (simp add: live_ok_def seen_synced)
  then have start: "\<exists>x. ?ok 0 x"
    using live.reached [OF v(1), of con m m] ctx by auto
  have "\<exists>y. ?ok (Suc i) y \<and> fst x \<le> fst y \<and> snd x \<le> snd y" if "?ok i x" for x i
  proof -
    have "\<exists>k\<ge>fst x. \<exists>n\<ge>snd x. live_ok E L MutHash C toks ch con k n (v (Suc i))"
      using live.reached [OF v(2) [of i], of con "fst x" "snd x"] ctx that by blast
    then obtain k n where "fst x \<le> k" "snd x \<le> n" "live_ok E L MutHash C toks ch con k n (v (Suc i))" by blast
    then show ?thesis using that by (intro exI [of _ "(k, n)"]) simp
  qed
  then obtain x where x: "\<And>i. ?ok i (x i)" "\<And>i. fst (x i) \<le> fst (x (Suc i)) \<and> snd (x i) \<le> snd (x (Suc i))"
    using dependent_nat_choice [of ?ok "\<lambda>i x y. fst x \<le> fst y \<and> snd x \<le> snd y"] start by metis
  show thesis
  proof (rule that)
    show "mono (\<lambda>i. fst (x i))" "mono (\<lambda>i. snd (x i))" using x(2) by (simp_all add: mono_iff_le_Suc)
    show "seen E L MutHash C toks ch con (fst (x i)) (snd (x i)) (\<sigma> i)" "m \<le> fst (x 0)" for i
      using x(1) [of i] x(1) [of 0] v(3) [of i] by (auto simp: live_ok_def split: prod.splits)
  qed
qed

section \<open>What later stores answer\<close>

lemma raw_db: "st_db t = st_db s \<Longrightarrow> getBlockInfoRaw E B C t bid w = getBlockInfoRaw E B C s bid w"
  unfolding getBlockInfoRaw_def by (erule ssubst) (rule refl)

lemma raw_heights [simp]: "getBlockInfoRaw E B C (s\<lparr>heightIndexed := x\<rparr>) bid w = getBlockInfoRaw E B C s bid w"
  by (rule raw_db) simp

lemma seen_raw_synced:
  "seen E L MutHash C toks ch con k n s \<Longrightarrow> synced E L MutHash C toks ch con n (s\<lparr>heightIndexed := heights_of n\<rparr>)"
  by (simp add: seen_def)

lemma seen_height:
  assumes "seen E L MutHash C toks ch con k n s" "k \<noteq> 0"
  shows "unat (getHeight s) = k - 1" "k \<le> n"
proof -
  obtain m where m: "k = Suc m" using assms(2) by (cases k) auto
  have k: "k \<le> n" "n < 4294967296" using assms(1) by (auto simp: seen_def synced_def)
  then have "unat (word_of_nat m :: u32) = m" by (intro unat_of_nat_u32) (simp add: m)
  moreover have "getHeight s = word_of_nat m" using assms(1) by (simp add: seen_def heights_of_def getHeight_def m)
  ultimately show "unat (getHeight s) = k - 1" "k \<le> n" using k by (simp_all add: m)
qed

lemma raw_stable:
  assumes ctx: "indexing E L MutHash B C toks ch con"
    and seen: "seen E L MutHash C toks ch con k n s" "seen E L MutHash C toks ch con k' n' s'"
    and h: "unat h < n" "unat h < n'"
  shows "getBlockInfoRaw E B C s' (id_of_height h) w = getBlockInfoRaw E B C s (id_of_height h) w"
    and "is_hash x \<Longrightarrow>
      getBlockInfoRaw E B C s' ((id_of_height h)\<lparr>bid_hash := x\<rparr>) w = getBlockInfoRaw E B C s ((id_of_height h)\<lparr>bid_hash := x\<rparr>) w"
proof -
  have B: "badger_ok B con" "chain_ok MutHash ch" using ctx by (simp_all add: indexing_def)
  have stored: "block_at C (con (st_db s)) h (sb_Hash (ch_block ch h)) (stored_block E L toks ch h)"
    "block_at C (con (st_db s')) h (sb_Hash (ch_block ch h)) (stored_block E L toks ch h)"
    using seen_raw_synced [OF seen(1)] seen_raw_synced [OF seen(2)] h unfolding synced_def by simp_all
  show "getBlockInfoRaw E B C s' (id_of_height h) w = getBlockInfoRaw E B C s (id_of_height h) w"
    using getBlockInfoRaw_height [OF B(1) stored(1)] getBlockInfoRaw_height [OF B(1) stored(2)] by simp
  show "getBlockInfoRaw E B C s' ((id_of_height h)\<lparr>bid_hash := x\<rparr>) w = getBlockInfoRaw E B C s ((id_of_height h)\<lparr>bid_hash := x\<rparr>) w"
    if "is_hash x"
    using getBlockInfoRaw_both [OF B(1) stored(1) that] getBlockInfoRaw_both [OF B(1) stored(2) that] by simp
qed

text \<open>What a store holds beyond its heights does not matter: a lookup fails or finds a block.\<close>

lemma seen_raw:
  assumes ctx: "indexing E L MutHash B C toks ch con" and seen: "seen E L MutHash C toks ch con k n s"
    and ident: "getBlockID E s pid True = Ok ident"
  shows "(\<exists>e. getBlockInfoRaw E B C s ident w = Err e) \<or>
    (\<exists>info. getBlockInfoRaw E B C s ident w = Ok info \<and> unat (info_height info) < n)"
proof -
  have env: "badger_ok B con" "env_ok E" "chain_ok MutHash ch" using ctx by (simp_all add: indexing_def)
  note raw = raw_synced [OF env(1,3) seen_raw_synced [OF seen], unfolded raw_heights]
  consider h where "ident = id_of_height h" | x where "is_hash x" "ident = empty_id\<lparr>bid_hash := x\<rparr>"
    | h x where "is_hash x" "ident = (id_of_height h)\<lparr>bid_hash := x\<rparr>"
    using getBlockID_forms [OF env(2) ident] by blast
  then show ?thesis
  proof cases
    case (1 h)
    then show ?thesis using raw(1) [of h w] by (simp add: info_of_def)
  next
    case (2 x)
    then show ?thesis using raw(2) [OF 2(1), of w] by (auto simp: info_of_def)
  next
    case (3 h x)
    have "con (st_db s) (blockHeight2HashKey h) = None" if "\<not> unat h < n"
      using seen_raw_synced [OF seen] that unfolding synced_def by (simp add: not_less)
    then show ?thesis
      using raw(3) [OF 3(1), of h w] 3(2) unknown_height_both [OF env(1), of s h]
      by (cases "unat h < n") (auto simp: info_of_def)
  qed
qed

lemma seen_getBlockInfo:
  assumes ctx: "indexing E L MutHash B C toks ch con" and seen: "seen E L MutHash C toks ch con k n s"
  shows "getBlockInfo E B C s pid w \<noteq> Panic"
    and "getBlockInfo E B C s pid w = Ok info \<Longrightarrow> unat (info_height info) < n"
  using seen_raw [OF ctx seen, of pid _ w] getBlockID_no_panic [of E s pid]
  by (fastforce simp: getBlockInfo_def res_simps split: if_splits)+

lemma seen_no_panic:
  assumes ctx: "indexing E L MutHash B C toks ch con" and seen: "seen E L MutHash C toks ch con k n s"
  shows "Block E B C offline s pid \<noteq> Panic" "BlockTransaction E B C offline s bid txid \<noteq> Panic"
    "AccountBalance E B C offline s account pid currencies \<noteq> Panic"
proof -
  have env: "badger_ok B con" "chain_ok MutHash ch" using ctx by (simp_all add: indexing_def)
  have "getBlockInfoRaw E B C s (id_of_height h) w \<noteq> Panic" for h w
    using raw_synced(1) [OF env seen_raw_synced [OF seen], unfolded raw_heights, of h w] by simp
  note safe = endpoints_no_panic [where s = s, OF seen_getBlockInfo(1) [OF ctx seen] this]
  show "Block E B C offline s pid \<noteq> Panic" "BlockTransaction E B C offline s bid txid \<noteq> Panic"
    "AccountBalance E B C offline s account pid currencies \<noteq> Panic"
    by (rule safe)+
qed

text \<open>The block a request answers for is the block one of its first three reads selects.\<close>

lemma getBlockInfo_at_eq:
  assumes ctx: "indexing E L MutHash B C toks ch con"
    and seen: "mono k" "mono n" "\<And>i. seen E L MutHash C toks ch con (k i) (n i) (\<sigma> i)" and "k 0 \<noteq> 0"
  obtains i where "i \<le> 2" "\<And>w. getBlockInfo_at E B C \<sigma> pid w = getBlockInfo E B C (\<sigma> i) pid w"
    "\<And>w info. getBlockInfo E B C (\<sigma> i) pid w = Ok info \<Longrightarrow> unat (info_height info) < n i"
proof -
  have env: "badger_ok B con" "env_ok E" "chain_ok MutHash ch" using ctx by (simp_all add: indexing_def)
  have k: "k 0 \<le> k i" "k i \<noteq> 0" "k i \<le> n i" "unat (getHeight (\<sigma> i)) = k i - 1" for i
  proof -
    show le: "k 0 \<le> k i" using seen(1) by (rule monoD) simp
    then show nz: "k i \<noteq> 0" using \<open>k 0 \<noteq> 0\<close> by simp
    show "k i \<le> n i" "unat (getHeight (\<sigma> i)) = k i - 1" using seen_height [OF seen(3) nz] by blast+
  qed
  have le: "k 0 \<le> k 1" "k 0 \<le> k 2" "k 1 \<le> k 2" "n 0 \<le> n 2" "n 1 \<le> n 2"
    using seen(1,2) by (auto intro: monoD)
  have below: "unat (info_height info) < n i"
    if "getBlockInfo E B C (\<sigma> i) pid w = Ok info" for i w info
    using seen_getBlockInfo(2) [OF ctx seen(3) that] .
  show thesis
  proof (cases "no_block_selected pid")
    case True
    let ?h = "getHeight (\<sigma> 0)"
    have "unat ?h < n 0" "unat ?h < n 2" "\<not> getHeight (\<sigma> 1) < ?h"
      using k [of 0] k [of 1] le by (simp_all add: word_less_nat_alt)
    then have "getBlockInfo_at E B C \<sigma> pid w = getBlockInfo E B C (\<sigma> 0) pid w" for w
      using raw_stable(1) [OF ctx seen(3) seen(3), of ?h 0 2 w] True
      by (simp add: getBlockInfo_at_def getBlockInfo_def getBlockID_def) (simp add: id_of_height_def)
    then show thesis using below [of 0] by (intro that [of 0]) simp_all
  next
    case False
    have id_eq: "getBlockID E (\<sigma> i) pid True = getBlockID E (\<sigma> 0) pid True" for i
      using False by (simp add: getBlockID_def)
    show thesis
    proof (cases "getBlockID E (\<sigma> 0) pid True")
      case (Ok ident)
      consider x where "is_hash x" "ident = empty_id\<lparr>bid_hash := x\<rparr>"
        | h where "ident = id_of_height h" | h x where "is_hash x" "ident = (id_of_height h)\<lparr>bid_hash := x\<rparr>"
        using getBlockID_forms [OF env(2) Ok] by blast
      then show thesis
      proof cases
        case (1 x)
        have "getBlockInfo_at E B C \<sigma> pid w = getBlockInfo E B C (\<sigma> 2) pid w" for w
          using Ok 1 id_eq [of 2] by (simp add: getBlockInfo_at_def getBlockInfo_def empty_id_def)
        then show thesis using below [of 2] by (intro that [of 2]) simp_all
      next
        case (2 h)
        have "getBlockInfo_at E B C \<sigma> pid w = getBlockInfo E B C (\<sigma> 1) pid w" for w
        proof (cases "getHeight (\<sigma> 1) < h")
          case False
          then have "unat h < n 1" "unat h < n 2" using k [of 1] le by (auto simp: word_less_nat_alt)
          then show ?thesis
            using raw_stable(1) [OF ctx seen(3) seen(3), of h 1 2 w] Ok 2 id_eq [of 1]
            by (simp add: getBlockInfo_at_def getBlockInfo_def)
        qed (use Ok 2 id_eq [of 1] in \<open>simp add: getBlockInfo_at_def getBlockInfo_def id_of_height_def\<close>)
        then show thesis using below [of 1] by (intro that [of 1]) simp_all
      next
        case (3 h x)
        have "getBlockInfo_at E B C \<sigma> pid w = getBlockInfo E B C (\<sigma> 1) pid w" for w
        proof (cases "getHeight (\<sigma> 1) < h")
          case False
          then have "unat h < n 1" "unat h < n 2" using k [of 1] le by (auto simp: word_less_nat_alt)
          then show ?thesis
            using raw_stable(2) [OF ctx seen(3) seen(3) _ _ 3(1), of h 1 2 w] Ok 3 id_eq [of 1]
            by (simp add: getBlockInfo_at_def getBlockInfo_def)
        qed (use Ok 3 id_eq [of 1] in \<open>simp add: getBlockInfo_at_def getBlockInfo_def id_of_height_def\<close>)
        then show thesis using below [of 1] by (intro that [of 1]) simp_all
      qed
    qed (use id_eq [of 0] below [of 0] in \<open>auto intro!: that [of 0] simp: getBlockInfo_at_def getBlockInfo_def\<close>)
  qed
qed

lemma lookup_stable:
  assumes ctx: "indexing E L MutHash B C toks ch con"
    and seen: "seen E L MutHash C toks ch con k n s" "seen E L MutHash C toks ch con k' n' s'"
    and h: "unat h < n" "unat h < n'" and "is_addr a" "is_addr c"
  shows "lookup_balance B (st_db s') (acct_prefix E a c) (acct_key E a c h) =
    lookup_balance B (st_db s) (acct_prefix E a c) (acct_key E a c h)"
proof -
  have hist: "lookup_balance B (st_db t) (acct_prefix E a c) (acct_key E a c h) =
      Inr (latest (chain_hist (diff_of E L toks ch a c) (Suc (unat h))) (unat h))"
    if "seen E L MutHash C toks ch con l m t" "unat h < m" for l m t
  proof -
    have "badger_ok B con" "env_ok E" using ctx by (simp_all add: indexing_def)
    moreover have "acct_keys_ok E (con (st_db t))" "acct_hist E (con (st_db t)) a c = chain_hist (diff_of E L toks ch a c) m"
      using seen_raw_synced [OF that(1)] assms(6,7) by (simp_all add: synced_def)
    ultimately show ?thesis
      using lookup_balance_latest [of B con E "st_db t" a c h] latest_chain_hist_stable [OF that(2)] assms(6,7)
      by (simp del: chain_hist.simps latest.simps)
  qed
  show ?thesis using hist [OF seen(1) h(1)] hist [OF seen(2) h(2)] by simp
qed

lemma validate_tokens: "tokens t = tokens s \<Longrightarrow> validateCurrency E t c = validateCurrency E s c"
  unfolding validateCurrency_def by (erule ssubst) (rule refl)

lemma balance_filter_tokens:
  assumes "tokens t = tokens s"
  shows "balance_filter E t cs flt = balance_filter E s cs flt"
  using validate_tokens [OF assms, of E] by (induction cs arbitrary: flt) (simp_all cong: res.case_cong)

lemma transform_loop_tokens:
  assumes "tokens t = tokens s"
  shows "transform_loop E t xs ops = transform_loop E s xs ops"
  by (induction xs arbitrary: ops) (simp_all add: getCurrencyInfo_def assms Let_def cong: res.case_cong option.case_cong)

lemma transformTransaction_tokens:
  assumes "tokens t = tokens s"
  shows "transformTransaction E t tx = transformTransaction E s tx"
  unfolding transformTransaction_def transform_loop_tokens [OF assms] ..

lemma getBalance_at_eq:
  assumes ctx: "indexing E L MutHash B C toks ch con"
    and seen: "mono k" "mono n" "\<And>i. seen E L MutHash C toks ch con (k i) (n i) (\<sigma> i)" and "k 0 \<noteq> 0"
    and acct: "is_addr acct" "\<forall>c\<in>set cs. is_addr c"
  shows "\<exists>i\<le>2. getBalance_at E B C \<sigma> pid acct currencies cs = getBalance E B C (\<sigma> i) pid acct currencies cs"
proof -
  obtain i where i: "i \<le> 2" "\<And>w. getBlockInfo_at E B C \<sigma> pid w = getBlockInfo E B C (\<sigma> i) pid w"
    "\<And>w info. getBlockInfo E B C (\<sigma> i) pid w = Ok info \<Longrightarrow> unat (info_height info) < n i"
    using getBlockInfo_at_eq [where \<sigma> = \<sigma> and pid = pid, OF ctx seen \<open>k 0 \<noteq> 0\<close>] by metis
  have toks: "tokens (\<sigma> j) = toks" for j using seen_tokens [OF seen(3)] .
  have "getBalance_at E B C \<sigma> pid acct currencies cs = getBalance E B C (\<sigma> i) pid acct currencies cs"
  proof (cases "getBlockInfo E B C (\<sigma> i) pid False")
    case (Ok info)
    have h: "unat (info_height info) < n i" using i(3) [OF Ok] .
    have "lookup_balance B (st_db (\<sigma> j)) (acct_prefix E acct c) (accountKey (acct_prefix E acct c) (info_hval info)) =
        lookup_balance B (st_db (\<sigma> i)) (acct_prefix E acct c) (accountKey (acct_prefix E acct c) (info_hval info))"
      if "3 \<le> j" "c \<in> set cs" for j c
    proof -
      have "n i \<le> n j" using monoD [OF seen(2)] i(1) that(1) by simp
      then show ?thesis
        using lookup_stable [OF ctx seen(3) seen(3) h _ acct(1), of j c] acct(2) that(2) h
          getBlockInfo_hval [OF Ok] by (simp add: acct_key_def)
    qed
    then have "balance_loop_at E B \<sigma> 3 info acct f flt cs [] = balance_loop E B (\<sigma> i) info acct f flt cs []" for f flt
      by (intro balance_loop_at_eq) (simp_all add: toks)
    then show ?thesis
      using i(2) Ok balance_filter_tokens [of "\<sigma> 0" "\<sigma> i" E]
      by (simp add: getBalance_at_def getBalance_def toks cong: res.case_cong)
  qed (use i(2) in \<open>simp_all add: getBalance_at_def getBalance_def\<close>)
  then show ?thesis using i(1) by blast
qed

lemma addr_hex_is_addr: "env_ok E \<Longrightarrow> AddressFromHexString E s = Inr a \<Longrightarrow> is_addr a"
  by (simp add: addr_hex_iff)

lemma AccountBalance_at_eq:
  assumes ctx: "indexing E L MutHash B C toks ch con"
    and seen: "mono k" "mono n" "\<And>i. seen E L MutHash C toks ch con (k i) (n i) (\<sigma> i)" and "k 0 \<noteq> 0"
  shows "\<exists>i\<le>2. AccountBalance_at E B C offline \<sigma> account pid currencies = AccountBalance E B C offline (\<sigma> i) account pid currencies"
proof -
  have env: "env_ok E" using ctx by (simp add: indexing_def)
  have bal: "\<exists>i\<le>2. getBalance_at E B C \<sigma> pid acct currencies cs = getBalance E B C (\<sigma> i) pid acct currencies cs"
    if "is_addr acct" "\<forall>c\<in>set cs. is_addr c" for acct cs
    using getBalance_at_eq [where \<sigma> = \<sigma>, OF ctx seen \<open>k 0 \<noteq> 0\<close> that] .
  have native: "\<forall>c\<in>set [ontAddr E, ongAddr E]. is_addr c" using native_addrs_is_addr [OF env] by simp
  show ?thesis
    unfolding AccountBalance_at_def AccountBalance_def
    using bal [OF addr_base58_is_addr [OF env] native] bal [OF addr_base58_is_addr [OF env]] addr_hex_is_addr [OF env]
    by (auto split: option.split sum.split)
qed

lemma Block_at_eq:
  assumes ctx: "indexing E L MutHash B C toks ch con"
    and seen: "mono k" "mono n" "\<And>i. seen E L MutHash C toks ch con (k i) (n i) (\<sigma> i)" and "k 0 \<noteq> 0"
  shows "\<exists>i\<le>2. Block_at E B C offline \<sigma> pid = Block E B C offline (\<sigma> i) pid"
proof -
  obtain i where i: "i \<le> 2" "\<And>w. getBlockInfo_at E B C \<sigma> pid w = getBlockInfo E B C (\<sigma> i) pid w"
    "\<And>w info. getBlockInfo E B C (\<sigma> i) pid w = Ok info \<Longrightarrow> unat (info_height info) < n i"
    using getBlockInfo_at_eq [where \<sigma> = \<sigma> and pid = pid, OF ctx seen \<open>k 0 \<noteq> 0\<close>] by metis
  have toks: "tokens (\<sigma> 0) = tokens (\<sigma> i)" using seen_tokens [OF seen(3)] by simp
  have parent: "getBlockInfoRaw E B C (\<sigma> 3) (id_of_height (info_height info - 1)) False =
      getBlockInfoRaw E B C (\<sigma> i) (id_of_height (info_height info - 1)) False"
    if "getBlockInfo E B C (\<sigma> i) pid True = Ok info" "info_height info > 0" for info
  proof -
    have "unat (info_height info - 1) < n i"
      using i(3) [OF that(1)] that(2) by (simp add: unat_minus_one word_gt_0)
    moreover have "n i \<le> n 3" using monoD [OF seen(2)] i(1) by simp
    ultimately show ?thesis by (intro raw_stable(1) [OF ctx seen(3) seen(3)]) simp_all
  qed
  have "Block_at E B C offline \<sigma> pid = Block E B C offline (\<sigma> i) pid"
  proof (cases "getBlockInfo E B C (\<sigma> i) pid True")
    case (Ok info)
    then show ?thesis
      using i(2) parent [OF Ok] transformTransaction_tokens [OF toks, of E]
      by (simp add: Block_at_def Block_def)
  qed (use i(2) in \<open>simp_all add: Block_at_def Block_def\<close>)
  then show ?thesis using i(1) by blast
qed

lemma find_transaction_tokens:
  assumes "tokens t = tokens s"
  shows "find_transaction E t hash txs = find_transaction E s hash txs"
  by (induction txs) (simp_all add: transformTransaction_tokens [OF assms])

lemma BlockTransaction_at_eq:
  assumes ctx: "indexing E L MutHash B C toks ch con"
    and seen: "mono k" "mono n" "\<And>i. seen E L MutHash C toks ch con (k i) (n i) (\<sigma> i)" and "k 0 \<noteq> 0"
  shows "\<exists>i\<le>2. BlockTransaction_at E B C offline \<sigma> bid txid = BlockTransaction E B C offline (\<sigma> i) bid txid"
proof -
  let ?pid = "Some \<lparr>pbi_index = Some (bi_index (the bid)), pbi_hash = Some (bi_hash (the bid))\<rparr>"
  obtain i where i: "i \<le> 2" "\<And>w. getBlockInfo_at E B C \<sigma> ?pid w = getBlockInfo E B C (\<sigma> i) ?pid w"
    using getBlockInfo_at_eq [where \<sigma> = \<sigma> and pid = ?pid, OF ctx seen \<open>k 0 \<noteq> 0\<close>] by metis
  have toks: "tokens (\<sigma> 0) = tokens (\<sigma> i)" using seen_tokens [OF seen(3)] by simp
  have "BlockTransaction_at E B C offline \<sigma> bid txid = BlockTransaction E B C offline (\<sigma> i) bid txid"
    using i(2) find_transaction_tokens [OF toks]
    by (cases bid) (auto simp: BlockTransaction_at_def BlockTransaction_def split: option.split sum.split)
  then show ?thesis using i(1) by blast
qed

lemma running_reads:
  assumes "badger_ok B con" "env_ok E" "evm_ok L" "codec_ok C" "chain_ok MutHash ch"
    and "\<forall>t\<in>set oep4. is_addr (tk_contract t)" "con d0 = Map.empty"
    and "NewStore E B (Inr d0) oep4 False current = Ok s0"
    and "(server_step E L MutHash B C (serves E L (make_tokens E oep4) ch) oep4)\<^sup>*\<^sup>* s0 s"
    and "reads E L MutHash B C (serves E L (make_tokens E oep4) ch) s \<sigma>"
  obtains k n where "indexing E L MutHash B C (make_tokens E oep4) ch con" "mono k" "mono n"
    "\<And>i. seen E L MutHash C (make_tokens E oep4) ch con (k i) (n i) (\<sigma> i)"
    "heightIndexed s \<noteq> None \<Longrightarrow> k 0 \<noteq> 0" "\<And>i. heightSynced (\<sigma> i) \<noteq> None"
    "\<And>i h. heightIndexed s = Some i \<Longrightarrow> uint h \<le> i \<Longrightarrow> unat (h :: u32) < k 0"
proof -
  have toks: "toks_ok (make_tokens E oep4)" using toks_ok_make_tokens assms(2,6) .
  then have ctx: "indexing E L MutHash B C (make_tokens E oep4) ch con" using assms by (simp add: indexing_def)
  obtain m where m: "synced E L MutHash C (make_tokens E oep4) ch con m s"
    using server_steps_synced [OF assms(1-3) toks assms(4,5,9) NewStore_synced [OF assms(1,7,8)]] by blast
  have "heightSynced s0 \<noteq> None" using assms(8) by (auto simp: NewStore_def Let_def split: res.splits berr.splits)
  then have target: "heightSynced (\<sigma> i) \<noteq> None" for i
    using server_steps_target [OF assms(9)] reads_target [OF assms(10)] by blast
  obtain k n where kn: "mono k" "mono n" "\<And>i. seen E L MutHash C (make_tokens E oep4) ch con (k i) (n i) (\<sigma> i)" "m \<le> k 0"
    using reads_seen [OF ctx assms(10) m] by metis
  moreover have "k 0 \<noteq> 0" if "heightIndexed s \<noteq> None"
    using m kn(4) that by (cases "m = 0") (simp_all add: synced_def)
  moreover have "unat h < k 0" if "heightIndexed s = Some i" "uint h \<le> i" for i and h :: u32
    using synced_heights [OF m that] kn(4) by simp
  ultimately show thesis using target by (intro that [OF ctx])
qed

text \<open>A block that is published is served as if nothing had been committed after it.\<close>

lemma seen_Block:
  assumes ctx: "indexing E L MutHash B C toks ch con" and seen: "seen E L MutHash C toks ch con k n s"
    and h: "unat (h :: u32) < k" "pid = Some \<lparr>pbi_index = Some (uint h), pbi_hash = None\<rparr>"
  shows "Block E B C False s pid = Block E B C False (s\<lparr>heightIndexed := heights_of n\<rparr>) pid"
proof -
  let ?t = "s\<lparr>heightIndexed := heights_of n\<rparr>"
  have k: "k \<noteq> 0" "n \<noteq> 0" "k \<le> n" using h(1) seen by (auto simp: seen_def)
  have "\<not> getHeight s < h" using seen_height(1) [OF seen k(1)] h(1) by (simp add: word_less_nat_alt)
  moreover have "unat (getHeight ?t) = n - 1"
    using synced_next_height(2) [OF seen_raw_synced [OF seen] k(2)] .
  then have "\<not> getHeight ?t < h" using h(1) k(3) by (simp add: word_less_nat_alt)
  moreover have "getBlockID E ?t pid True = getBlockID E s pid True"
    by (simp add: h(2) getBlockID_def no_block_selected_def)
  moreover have "bid_height ident = h" if "getBlockID E s pid True = Ok ident" for ident
    using that by (auto simp: h(2) getBlockID_def no_block_selected_def empty_id_def split: if_splits)
  ultimately have "getBlockInfo E B C ?t pid True = getBlockInfo E B C s pid True"
    by (cases "getBlockID E s pid True") (simp_all add: getBlockInfo_def)
  then show ?thesis
    using transformTransaction_tokens [of ?t s E] by (simp add: Block_def cong: if_cong)
qed

section \<open>Properties\<close>

text \<open>C6: requests beside the indexer. A request reads the heights and the database at several
  moments, and between them the indexer may commit and publish any number of blocks. Once a
  block is indexed, the answers of \<^verbatim>\<open>/account/balance\<close>, \<^verbatim>\<open>/block\<close> and \<^verbatim>\<open>/block/transaction\<close> are those of a
  request that runs alone at one of its first three reads: no answer mixes two states,
  and none is a panic. The rounds are those that \<open>serves\<close> admits.\<close>

theorem requests_beside_indexer:
  assumes "badger_ok B con" "env_ok E" "evm_ok L" "codec_ok C" "chain_ok MutHash ch"
    and "\<forall>t\<in>set oep4. is_addr (tk_contract t)" "con d0 = Map.empty"
    and "NewStore E B (Inr d0) oep4 False current = Ok s0"
    and "(server_step E L MutHash B C (serves E L (make_tokens E oep4) ch) oep4)\<^sup>*\<^sup>* s0 s"
    and "reads E L MutHash B C (serves E L (make_tokens E oep4) ch) s \<sigma>" "heightIndexed s \<noteq> None"
  shows "(\<exists>i\<le>2. AccountBalance_at E B C offline \<sigma> account pid currencies =
      AccountBalance E B C offline (\<sigma> i) account pid currencies) \<and>
    (\<exists>i\<le>2. Block_at E B C offline \<sigma> pid = Block E B C offline (\<sigma> i) pid) \<and>
    (\<exists>i\<le>2. BlockTransaction_at E B C offline \<sigma> bid txid = BlockTransaction E B C offline (\<sigma> i) bid txid) \<and>
    AccountBalance_at E B C offline \<sigma> account pid currencies \<noteq> Panic \<and>
    Block_at E B C offline \<sigma> pid \<noteq> Panic \<and> BlockTransaction_at E B C offline \<sigma> bid txid \<noteq> Panic"
proof -
  obtain k n where r: "indexing E L MutHash B C (make_tokens E oep4) ch con" "mono k" "mono n"
    "\<And>i. seen E L MutHash C (make_tokens E oep4) ch con (k i) (n i) (\<sigma> i)" "k 0 \<noteq> 0"
    using running_reads [OF assms(1-10)] assms(11) by metis
  show ?thesis
    using AccountBalance_at_eq [where \<sigma> = \<sigma>, OF r] Block_at_eq [where \<sigma> = \<sigma>, OF r] BlockTransaction_at_eq [where \<sigma> = \<sigma>, OF r]
      seen_no_panic [OF r(1,4)] by metis
qed

text \<open>The indexer commits the first block of the example chain, for the first or the second time.\<close>

lemma commit0:
  assumes "synced env0 evm0 mut_hash0 codec1 (native_tokens env0) chain0 map_of n s" "n \<le> 1"
  obtains t where "live_step env0 evm0 mut_hash0 mem_badger codec1 (serves env0 evm0 (native_tokens env0) chain0)
      (s, None, 0) (s\<lparr>st_db := st_db t\<rparr>, Some t, 0)"
    "synced env0 evm0 mut_hash0 codec1 (native_tokens env0) chain0 map_of 1 t"
proof -
  let ?src = "ch_block chain0 0"
  have toks: "toks_ok (native_tokens env0)" using toks_ok_make_tokens [of env0 "[]"] by simp
  obtain x where node: "nd_block node0 0 = Inr (Some ?src)" "nd_events node0 0 = ch_events chain0 0"
    "block_data env0 evm0 (native_tokens env0) ?src (ch_events chain0 0) = Ok x"
    "\<And>s state. bs_block state = stored_block env0 evm0 (native_tokens env0) chain0 0 \<Longrightarrow>
       \<exists>s'. setBlock mem_badger codec1 s state = Ok s'"
    using healthy_node0 word_zero_le [of "nd_latest node0"] unfolding healthy_def by blast
  obtain state where state: "index_block env0 evm0 mut_hash0 (native_tokens env0) (nd_exiting node0 0) 0 (nd_latest node0) ?src
      (nd_events node0 0) (nd_order node0 0) = Ok state"
    "bs_block state = stored_block env0 evm0 (native_tokens env0) chain0 0"
    using index_block_Ok [OF node(3)] node(2,3) unfolding index_block_served [OF serves_node0 word_zero_le node(1)]
    by (metis stored_block_def data_at_def res.sel(1))
  obtain t where t: "setBlock mem_badger codec1 s state = Ok t" using node(4) state(2) by blast
  have s: "tokens s = native_tokens env0" "n = unat (0 :: u32) \<or> n = Suc (unat (0 :: u32))"
    using assms by (auto simp: synced_def)
  have "synced env0 evm0 mut_hash0 codec1 (native_tokens env0) chain0 map_of 1 t"
    using synced_step [OF badger_ok_mem env_ok_env0 evm_ok_evm0 toks codec_ok_codec1 chain_ok_chain0
      serves_node0 assms(1) s(2) _ node(1) state(1) t] by simp
  moreover have "0 \<le> nd_latest node0" by simp
  ultimately show thesis
    using live_step.commit [where nds = "serves env0 evm0 (native_tokens env0) chain0", OF serves_node0 _ node(1) _ t]
      state(1) s(1) by (intro that [of t]) simp_all
qed

theorem requests_beside_indexer_witness:
  "\<exists>s \<sigma>. (server_step env0 evm0 mut_hash0 mem_badger codec1 (serves env0 evm0 (make_tokens env0 []) chain0) [])\<^sup>*\<^sup>* store1 s \<and>
    reads env0 evm0 mut_hash0 mem_badger codec1 (serves env0 evm0 (make_tokens env0 []) chain0) s \<sigma> \<and>
    (\<exists>i\<le>2. AccountBalance_at env0 mem_badger codec1 False \<sigma> (Some \<lparr>ai_address = ToBase58 env0 alice, ai_sub_account = None\<rparr>) None [] =
      AccountBalance env0 mem_badger codec1 False (\<sigma> i) (Some \<lparr>ai_address = ToBase58 env0 alice, ai_sub_account = None\<rparr>) None [])"
proof (rule chain0_indexed)
  fix s
  assume s: "(server_step env0 evm0 mut_hash0 mem_badger codec1 (serves env0 evm0 (native_tokens env0) chain0) [])\<^sup>*\<^sup>* store1 s"
    "synced env0 evm0 mut_hash0 codec1 (native_tokens env0) chain0 map_of 1 s"
  let ?step = "live_step env0 evm0 mut_hash0 mem_badger codec1 (serves env0 evm0 (native_tokens env0) chain0)"
  have i: "heightIndexed s = Some 0" using s(2) by (simp add: synced_def)
  then have h: "next_height s = 0" by (simp add: next_height_def getHeight_def)
  obtain t where t: "?step (s, None, 0) (s\<lparr>st_db := st_db t\<rparr>, Some t, 0)" using commit0 [OF s(2)] by auto
  define v where "v i = (if i = (0 :: nat) then (s, None, 0) else (s\<lparr>st_db := st_db t\<rparr>, Some t, 0 :: u32))" for i
  have "?step\<^sup>*\<^sup>* (s, None, next_height s) (v 0)" "\<And>i. ?step\<^sup>*\<^sup>* (v i) (v (Suc i))"
    using t h by (auto simp: v_def)
  then have r: "reads env0 evm0 mut_hash0 mem_badger codec1 (serves env0 evm0 (native_tokens env0) chain0) s (\<lambda>i. fst (v i))"
    unfolding reads_def by blast
  show ?thesis
    using requests_beside_indexer [OF badger_ok_mem env_ok_env0 evm_ok_evm0 codec_ok_codec1 chain_ok_chain0 _ _ store1_opened,
        of s "\<lambda>i. fst (v i)" False "Some \<lparr>ai_address = ToBase58 env0 alice, ai_sub_account = None\<rparr>" None "[]"] s(1) r i
    by (intro exI [of _ s] exI [of _ "\<lambda>i. fst (v i)"]) simp
qed

text \<open>C18: \<^verbatim>\<open>/network/status\<close> beside the indexer, in rounds that \<open>serves\<close> admits. The answer's current block is never above the height in
  its sync status. An online request that finds a block committed panics exactly when the server has
  no P2P server (\<open>None\<close>: a solo network), or, a nil dereference in \<^verbatim>\<open>syncStatus\<close>, when that block was the
  very first one and its heights were not published when the request read the status.\<close>

theorem NetworkStatus_beside_indexer:
  assumes "badger_ok B con" "env_ok E" "evm_ok L" "codec_ok C" "chain_ok MutHash ch"
    and "\<forall>t\<in>set oep4. is_addr (tk_contract t)" "con d0 = Map.empty"
    and "NewStore E B (Inr d0) oep4 False current = Ok s0"
    and "(server_step E L MutHash B C (serves E L (make_tokens E oep4) ch) oep4)\<^sup>*\<^sup>* s0 s"
    and "reads E L MutHash B C (serves E L (make_tokens E oep4) ch) s \<sigma>"
  shows "(NetworkStatus_at E B C offline \<sigma> node = Panic \<longleftrightarrow>
      \<not> offline \<and> con (st_db (\<sigma> 1)) heightKey \<noteq> None \<and> (node = None \<or> heightIndexed (\<sigma> 3) = None)) \<and>
    (\<forall>r. NetworkStatus_at E B C offline \<sigma> node = Ok r \<longrightarrow>
      (\<exists>i. ss_current (ns_sync r) = Some i \<and> bi_index (ns_current r) \<le> i))"
proof (cases offline)
  case False
  let ?toks = "make_tokens E oep4"
  obtain k n where r: "indexing E L MutHash B C ?toks ch con" "mono k" "mono n"
    "\<And>i. seen E L MutHash C ?toks ch con (k i) (n i) (\<sigma> i)" "\<And>i. heightSynced (\<sigma> i) \<noteq> None"
    using running_reads [OF assms] by metis
  note synced = seen_raw_synced [OF r(4)]
  note raw = raw_synced(1) [OF assms(1,5) synced, unfolded raw_heights]
  have le: "k 0 \<le> k 3" "n 0 \<le> n 1" "n 1 \<le> n 2" using r(2,3) by (auto intro: monoD)
  have first: "con (st_db (\<sigma> 1)) heightKey \<noteq> None \<longleftrightarrow> n 1 \<noteq> 0"
    using synced [of 1] by (auto simp: synced_def)
  have unread: "heightIndexed (\<sigma> i) = heights_of (k i)" "k i \<le> n i" for i using r(4) [of i] by (simp_all add: seen_def)
  have height: "unat (getHeight (\<sigma> 0)) = k 0 - 1"
    using seen_height(1) [OF r(4) [of 0]] unread(1) [of 0] by (cases "k 0 = 0") (simp_all add: getHeight_def heights_of_def)
  have known: "unat (getHeight (\<sigma> 0)) < n 1 \<longleftrightarrow> n 1 \<noteq> 0" using height unread(2) [of 0] le by auto
  have genesis: "unat (0 :: u32) < n 2" if "n 1 \<noteq> 0" using that le by simp
  have status: "syncStatus (\<sigma> 3) = (if k 3 = 0 then Panic
      else Ok \<lparr>ss_current = Some (int (k 3) - 1), ss_synced = (int (k 3) - 1 = the (heightSynced (\<sigma> 3))),
        ss_target = heightSynced (\<sigma> 3)\<rparr>)"
    using r(5) [of 3] by (auto simp: syncStatus_def unread heights_of_def)
  have "uint (getHeight (\<sigma> 0)) \<le> int (k 3) - 1" if "k 3 \<noteq> 0"
    using height le that by (simp add: uint_nat)
  then show ?thesis
    using False raw [of 1 "getHeight (\<sigma> 0)" True] raw [of 2 0 False] genesis known first
    by (cases "n 1 = 0"; cases "k 3 = 0"; cases node)
      (simp_all add: NetworkStatus_at_def status unread(1) heights_of_def info_of_def)
qed (simp add: NetworkStatus_at_def)

text \<open>The race happens: the request reads between the commit and the publication of block 0.\<close>

theorem NetworkStatus_beside_indexer_witness:
  "\<exists>\<sigma>. reads env0 evm0 mut_hash0 mem_badger codec1 (serves env0 evm0 (make_tokens env0 []) chain0) store1 \<sigma> \<and>
    NetworkStatus_at env0 mem_badger codec1 False \<sigma> (Some [''peer'']) = Panic"
proof -
  let ?step = "live_step env0 evm0 mut_hash0 mem_badger codec1 (serves env0 evm0 (native_tokens env0) chain0)"
  have s1: "synced env0 evm0 mut_hash0 codec1 (native_tokens env0) chain0 map_of 0 store1"
    using NewStore_synced [OF badger_ok_mem _ store1_opened] by simp
  have h: "next_height store1 = 0" "heightIndexed store1 = None" by (simp_all add: next_height_def getHeight_def store1_def)
  obtain t where t: "?step (store1, None, 0) (store1\<lparr>st_db := st_db t\<rparr>, Some t, 0)"
    "synced env0 evm0 mut_hash0 codec1 (native_tokens env0) chain0 map_of 1 t"
    using commit0 [OF s1] by auto
  let ?v = "(store1\<lparr>st_db := st_db t\<rparr>, Some t, 0 :: u32)"
  let ?s = "\<lambda>i :: nat. store1\<lparr>st_db := st_db t\<rparr>"
  have "?step\<^sup>*\<^sup>* (store1, None, next_height store1) ?v" using t(1) h by auto
  then have r: "reads env0 evm0 mut_hash0 mem_badger codec1 (serves env0 evm0 (native_tokens env0) chain0) store1 ?s"
    unfolding reads_def by (intro exI [of _ "\<lambda>i. ?v"]) simp
  have "map_of (st_db t) heightKey \<noteq> None" using t(2) by (simp add: synced_def)
  then show ?thesis
    using NetworkStatus_beside_indexer [OF badger_ok_mem env_ok_env0 evm_ok_evm0 codec_ok_codec1 chain_ok_chain0 _ _ store1_opened,
        of store1 ?s False "Some [''peer'']"] r h
    by (intro exI [of _ ?s]) simp
qed

end
