(* ===== verification/Startup.thy ===== *)
theory Startup
  imports Server_Config
begin

text \<open>
  The start of the process (src/main.go, from \<^verbatim>\<open>run\<close> on) as the sequence of what it does: what it opens,
  which exit handlers it registers and which goroutines it starts, up to the call that ends it
  or to the loop it stays in. The answers of the calls that belong to other packages (the node's
  configuration, the ledger, the transaction pool, the P2P server, badger, the HTTP router)
  are the fields of \<open>host\<close>. \<^verbatim>\<open>log.Fatalf\<close> exits, so no code after it runs (no exit is under way
  during the start, but for a signal, which is the subject of Interrupts); the exit itself is the step
  relation of Server_Config on the handlers registered so far.
\<close>

section \<open>Traces\<close>

datatype resource = Ledger | Data_store

text \<open>The options of \<^verbatim>\<open>IndexBlocks\<close>; the channel \<^verbatim>\<open>Done\<close> is there or nil.\<close>

record indexConfig =
  ic_Done :: bool
  ic_ExitEarly :: bool
  ic_WaitTime :: int  \<comment> \<open>nanoseconds\<close>

text \<open>The variables of other packages, and of this one, that the start assigns.\<close>

datatype setting =
    Disable_log_file bool
  | Nodelog_path string
  | Blockheight_add_decimals_mainnet int
  | Def_ledger
  | Disable_sync_verify_tx bool
  | Txn_pool_pid
  | Tx_pool_service
  | Txpool_network
  | Net_server

datatype action =
    Set_global setting
  | Init_log int
  | Init_eventbus "string option"
  | Init_node_log int "string option"  \<comment> \<open>to standard output, or also to files in a directory\<close>
  | Raise_open_files nat
  | Log_error string string
  | Init_events
  | Open resource
  | Set_handler handler
  | Start_txpool bool bool  \<comment> \<open>without pre-execution, without broadcast\<close>
  | Start_p2p
  | Wait_for_peers
  | Run_indexer indexConfig
  | Validate_index
  | Go_indexer indexConfig
  | Go_serve u32

text \<open>What a function of main.go did, and how it ended: with a value, in \<^verbatim>\<open>log.Fatalf\<close>, or in a panic.\<close>

type_synonym 'a traced = "action list \<times> (fatal, 'a) res"

definition return_traced :: "'a \<Rightarrow> 'a traced" where
  "return_traced a = ([], Ok a)"

definition do_action :: "action \<Rightarrow> unit traced" where
  "do_action x = ([x], Ok ())"

definition lift_res :: "(fatal, 'a) res \<Rightarrow> 'a traced" where
  "lift_res r = ([], r)"

text \<open>A call that may fail, with the message of the \<^verbatim>\<open>log.Fatalf\<close> that follows then.\<close>

definition must :: "(string \<Rightarrow> fatal) \<Rightarrow> string option \<Rightarrow> unit traced" where
  "must failed result = ([], (case result of None \<Rightarrow> Ok () | Some err \<Rightarrow> Err (failed err)))"

definition bind_traced :: "'a traced \<Rightarrow> ('a \<Rightarrow> 'b traced) \<Rightarrow> 'b traced" where
  "bind_traced m f =
     (case m of (xs, r) \<Rightarrow>
        (case r of
           Ok a \<Rightarrow> (case f a of (ys, r') \<Rightarrow> (xs @ ys, r'))
         | Err err \<Rightarrow> (xs, Err err)
         | Panic \<Rightarrow> (xs, Panic)))"

definition then_traced :: "unit traced \<Rightarrow> 'b traced \<Rightarrow> 'b traced" where
  "then_traced m n = bind_traced m (\<lambda>_. n)"

lemma bind_traced_simps [simp]:
  "bind_traced (xs, Ok a) f = (xs @ fst (f a), snd (f a))"
  "bind_traced (xs, Err err) f = (xs, Err err)"
  "bind_traced (xs, Panic) f = (xs, Panic)"
  by (simp_all add: bind_traced_def split: prod.split)

section \<open>The functions of main.go\<close>

text \<open>The command line flags and what the calls into other packages answer.\<close>

record 'db host =
  h_validate_store :: bool
  h_offline :: bool
  h_disable_log_file :: bool
  h_log_level :: int
  h_log_dir :: string  \<comment> \<open>cleaned by \<^verbatim>\<open>filepath.Join\<close>\<close>
  h_max_files :: "string + nat"  \<comment> \<open>\<^verbatim>\<open>fdlimit.Maximum\<close>\<close>
  h_raise_files :: "string option"  \<comment> \<open>\<^verbatim>\<open>fdlimit.Raise\<close>, and below: the error of the call, if any\<close>
  h_disable_pre_exec :: bool
  h_disable_sync_verify :: bool
  h_disable_broadcast :: bool
  h_node_config :: "string option"
  h_config_file :: "string + (string + bytes)"
  h_unmarshal :: "bytes \<Rightarrow> string + serverConfig"
  h_bookkeepers :: "string option"
  h_genesis_block :: "string option"
  h_init_ledger :: "string option"
  h_start_txpool :: "string option"
  h_solo :: bool  \<comment> \<open>\<^verbatim>\<open>CONSENSUS_TYPE_SOLO\<close>\<close>
  h_new_p2p :: "string option"
  h_start_p2p :: "string option"
  h_badger_open :: "string + 'db"
  h_current_height :: u32
  h_net_names :: "string \<times> string \<times> string"  \<comment> \<open>the node's names of the main, test and solo network\<close>
  h_network :: string
  h_asserter :: "string option"

definition initLog :: "'db host \<Rightarrow> unit traced" where
  "initLog H =
     (let dir = h_log_dir H @ ''/'';
          target = (if h_disable_log_file H then None else Some dir)
      in then_traced (do_action (Set_global (Disable_log_file (h_disable_log_file H))))
        (then_traced (do_action (Init_log (h_log_level H)))
        (then_traced (do_action (Init_eventbus target))
        (then_traced (if h_disable_log_file H then return_traced () else do_action (Set_global (Nodelog_path dir)))
                     (do_action (Init_node_log (h_log_level H) target))))))"

definition setMaxOpenFiles :: "'db host \<Rightarrow> unit traced" where
  "setMaxOpenFiles H =
     (case h_max_files H of
        Inl err \<Rightarrow> do_action (Log_error ''Failed to get fdlimit: %s'' err)
      | Inr n \<Rightarrow>
          (case h_raise_files H of
             Some err \<Rightarrow> do_action (Log_error ''Failed to raise fdlimit: %s'' err)
           | None \<Rightarrow> do_action (Raise_open_files n)))"

definition initNodeConfig :: "'db host \<Rightarrow> unit traced" where
  "initNodeConfig H = must Failed_node_config (h_node_config H)"

definition log_if :: "string \<Rightarrow> string option \<Rightarrow> unit traced" where
  "log_if msg result = (case result of None \<Rightarrow> return_traced () | Some err \<Rightarrow> do_action (Log_error msg err))"

text \<open>The first two errors are only logged.\<close>

definition initLedger :: "'db host \<Rightarrow> unit traced" where
  "initLedger H =
     then_traced (do_action Init_events)
    (then_traced (do_action (Set_global (Blockheight_add_decimals_mainnet 0)))
    (then_traced (log_if ''GetBookkeepers error: %s'' (h_bookkeepers H))
    (then_traced (log_if ''genesisBlock error %s'' (h_genesis_block H))
    (then_traced (must Failed_to_open_ledger (h_init_ledger H))
    (then_traced (do_action (Open Ledger))
    (then_traced (do_action (Set_handler Close_ledger))
                 (do_action (Set_global Def_ledger))))))))"

definition initTxPool :: "'db host \<Rightarrow> unit traced" where
  "initTxPool H =
     then_traced (do_action (Set_global (Disable_sync_verify_tx (h_disable_sync_verify H))))
    (then_traced (must Txpool_error (h_start_txpool H))
    (then_traced (do_action (Start_txpool (h_disable_pre_exec H) (h_disable_broadcast H)))
    (then_traced (do_action (Set_global Txn_pool_pid))
                 (do_action (Set_global Tx_pool_service)))))"

definition initP2PNode :: "'db host \<Rightarrow> unit traced" where
  "initP2PNode H =
     (if h_solo H then return_traced ()
      else
        then_traced (must Failed_p2p_server (h_new_p2p H))
       (then_traced (must P2p_start_error (h_start_p2p H))
       (then_traced (do_action Start_p2p)
       (then_traced (do_action (Set_global Txpool_network))
       (then_traced (do_action (Set_global Net_server))
                    (do_action Wait_for_peers))))))"

text \<open>\<^verbatim>\<open>badger.Open\<close> comes first in \<^verbatim>\<open>NewStore\<close>; what fails after it leaves the database open.\<close>

definition open_store ::
  "env \<Rightarrow> 'db badger \<Rightarrow> 'db host \<Rightarrow> serverConfig \<Rightarrow> bool \<Rightarrow> 'db store traced" where
  "open_store E B H scfg offline =
     then_traced (if isl (h_badger_open H) then return_traced () else do_action (Open Data_store))
                 (lift_res (initStore E B (h_badger_open H) scfg offline (h_current_height H)))"

text \<open>The goroutine of the HTTP server is the last thing that starts.\<close>

definition serve_http :: "serverConfig \<Rightarrow> unit traced" where
  "serve_http scfg =
     then_traced (do_action (Set_handler Shutdown_http)) (do_action (Go_serve (Port scfg)))"

text \<open>
  \<^verbatim>\<open>Router\<close> of src/services/services.go: the endpoints as methods of one service, on the one network
  that \<^verbatim>\<open>/network/list\<close> answers with. Only \<^verbatim>\<open>asserter.NewServer\<close> can fail.
\<close>

record network_identifier =
  ni_Blockchain :: string
  ni_Network :: string

record 'db service =
  sv_networks :: "network_identifier list"
  sv_offline :: bool
  sv_store :: "'db store"

definition host_networks :: "'db host \<Rightarrow> network_identifier list" where
  "host_networks H =
     (case h_net_names H of (main_net, polaris_net, solo_net) \<Rightarrow>
        [\<lparr>ni_Blockchain = ''ontology'', ni_Network = networkName main_net polaris_net solo_net (h_network H)\<rparr>])"

definition Router :: "'db host \<Rightarrow> 'db store \<Rightarrow> bool \<Rightarrow> (go_error, 'db service) res" where
  "Router H store offline =
     (case h_asserter H of
        Some err \<Rightarrow> Err (Errorf ''services: failed to instantiate the Rosetta asserter: %w'' [ArgErr (ExtError err)])
      | None \<Rightarrow> Ok \<lparr>sv_networks = host_networks H, sv_offline = offline, sv_store = store\<rparr>)"

definition NetworkList :: "'db service \<Rightarrow> network_identifier list" where
  "NetworkList sv = sv_networks sv"

definition initServer ::
  "env \<Rightarrow> 'db badger \<Rightarrow> 'db host \<Rightarrow> serverConfig \<Rightarrow> bool \<Rightarrow> 'db store traced" where
  "initServer E B H scfg offline =
     bind_traced (open_store E B H scfg offline) (\<lambda>store.
       then_traced (do_action (Set_handler (if offline then Close_store else Wait_and_close_store)))
      (then_traced
         (if offline then return_traced ()
          else then_traced (do_action (Go_indexer \<lparr>ic_Done = True, ic_ExitEarly = False, ic_WaitTime = waitTime scfg\<rparr>)) (do_action (Set_handler Cancel_indexer)))
      (then_traced (lift_res (case Router H store offline of Ok sv \<Rightarrow> Ok () | Err err \<Rightarrow> Err (Failed_router err) | Panic \<Rightarrow> Panic))
      (then_traced (serve_http scfg) (return_traced store)))))"

definition runOffline :: "env \<Rightarrow> 'db badger \<Rightarrow> 'db host \<Rightarrow> serverConfig \<Rightarrow> 'db store traced" where
  "runOffline E B H scfg = initServer E B H scfg True"

definition runOnline :: "env \<Rightarrow> 'db badger \<Rightarrow> 'db host \<Rightarrow> serverConfig \<Rightarrow> 'db store traced" where
  "runOnline E B H scfg =
     then_traced (initLedger H) (then_traced (initTxPool H) (then_traced (initP2PNode H) (initServer E B H scfg False)))"

text \<open>The indexer and the validation run here in the main goroutine (theories Indexer and Validate).\<close>

definition runValidateStore :: "env \<Rightarrow> 'db badger \<Rightarrow> 'db host \<Rightarrow> serverConfig \<Rightarrow> 'db store traced" where
  "runValidateStore E B H scfg =
     then_traced (initLedger H)
    (bind_traced (open_store E B H scfg False) (\<lambda>store.
       then_traced (do_action (Run_indexer \<lparr>ic_Done = False, ic_ExitEarly = True, ic_WaitTime = waitTime scfg\<rparr>))
      (then_traced (do_action Validate_index) (return_traced store))))"

definition host_mode :: "'db host \<Rightarrow> mode" where
  "host_mode H = run_mode (h_validate_store H) (h_offline H)"

definition run :: "env \<Rightarrow> 'db badger \<Rightarrow> 'db host \<Rightarrow> 'db store traced" where
  "run E B H =
     then_traced (initLog H)
    (then_traced (setMaxOpenFiles H)
    (then_traced (initNodeConfig H)
    (bind_traced (lift_res (initServerConfig E (h_config_file H) (h_unmarshal H))) (\<lambda>scfg.
       (case host_mode H of
          Validate_store \<Rightarrow> runValidateStore E B H scfg
        | Offline \<Rightarrow> runOffline E B H scfg
        | Online \<Rightarrow> runOnline E B H scfg)))))"

section \<open>What a start leaves behind\<close>

text \<open>The handlers a trace registers and the resources it opens, each in order.\<close>

definition handlers_of :: "action list \<Rightarrow> handler list" where
  "handlers_of tr = concat (map (\<lambda>x. case x of Set_handler h \<Rightarrow> [h] | _ \<Rightarrow> []) tr)"

definition opened_of :: "action list \<Rightarrow> resource list" where
  "opened_of tr = concat (map (\<lambda>x. case x of Open r \<Rightarrow> [r] | _ \<Rightarrow> []) tr)"

fun closes :: "handler \<Rightarrow> resource list" where
  "closes Close_ledger = [Ledger]"
| "closes Wait_and_close_store = [Data_store]"
| "closes Close_store = [Data_store]"
| "closes _ = []"

text \<open>An exit closes what the trace opened, all of it and in the reverse order.\<close>

definition releases :: "action list \<Rightarrow> bool" where
  "releases tr \<longleftrightarrow> concat (map closes (rev (handlers_of tr))) = rev (opened_of tr)"

text \<open>The abstraction of a start to its handlers, resources and result.\<close>

definition summary :: "'a traced \<Rightarrow> handler list \<times> resource list \<times> (fatal, 'a) res" where
  "summary m = (handlers_of (fst m), opened_of (fst m), snd m)"

named_theorems summaries

lemma summary_bind [summaries]:
  "summary (bind_traced m f) =
     (case summary m of (hs, os, r) \<Rightarrow>
        (case r of
           Ok a \<Rightarrow> (case summary (f a) of (hs', os', r') \<Rightarrow> (hs @ hs', os @ os', r'))
         | Err err \<Rightarrow> (hs, os, Err err)
         | Panic \<Rightarrow> (hs, os, Panic)))"
  by (cases m; cases "snd m") (simp_all add: summary_def handlers_of_def opened_of_def)

lemma summary_basic [summaries]:
  "summary (return_traced a) = ([], [], Ok a)"
  "summary (lift_res r) = ([], [], r)"
  "summary (must failed result) = ([], [], (case result of None \<Rightarrow> Ok () | Some err \<Rightarrow> Err (failed err)))"
  "summary (do_action (Set_handler h)) = ([h], [], Ok ())"
  "summary (do_action (Open x)) = ([], [x], Ok ())"
  "\<forall>h. y \<noteq> Set_handler h \<Longrightarrow> \<forall>x. y \<noteq> Open x \<Longrightarrow> summary (do_action y) = ([], [], Ok ())"
  by (simp_all add: summary_def return_traced_def lift_res_def must_def do_action_def handlers_of_def opened_of_def
      split: action.split)

lemma summary_start [summaries]:
  "summary (initLog H) = ([], [], Ok ())"
  "summary (setMaxOpenFiles H) = ([], [], Ok ())"
  "summary (log_if msg result) = ([], [], Ok ())"
  by (auto simp: initLog_def Let_def setMaxOpenFiles_def log_if_def then_traced_def summaries split: sum.split option.split)

lemma summary_initLedger [summaries]:
  "summary (initLedger H) =
     (case h_init_ledger H of
        None \<Rightarrow> ([Close_ledger], [Ledger], Ok ())
      | Some err \<Rightarrow> ([], [], Err (Failed_to_open_ledger err)))"
  by (simp add: initLedger_def then_traced_def summaries split: option.split)

lemma summary_node [summaries]:
  "summary (initTxPool H) = ([], [], (case h_start_txpool H of None \<Rightarrow> Ok () | Some err \<Rightarrow> Err (Txpool_error err)))"
  "summary (initP2PNode H) = ([], [],
     (if h_solo H then Ok ()
      else case h_new_p2p H of
         Some err \<Rightarrow> Err (Failed_p2p_server err)
       | None \<Rightarrow> (case h_start_p2p H of Some err \<Rightarrow> Err (P2p_start_error err) | None \<Rightarrow> Ok ())))"
  by (simp_all add: initTxPool_def initP2PNode_def then_traced_def summaries split: option.split)

lemma summary_open_store [summaries]:
  "summary (open_store E B H scfg offline) =
     ([], (if isl (h_badger_open H) then [] else [Data_store]),
      initStore E B (h_badger_open H) scfg offline (h_current_height H))"
  by (simp add: open_store_def then_traced_def summaries)

lemma summary_initServer [summaries]:
  "summary (initServer E B H scfg offline) =
     (case initStore E B (h_badger_open H) scfg offline (h_current_height H) of
        Ok store \<Rightarrow>
          (case Router H store offline of
             Err err \<Rightarrow> ((if offline then [Close_store] else [Wait_and_close_store, Cancel_indexer]), [Data_store],
               Err (Failed_router err))
           | _ \<Rightarrow> (initServer_handlers offline, [Data_store], Ok store))
      | Err err \<Rightarrow> ([], (if isl (h_badger_open H) then [] else [Data_store]), Err err)
      | Panic \<Rightarrow> ([], (if isl (h_badger_open H) then [] else [Data_store]), Panic))"
proof -
  have "\<not> isl (h_badger_open H)" if "initStore E B (h_badger_open H) scfg offline (h_current_height H) = Ok store" for store
    using that by (auto simp: initStore_def NewStore_def Let_def split: sum.splits)
  then show ?thesis
    by (auto simp: initServer_def serve_http_def Router_def then_traced_def summaries initServer_handlers_def
        split: res.split option.split)
qed

lemma summary_run:
  "summary (run E B H) =
     (case h_node_config H of
        Some err \<Rightarrow> ([], [], Err (Failed_node_config err))
      | None \<Rightarrow>
     (case initServerConfig E (h_config_file H) (h_unmarshal H) of
        Err err \<Rightarrow> ([], [], Err err)
      | Panic \<Rightarrow> ([], [], Panic)
      | Ok scfg \<Rightarrow>
          (case host_mode H of
             Validate_store \<Rightarrow> summary (runValidateStore E B H scfg)
           | Offline \<Rightarrow> summary (runOffline E B H scfg)
           | Online \<Rightarrow> summary (runOnline E B H scfg))))"
  by (simp add: run_def initNodeConfig_def then_traced_def summaries split: option.split res.split mode.split)

lemma summary_modes:
  "summary (runOffline E B H scfg) = summary (initServer E B H scfg True)"
  "summary (runValidateStore E B H scfg) =
     (case h_init_ledger H of
        Some err \<Rightarrow> ([], [], Err (Failed_to_open_ledger err))
      | None \<Rightarrow> ([Close_ledger], Ledger # (if isl (h_badger_open H) then [] else [Data_store]),
          initStore E B (h_badger_open H) scfg False (h_current_height H)))"
  "summary (runOnline E B H scfg) =
     (case h_init_ledger H of
        Some err \<Rightarrow> ([], [], Err (Failed_to_open_ledger err))
      | None \<Rightarrow>
     (case snd (snd (summary (initTxPool H))) of
        Ok _ \<Rightarrow>
          (case snd (snd (summary (initP2PNode H))) of
             Ok _ \<Rightarrow> (case summary (initServer E B H scfg False) of (hs, os, r) \<Rightarrow> (Close_ledger # hs, Ledger # os, r))
           | Err err \<Rightarrow> ([Close_ledger], [Ledger], Err err)
           | Panic \<Rightarrow> ([Close_ledger], [Ledger], Panic))
      | Err err \<Rightarrow> ([Close_ledger], [Ledger], Err err)
      | Panic \<Rightarrow> ([Close_ledger], [Ledger], Panic)))"
  by (simp_all add: runOffline_def runValidateStore_def runOnline_def then_traced_def summaries
      split: option.split res.split prod.split)

text \<open>Only these lists of handlers are ever registered.\<close>

lemma handlers_of_run:
  "handlers_of (fst (run E B H)) \<in>
     {[], [Close_ledger], [Close_store], [Close_ledger, Wait_and_close_store, Cancel_indexer],
      run_handlers Offline, run_handlers Online}"
proof -
  have "handlers_of (fst (run E B H)) = fst (summary (run E B H))" by (simp add: summary_def)
  then show ?thesis
    by (simp add: summary_run summary_modes summary_initServer summary_initLedger run_handlers_def
        initLedger_handlers_def initServer_handlers_def Router_def split: option.split res.split mode.split prod.split)
qed

lemma exit_from_inv:
  assumes "hs \<in> {[], [Close_ledger], [Close_store], [Close_ledger, Wait_and_close_store, Cancel_indexer],
      run_handlers Offline, run_handlers Online}"
  shows "online_inv (exit_from hs) \<or> other_inv (exit_from hs)"
  using assms
  by (auto simp: exit_from_def registered_def fatal_signal_def online_inv_def other_inv_def run_handlers_def
      initLedger_handlers_def initServer_handlers_def)

text \<open>The store of a server that has started is opened with tokens whose contracts are addresses.\<close>

lemma started_store:
  assumes "env_ok E" "unmarshal_ok (h_unmarshal H)" "initServerConfig E (h_config_file H) (h_unmarshal H) = Ok scfg"
    and "snd (run E B H) = Ok store"
  shows "NewStore E B (h_badger_open H) (sc_tokens scfg) (host_mode H = Offline) (h_current_height H) = Ok store"
    and "\<forall>t\<in>set (sc_tokens scfg). is_addr (tk_contract t)"
proof -
  have "snd (snd (summary (run E B H))) = Ok store" using assms(4) by (simp add: summary_def)
  then have "initStore E B (h_badger_open H) scfg (host_mode H = Offline) (h_current_height H) = Ok store"
    using assms(3)
    by (cases "host_mode H")
      (auto simp: summary_run summary_modes summary_initServer summary_node Router_def split: option.splits res.splits)
  then show "NewStore E B (h_badger_open H) (sc_tokens scfg) (host_mode H = Offline) (h_current_height H) = Ok store"
    by (simp add: initStore_def split: res.splits)
  show "\<forall>t\<in>set (sc_tokens scfg). is_addr (tk_contract t)"
    using config_tokens_addr [OF assms(1-3)] .
qed

section \<open>Properties\<close>

definition json1 :: serverConfig where
  "json1 = \<lparr>BlockWait = 2, OEP4Tokens = [], Port = 8080, sc_tokens = [], waitTime = 0\<rparr>"

text \<open>A host where every call succeeds, on an empty data store.\<close>

definition host0 :: "bool \<Rightarrow> bool \<Rightarrow> mem_db host" where
  "host0 validate offline =
     \<lparr>h_validate_store = validate, h_offline = offline, h_disable_log_file = True, h_log_level = 1, h_log_dir = ''Log'',
      h_max_files = Inr 4096, h_raise_files = None, h_disable_pre_exec = False, h_disable_sync_verify = False,
      h_disable_broadcast = False, h_node_config = None, h_config_file = Inr (Inr []),
      h_unmarshal = (\<lambda>data. Inr json1), h_bookkeepers = None, h_genesis_block = None, h_init_ledger = None,
      h_start_txpool = None, h_solo = False, h_new_p2p = None, h_start_p2p = None, h_badger_open = Inr [],
      h_current_height = 0, h_net_names = (''main'', ''polaris'', ''solo''), h_network = ''polaris'', h_asserter = None\<rparr>"

lemma json1_accepted:
  "initServerConfig env0 (h_config_file (host0 v off)) (h_unmarshal (host0 v off)) = Ok (json1\<lparr>waitTime := 2 * second\<rparr>)"
  by (simp add: initServerConfig_def host0_def json1_def second_def wrap64_small is_int64_def)

lemma store_host0:
  "initStore env0 mem_badger (h_badger_open (host0 v off)) (json1\<lparr>waitTime := 2 * second\<rparr>) offline 0 =
     Ok (if offline then store1\<lparr>heightSynced := None\<rparr> else store1)"
  by (simp add: initStore_def NewStore_def read_height_def mem_badger_def make_tokens_def store1_def host0_def json1_def)

text \<open>C19: whatever call of the startup fails, in whatever mode, the exit that follows completes, and
  it closes the ledger and the data store in the reverse order in which they were opened. The
  data store is the only thing that can stay open, and does so in exactly two cases: when it
  was opened by \<^verbatim>\<open>-validate-store\<close>, which registers no handler for it, and when \<^verbatim>\<open>NewStore\<close> fails after
  \<^verbatim>\<open>badger.Open\<close> has succeeded.\<close>

theorem startup_releases:
  "(releases (fst (run E B H)) \<longleftrightarrow>
      Data_store \<notin> set (opened_of (fst (run E B H))) \<or>
      host_mode H \<noteq> Validate_store \<and>
      (\<exists>scfg store. initServerConfig E (h_config_file H) (h_unmarshal H) = Ok scfg \<and>
         initStore E B (h_badger_open H) scfg (host_mode H = Offline) (h_current_height H) = Ok store)) \<and>
   (\<forall>st. (exit_step False)\<^sup>*\<^sup>* (exit_from (handlers_of (fst (run E B H)))) st \<longrightarrow>
      (\<exists>st'. (exit_step False)\<^sup>*\<^sup>* st st' \<and> todo st' = []))"
proof
  have sum: "handlers_of (fst (run E B H)) = fst (summary (run E B H))" "opened_of (fst (run E B H)) = fst (snd (summary (run E B H)))"
    by (simp_all add: summary_def)
  show "releases (fst (run E B H)) \<longleftrightarrow>
      Data_store \<notin> set (opened_of (fst (run E B H))) \<or>
      host_mode H \<noteq> Validate_store \<and>
      (\<exists>scfg store. initServerConfig E (h_config_file H) (h_unmarshal H) = Ok scfg \<and>
         initStore E B (h_badger_open H) scfg (host_mode H = Offline) (h_current_height H) = Ok store)"
    unfolding releases_def sum
    by (auto simp: summary_run summary_modes summary_initServer initServer_handlers_def Router_def
        split: option.split res.split mode.split prod.split)
  show "\<forall>st. (exit_step False)\<^sup>*\<^sup>* (exit_from (handlers_of (fst (run E B H)))) st \<longrightarrow>
      (\<exists>st'. (exit_step False)\<^sup>*\<^sup>* st st' \<and> todo st' = [])"
    using exit_from_inv [OF handlers_of_run] online.ends other.ends by blast
qed

theorem startup_releases_witness:
  "\<not> releases (fst (run env0 mem_badger (host0 True False))) \<and> releases (fst (run env0 mem_badger (host0 False False)))"
proof -
  have h: "host_mode (host0 True False) = Validate_store" "host_mode (host0 False False) = Online"
    "h_current_height (host0 False False) = 0" "isl (h_badger_open (host0 True False)) = False"
    by (simp_all add: host_mode_def run_mode_def host0_def)
  have "opened_of (fst (run env0 mem_badger (host0 True False))) = fst (snd (summary (run env0 mem_badger (host0 True False))))"
    by (simp add: summary_def)
  also have "\<dots> = [Ledger, Data_store]"
    unfolding summary_run json1_accepted h summary_modes by (simp add: host0_def)
  finally have opened: "Data_store \<in> set (opened_of (fst (run env0 mem_badger (host0 True False))))" by simp
  show ?thesis
    using startup_releases [of env0 mem_badger "host0 True False"] startup_releases [of env0 mem_badger "host0 False False"]
      opened h json1_accepted [of False False] store_host0 [of False False False]
    by simp
qed

text \<open>The start succeeds exactly when every call its mode makes succeeds: offline needs neither
  ledger nor transaction pool nor P2P server, the validation needs no router, a solo network no
  P2P server. The store is then the one that the configuration's tokens and the mode give, the
  handlers are those of the mode.\<close>

theorem run_succeeds_iff:
  "(snd (run E B H) = Ok store \<longleftrightarrow>
      h_node_config H = None \<and>
      (\<exists>scfg. initServerConfig E (h_config_file H) (h_unmarshal H) = Ok scfg \<and>
         initStore E B (h_badger_open H) scfg (host_mode H = Offline) (h_current_height H) = Ok store) \<and>
      (host_mode H = Offline \<or> h_init_ledger H = None) \<and>
      (host_mode H = Online \<longrightarrow> h_start_txpool H = None \<and>
         (h_solo H \<or> h_new_p2p H = None \<and> h_start_p2p H = None)) \<and>
      (host_mode H = Validate_store \<or> h_asserter H = None)) \<and>
   (snd (run E B H) = Ok store \<longrightarrow> handlers_of (fst (run E B H)) = run_handlers (host_mode H))"
proof -
  have sum: "handlers_of (fst (run E B H)) = fst (summary (run E B H))" "snd (run E B H) = snd (snd (summary (run E B H)))"
    by (simp_all add: summary_def)
  show ?thesis
    unfolding sum
    by (cases "host_mode H")
      (auto simp: summary_run summary_modes summary_initServer summary_node run_handlers_def
        initLedger_handlers_def Router_def split: option.splits res.splits)
qed

lemma run_host0:
  "snd (run env0 mem_badger (host0 False False)) = Ok store1"
proof -
  have h: "host_mode (host0 False False) = Online" "h_current_height (host0 False False) = 0"
    "h_node_config (host0 False False) = None" "h_init_ledger (host0 False False) = None"
    "h_start_txpool (host0 False False) = None" "h_new_p2p (host0 False False) = None"
    "h_start_p2p (host0 False False) = None" "h_asserter (host0 False False) = None"
    by (simp_all add: host_mode_def run_mode_def host0_def)
  show ?thesis
    using run_succeeds_iff [of env0 mem_badger "host0 False False" store1] json1_accepted [of False False]
      store_host0 [of False False False]
    by (simp add: h)
qed

end
