(* ===== verification/Tools.thy ===== *)
theory Tools
  imports Construction_Flow
begin

text \<open>
  The two commands beside the server: src/cmd/genaccount makes the key and the address of a
  prefunded account, src/cmd/signtx signs with such a key. The curve arithmetic of
  \<^verbatim>\<open>crypto/ed25519\<close>, the JSON encoding and the node's address of a program are arguments. The
  lemmas show that the commands fit the construction endpoints: what signtx signs with a key of
  genaccount is accepted by \<^verbatim>\<open>/construction/combine\<close>.
\<close>

section \<open>Keys\<close>

text \<open>
  \<open>ed_public\<close> is the public key of a seed, \<open>ed_sign\<close> the signature with a private key, which is a
  seed with its public key appended.
\<close>

record ed25519 =
  ed_public :: "bytes \<Rightarrow> bytes"
  ed_sign :: "bytes \<Rightarrow> bytes \<Rightarrow> bytes"

text \<open>\<^verbatim>\<open>NewKeyFromSeed\<close> and \<^verbatim>\<open>Sign\<close> panic when the length of the key is wrong.\<close>

definition NewKeyFromSeed :: "ed25519 \<Rightarrow> bytes \<Rightarrow> (go_error, bytes) res" where
  "NewKeyFromSeed D seed = (if length seed \<noteq> 32 then Panic else Ok (seed @ ed_public D seed))"

definition Sign :: "ed25519 \<Rightarrow> bytes \<Rightarrow> bytes \<Rightarrow> (go_error, bytes) res" where
  "Sign D key message = (if length key \<noteq> 64 then Panic else Ok (ed_sign D key message))"

text \<open>The random source gives 32 bytes or fails.\<close>

definition GenerateKey :: "ed25519 \<Rightarrow> string + bytes \<Rightarrow> (go_error, bytes \<times> bytes) res" where
  "GenerateKey D random =
     (case random of
        Inl err \<Rightarrow> Err (ExtError err)
      | Inr seed \<Rightarrow> bind_res (NewKeyFromSeed D seed) (\<lambda>priv. Ok (drop 32 priv, priv)))"

text \<open>A signature with a generated key verifies under its public key.\<close>

definition ed25519_ok :: "txlib \<Rightarrow> ed25519 \<Rightarrow> bool" where
  "ed25519_ok T D \<longleftrightarrow>
     (\<forall>seed. length seed = 32 \<longrightarrow> length (ed_public D seed) = 32 \<and>
        (\<forall>message. Verify T (ed_public D seed) message (ed_sign D (seed @ ed_public D seed) message)))"

section \<open>The commands\<close>

text \<open>Why a command ends with status 1, each with its message.\<close>

datatype tool_error =
    Failed_to_generate_keypair go_error
  | Failed_to_encode_account string
  | Failed_to_decode_json string
  | Failed_to_reencode_account string
  | Usage
  | Failed_to_decode_key
  | Failed_to_decode_data

datatype tool_exit = Prints string | Fails tool_error | Crashes

record prefunded_account =
  pf_account :: account_identifier
  pf_currency :: currency
  pf_curve_type :: string
  pf_private_key_hex :: string

text \<open>The node's address of the program that checks a signature of a key.\<close>

record programs =
  ProgramFromPubKey :: "bytes \<Rightarrow> bytes"
  AddressFromVmCode :: "bytes \<Rightarrow> address"

definition genaccount_account :: "env \<Rightarrow> programs \<Rightarrow> bytes \<times> bytes \<Rightarrow> prefunded_account" where
  "genaccount_account E P keys =
     (case keys of (pub, priv) \<Rightarrow>
        (let addr = AddressFromVmCode P (ProgramFromPubKey P pub)
         in \<lparr>pf_account = \<lparr>ai_address = ToBase58 E addr, ai_sub_account = None\<rparr>,
             pf_currency = \<lparr>cur_decimals = ONG_DECIMALS_V2 E, cur_symbol = ''ONG'',
               cur_metadata = Some [''contract'' \<mapsto> JString ''0200000000000000000000000000000000000000'']\<rparr>,
             pf_curve_type = Edwards25519,
             pf_private_key_hex = hex_encode (take 32 priv)\<rparr>))"

record 'v json_lib =
  json_Marshal :: "prefunded_account \<Rightarrow> string + bytes"
  json_Unmarshal :: "bytes \<Rightarrow> string + 'v"
  json_MarshalIndent :: "'v \<Rightarrow> string + string"

definition genaccount :: "env \<Rightarrow> programs \<Rightarrow> ed25519 \<Rightarrow> 'v json_lib \<Rightarrow> string + bytes \<Rightarrow> tool_exit" where
  "genaccount E P D J random =
     (case GenerateKey D random of
        Err err \<Rightarrow> Fails (Failed_to_generate_keypair err)
      | Panic \<Rightarrow> Crashes
      | Ok keys \<Rightarrow>
          (case json_Marshal J (genaccount_account E P keys) of
             Inl err \<Rightarrow> Fails (Failed_to_encode_account err)
           | Inr out \<Rightarrow>
          (case json_Unmarshal J out of
             Inl err \<Rightarrow> Fails (Failed_to_decode_json err)
           | Inr val \<Rightarrow>
          (case json_MarshalIndent J val of
             Inl err \<Rightarrow> Fails (Failed_to_reencode_account err)
           | Inr text \<Rightarrow> Prints text))))"

text \<open>The arguments of the command line, without the name of the program.\<close>

definition signtx :: "ed25519 \<Rightarrow> string list \<Rightarrow> tool_exit" where
  "signtx D args =
     (case args of
        [raw_key, raw_data] \<Rightarrow>
          (case hex_decode raw_key of
             None \<Rightarrow> Fails Failed_to_decode_key
           | Some key \<Rightarrow>
          (case hex_decode raw_data of
             None \<Rightarrow> Fails Failed_to_decode_data
           | Some data \<Rightarrow>
               (case bind_res (NewKeyFromSeed D key) (\<lambda>priv. Sign D priv data) of
                  Ok sig \<Rightarrow> Prints (hex_encode sig)
                | _ \<Rightarrow> Crashes)))
      | _ \<Rightarrow> Fails Usage)"

lemma sign_seed:
  assumes "ed25519_ok T D" "length seed = 32"
  shows "bind_res (NewKeyFromSeed D seed) (\<lambda>priv. Sign D priv data) = Ok (ed_sign D (seed @ ed_public D seed) data)"
  using assms by (simp add: NewKeyFromSeed_def Sign_def ed25519_ok_def)

lemma signtx_seed:
  assumes "ed25519_ok T D" "length seed = 32"
  shows "signtx D [hex_encode seed, hex_encode data] = Prints (hex_encode (ed_sign D (seed @ ed_public D seed) data))"
  using sign_seed [OF assms] by (simp add: signtx_def hex_decode_encode)

text \<open>A generated key: a seed of 32 bytes, whose hexadecimal form is the account's private key.\<close>

lemma GenerateKey_seed:
  assumes "ed25519_ok T D" "GenerateKey D random = Ok (pub, priv)"
  obtains seed where "length seed = 32" "pub = ed_public D seed" "take 32 priv = seed"
  using assms(2) by (auto simp: GenerateKey_def NewKeyFromSeed_def split: sum.splits if_splits)

section \<open>Signing the payloads\<close>

text \<open>
  The node's library can put one signature on an unsigned transaction: what remains of
  \<^verbatim>\<open>/construction/combine\<close> when the endpoint's own checks are left out.
\<close>

definition takes_signature :: "txlib \<Rightarrow> string \<Rightarrow> bytes \<Rightarrow> bytes \<Rightarrow> bool" where
  "takes_signature T data key sig \<longleftrightarrow>
     (\<exists>t m osig t'. decodeTransaction T data = Ok t \<and> IntoMutable T t = Inr m \<and> ct_Sigs m = [] \<and>
        SerializeSig T sig = Inr osig \<and>
        IntoImmutable T (m\<lparr>ct_Sigs := [\<lparr>sig_M = 1, sig_PubKeys = [key], sig_SigData = [osig]\<rparr>]\<rparr>) = Inr t')"

text \<open>The signature a client sends for a payload.\<close>

definition client_signature :: "bytes \<Rightarrow> signing_payload \<Rightarrow> bytes \<Rightarrow> signature" where
  "client_signature key p sig =
     \<lparr>sg_PublicKey = Some (Edwards25519, key), sg_SignatureType = Ed25519,
      sg_SigningPayload = Some (sp_bytes p, sp_type p), sg_Bytes = sig\<rparr>"

lemma Combine_one:
  assumes "txlib_ok T" "decodeTransaction T data = Ok t" "sp_bytes p = tx_Hash t" "length key = 32"
    and "Verify T key (tx_Hash t) sig"
  shows "(\<exists>out. ConstructionCombine T data [Some (client_signature key p sig)] = Ok out) \<longleftrightarrow> takes_signature T data key sig"
proof -
  let ?osig = "\<lambda>osig. \<lparr>sig_M = 1, sig_PubKeys = [key], sig_SigData = [osig]\<rparr>"
  have one: "combine_signature T (TxHash T m) (client_signature key p sig) = Ok x \<longleftrightarrow>
      (\<exists>osig. SerializeSig T sig = Inr osig \<and> x = ?osig osig)" if "IntoMutable T t = Inr m" for m x
  proof -
    have "TxHash T m = tx_Hash t" using assms(1) that unfolding txlib_ok_def by blast
    then show ?thesis using assms(3-5) by (auto simp: combine_signature_iff signs_def client_signature_def)
  qed
  let ?sg = "client_signature key p sig"
  have "(\<exists>out. ConstructionCombine T data [Some ?sg] = Ok out) \<longleftrightarrow>
      (\<exists>m x t'. IntoMutable T t = Inr m \<and> ct_Sigs m = [] \<and>
         combine_signature T (TxHash T m) ?sg = Ok x \<and> IntoImmutable T (m\<lparr>ct_Sigs := [x]\<rparr>) = Inr t')"
  proof (cases "IntoMutable T t")
    case (Inr m)
    show ?thesis
    proof (cases "combine_signature T (TxHash T m) ?sg")
      case (Ok x)
      then show ?thesis
        by (cases "IntoImmutable T (m\<lparr>ct_Sigs := [x]\<rparr>)")
          (simp_all add: ConstructionCombine_def assms(2) Inr wrap_res_def lib_def)
    qed (simp_all add: ConstructionCombine_def assms(2) Inr wrap_res_def lib_def)
  qed (simp add: ConstructionCombine_def assms(2) wrap_res_def lib_def)
  also have "\<dots> \<longleftrightarrow> (\<exists>m osig t'. IntoMutable T t = Inr m \<and> ct_Sigs m = [] \<and> SerializeSig T sig = Inr osig \<and>
      IntoImmutable T (m\<lparr>ct_Sigs := [?osig osig]\<rparr>) = Inr t')"
    by (auto simp: one cong: conj_cong)
  finally show ?thesis by (simp add: takes_signature_def assms(2))
qed

text \<open>What \<^verbatim>\<open>/construction/payloads\<close> asks to sign is the hash of the unsigned transaction it returns.\<close>

lemma Payloads_bytes:
  assumes "env_ok E" "txlib_ok T" "ConstructionPayloads E T C s md ops = Ok pl" "p \<in> set (pl_payloads pl)"
  obtains t where "decodeTransaction T (pl_unsigned pl) = Ok t" "sp_bytes p = tx_Hash t"
proof -
  obtain opts t where t: "constructTransfer E T s opts = Ok t" "pl_unsigned pl = hex_encode (Serialization T t)"
    "sp_bytes p = tx_Hash t"
    using assms(3,4) by (auto simp: ConstructionPayloads_def res_simps Let_def split: if_splits)
  then show thesis using constructTransfer_fields(5) [OF assms(1,2) t(1)] that by simp
qed

lemma genaccount_currency:
  assumes "env_ok E" "ONG_SYMBOL E = ''ONG''"
    and "tokens s (ongAddr E) = Some (native_currency E (ongAddr E) (ONG_DECIMALS_V2 E) (ONG_SYMBOL E))"
  shows "validateCurrency E s (Some (pf_currency (genaccount_account E P keys))) =
    Ok (native_currency E (ongAddr E) (ONG_DECIMALS_V2 E) (ONG_SYMBOL E))"
proof -
  have "hex_decode ''0200000000000000000000000000000000000000'' = Some (rev (ongAddr E))"
    using native_addrs(1) [OF assms(1)] by (simp add: hex_val_def numeral_eq_Suc)
  then have "AddressFromHexString E ''0200000000000000000000000000000000000000'' = Inr (ongAddr E)"
    using addr_hex_iff [OF assms(1)] native_addrs_is_addr(1) [OF assms(1)] by blast
  then show ?thesis
    using assms(2,3)
    by (cases keys) (simp add: genaccount_account_def validateCurrency_def native_currency_def Let_def)
qed

section \<open>Properties\<close>

text \<open>The outcome of signtx for every command line: a usage message unless there are two arguments,
  an error unless both are hexadecimal, and otherwise a signature exactly when the first one is a
  seed of 32 bytes; any other key, also the 64 bytes of a whole private key, is a crash.\<close>

theorem signtx_outcomes:
  assumes "ed25519_ok T D"
  shows "(signtx D args = Fails Usage \<longleftrightarrow> length args \<noteq> 2) \<and>
    (signtx D [k, d] = Fails Failed_to_decode_key \<longleftrightarrow> hex_decode k = None) \<and>
    (signtx D [k, d] = Fails Failed_to_decode_data \<longleftrightarrow> hex_decode k \<noteq> None \<and> hex_decode d = None) \<and>
    (signtx D [k, d] = Prints out \<longleftrightarrow>
      (\<exists>seed data. hex_decode k = Some seed \<and> hex_decode d = Some data \<and> length seed = 32 \<and>
         out = hex_encode (ed_sign D (seed @ ed_public D seed) data))) \<and>
    (signtx D [k, d] = Crashes \<longleftrightarrow>
      (\<exists>key. hex_decode k = Some key \<and> hex_decode d \<noteq> None \<and> length key \<noteq> 32))"
proof -
  have usage: "signtx D args = Fails Usage \<longleftrightarrow> length args \<noteq> 2"
    by (auto simp: signtx_def length_Suc_conv numeral_2_eq_2 split: list.splits option.splits res.splits)
  show ?thesis
  proof (cases "hex_decode k")
    case (Some key)
    show ?thesis
    proof (cases "length key = 32")
      case True
      then show ?thesis
        using usage Some sign_seed [OF assms True] by (auto simp: signtx_def split: option.split)
    qed (use usage Some in \<open>auto simp: signtx_def NewKeyFromSeed_def split: option.split\<close>)
  qed (use usage in \<open>auto simp: signtx_def\<close>)
qed

text \<open>C30: the commands fit the server. The account that genaccount prints for a key is the one that
  \<^verbatim>\<open>/construction/derive\<close> gives for its public key, and its currency is the registered ONG. For each
  payload that \<^verbatim>\<open>/construction/payloads\<close> asks to sign, signtx with the account's private key prints
  a signature, and \<^verbatim>\<open>/construction/combine\<close> accepts it with that public key exactly when the node's
  library can put it on the transaction: none of the checks of the endpoint refuses it.\<close>

theorem genaccount_signs:
  assumes "env_ok E" "txlib_ok T" "ed25519_ok T D"
    and "\<forall>key. AddressFromVmCode P (ProgramFromPubKey P key) = AddressFromPubKey T key"
    and "ONG_SYMBOL E = ''ONG''"
    and "tokens s (ongAddr E) = Some (native_currency E (ongAddr E) (ONG_DECIMALS_V2 E) (ONG_SYMBOL E))"
    and "GenerateKey D random = Ok (pub, priv)" "acc = genaccount_account E P (pub, priv)"
    and "ConstructionPayloads E T C s md ops = Ok pl" "p \<in> set (pl_payloads pl)"
  shows "ConstructionDerive E T s (Some (Edwards25519, pub)) None = Ok (pf_account acc) \<and>
    validateCurrency E s (Some (pf_currency acc)) = Ok (native_currency E (ongAddr E) (ONG_DECIMALS_V2 E) (ONG_SYMBOL E)) \<and>
    (\<exists>sig. signtx D [pf_private_key_hex acc, hex_encode (sp_bytes p)] = Prints (hex_encode sig) \<and>
       ((\<exists>out. ConstructionCombine T (pl_unsigned pl) [Some (client_signature pub p sig)] = Ok out) \<longleftrightarrow>
        takes_signature T (pl_unsigned pl) pub sig))"
proof (intro conjI)
  obtain seed where seed: "length seed = 32" "pub = ed_public D seed" "take 32 priv = seed"
    using GenerateKey_seed [OF assms(3,7)] .
  have pub: "length pub = 32" "Verify T pub msg (ed_sign D (seed @ pub) msg)" for msg
    using assms(3) seed(1,2) by (simp_all add: ed25519_ok_def)
  show "ConstructionDerive E T s (Some (Edwards25519, pub)) None = Ok (pf_account acc)"
    using assms(4) pub(1) by (simp add: ConstructionDerive_def getContract_def md_get_def assms(8) genaccount_account_def Let_def)
  show "validateCurrency E s (Some (pf_currency acc)) = Ok (native_currency E (ongAddr E) (ONG_DECIMALS_V2 E) (ONG_SYMBOL E))"
    unfolding assms(8) by (rule genaccount_currency [OF assms(1,5,6)])
  obtain t where t: "decodeTransaction T (pl_unsigned pl) = Ok t" "sp_bytes p = tx_Hash t"
    using Payloads_bytes [OF assms(1,2,9,10)] .
  have "pf_private_key_hex acc = hex_encode seed"
    by (simp add: assms(8) genaccount_account_def Let_def seed(3))
  then have "signtx D [pf_private_key_hex acc, hex_encode (sp_bytes p)] = Prints (hex_encode (ed_sign D (seed @ pub) (tx_Hash t)))"
    using signtx_seed [OF assms(3) seed(1)] by (simp add: t(2) seed(2))
  then show "\<exists>sig. signtx D [pf_private_key_hex acc, hex_encode (sp_bytes p)] = Prints (hex_encode sig) \<and>
       ((\<exists>out. ConstructionCombine T (pl_unsigned pl) [Some (client_signature pub p sig)] = Ok out) \<longleftrightarrow>
        takes_signature T (pl_unsigned pl) pub sig)"
    using Combine_one [OF assms(2) t pub] by blast
qed

definition curve0 :: ed25519 where
  "curve0 = \<lparr>ed_public = (\<lambda>seed. key2), ed_sign = (\<lambda>key message. message)\<rparr>"

definition programs0 :: programs where
  "programs0 = \<lparr>ProgramFromPubKey = (\<lambda>key. key), AddressFromVmCode = take 20\<rparr>"

lemma ed25519_ok_curve0: "ed25519_ok lib2 curve0"
  by (simp add: ed25519_ok_def curve0_def key2_def lib2_def txlib0_def)

theorem signtx_outcomes_witness:
  "signtx curve0 [hex_encode (replicate 64 1), hex_encode [1]] = Crashes \<and>
   signtx curve0 [hex_encode (replicate 32 1), hex_encode [1]] = Prints (hex_encode [1])"
  using signtx_outcomes [OF ed25519_ok_curve0, of "[]" "hex_encode (replicate 64 1)" "hex_encode [1]" "[]"]
    signtx_outcomes [OF ed25519_ok_curve0, of "[]" "hex_encode (replicate 32 1)" "hex_encode [1]" "hex_encode [1]"]
  by (simp add: hex_decode_encode curve0_def del: hex_encode.simps)

theorem genaccount_signs_witness:
  "\<exists>pl p out. ConstructionPayloads env0 lib2 codec2 store2 (protobuf_map [2]) ops2 = Ok pl \<and> p \<in> set (pl_payloads pl) \<and>
     (\<exists>sig. signtx curve0 [hex_encode (replicate 32 1), hex_encode (sp_bytes p)] = Prints (hex_encode sig) \<and>
        ConstructionCombine lib2 (pl_unsigned pl) [Some (client_signature key2 p sig)] = Ok out)"
proof -
  have decode: "decodeProtobuf codec2 (protobuf_map [2]) = Ok opts_fin"
    by (simp add: decodeProtobuf_def protobuf_map_def md_get_def hex_decode_encode codec2_def opts_fin_def opts_req_def
        del: hex_encode.simps)
  have opts: "options_for pay0 opts_fin" by (simp add: options_for_def opts_fin_def opts_req_def pay0_def)
  obtain pl p where pl: "ConstructionPayloads env0 lib2 codec2 store2 (protobuf_map [2]) ops2 = Ok pl"
    "p \<in> set (pl_payloads pl)" "sp_bytes p = tx_Hash (imm0 unsigned2)" "pl_unsigned pl = hex_encode (Serialization lib2 (imm0 unsigned2))"
    by (rule that [OF Payloads_of_options [OF decode validate2 opts construct2],
          of "\<lparr>sp_account = native_account env0 pay0 (ti_from pay0), sp_bytes = tx_Hash (imm0 unsigned2), sp_type = Ed25519\<rparr>"])
      (simp_all add: Let_def)
  let ?random = "Inr (replicate 32 1)" and ?acc = "genaccount_account env0 programs0 (key2, replicate 32 1 @ key2)"
  have gen: "GenerateKey curve0 ?random = Ok (key2, replicate 32 1 @ key2)"
    by (simp add: GenerateKey_def NewKeyFromSeed_def curve0_def)
  have key: "pf_private_key_hex ?acc = hex_encode (replicate 32 1)" by (simp add: genaccount_account_def)
  have sign: "signtx curve0 [hex_encode (replicate 32 1), hex_encode (sp_bytes p)] = Prints (hex_encode (sp_bytes p))"
    using signtx_seed [OF ed25519_ok_curve0, of "replicate 32 1"] by (simp add: curve0_def del: hex_encode.simps)
  have "takes_signature lib2 (pl_unsigned pl) key2 (sp_bytes p)"
  proof -
    have "unsigned2\<lparr>ct_Sigs := [\<lparr>sig_M = 1, sig_PubKeys = [key2], sig_SigData = [hash2]\<rparr>]\<rparr> = signed2"
      by (simp add: signed2_def)
    moreover have "IntoMutable lib2 (imm0 unsigned2) = Inr unsigned2" "ct_Sigs unsigned2 = []"
      "SerializeSig lib2 hash2 = Inr hash2" "IntoImmutable lib2 signed2 = Inr (imm0 signed2)" "sp_bytes p = hash2"
      using pl(3) by (simp_all add: lib2_def txlib0_def index_in_def unsigned2_def hash2_def imm0_def)
    ultimately show ?thesis using combine2(2) unfolding takes_signature_def pl(4) by metis
  qed
  moreover have "sig = sp_bytes p" if "Prints (hex_encode (sp_bytes p)) = Prints (hex_encode sig)" for sig
    using that hex_decode_encode by (metis option.inject tool_exit.inject(1))
  ultimately show ?thesis
    using genaccount_signs [OF env_ok_env0 lib2_ok(1) ed25519_ok_curve0 _ _ _ gen refl pl(1,2), of programs0]
      store2_tokens(2) pl(1,2) sign key by (fastforce simp: programs0_def lib2_def txlib0_def)
qed

end
