(* ===== verification/Answers.thy ===== *)
theory Answers
  imports Readers Construction
begin

text \<open>
  The errors of the API. Every handler answers a failure with one of the errors of
  src/services/errors.go, to which it may attach a cause. This theory gives, for every route of
  \<^verbatim>\<open>Router\<close> (src/services/services.go), the errors its handler can answer, and shows that
  all of them are among those that \<^verbatim>\<open>/network/options\<close> declares. The data routes are taken in
  their form of the theory Readers, where every read of a request may see another store.
\<close>

section \<open>The errors of a result\<close>

text \<open>An error without the cause that was attached to it.\<close>

definition plain :: "xerror \<Rightarrow> xerror" where
  "plain e = e\<lparr>err_details := None\<rparr>"

definition answers :: "xerror set \<Rightarrow> (xerror, 'a) res \<Rightarrow> bool" where
  "answers S r \<longleftrightarrow> (\<forall>e. r = Err e \<longrightarrow> plain e \<in> S)"

named_theorems answers_intros \<open>the errors an operation answers\<close>

lemma plain_wrapErr [simp]: "plain (wrapErr e d) = plain e"
  by (simp add: plain_def wrapErr_def)

lemma plain_decl [simp]: "e \<in> set error_decls \<Longrightarrow> plain e = e"
  using error_decls_plain [of e] by (cases e) (simp add: plain_def)

lemma decl_mem [simp]: "e \<in> {errNotImplemented, errOfflineMode, errCurrencyNotDefined, errDatastore,
      errDatastoreConflict, errDatastoreConsistency, errInternal, errNonceGenerationFailed,
      errProtobuf, errInvalidAccountAddress, errInvalidBlockHash, errInvalidBlockIdentifier,
      errInvalidBlockIndex, errInvalidConstructOptions, errInvalidContractAddress,
      errInvalidCurrency, errInvalidGasLimit, errInvalidGasPrice, errInvalidNonce,
      errInvalidOpsIntent, errInvalidPayerAddress, errInvalidPublicKey, errInvalidRequestField,
      errInvalidSignature, errInvalidTransactionHash, errInvalidTransactionPayload,
      errBroadcastFailed, errTransactionNotInMempool, errUnknownBlockHash, errUnknownBlockIndex} \<Longrightarrow>
    plain e = e"
  by (rule plain_decl) (simp only: error_decls_def list.set)

lemma plain_formatted [simp]:
  "plain (invalidOpsf f args) = errInvalidOpsIntent" "plain (invalidCurrencyf f args) = errInvalidCurrency"
  "plain (invalidConstructf f args) = errInvalidConstructOptions"
  by (simp_all add: invalidOpsf_def invalidCurrencyf_def invalidConstructf_def)

lemma answers_simps [simp]:
  "answers S (Ok a)" "answers S Panic" "answers S (Err e) \<longleftrightarrow> plain e \<in> S" "answers S (deref x)"
  by (simp_all add: answers_def) (cases x; simp)

lemma answers_bind [answers_intros]:
  "answers S m \<Longrightarrow> (\<And>a. m = Ok a \<Longrightarrow> answers S (f a)) \<Longrightarrow> answers S (bind_res m f)"
  by (cases m) auto

lemma answers_map_res [answers_intros]:
  "(\<And>x. x \<in> set xs \<Longrightarrow> answers S (f x)) \<Longrightarrow> answers S (map_res f xs)"
  by (induction xs) (auto intro!: answers_intros)

lemma answers_wrap_res [answers_intros]: "plain e \<in> S \<Longrightarrow> answers S (wrap_res e r)"
  by (cases r) (simp_all add: wrap_res_def)

section \<open>The data routes\<close>

lemma getCurrencyInfo_answers [answers_intros]: "errCurrencyNotDefined \<in> S \<Longrightarrow> answers S (getCurrencyInfo s c)"
  by (simp add: getCurrencyInfo_def split: option.split)

lemma validateCurrency_answers [answers_intros]:
  "{errInvalidCurrency, errCurrencyNotDefined} \<subseteq> S \<Longrightarrow> answers S (validateCurrency E s c)"
  by (auto simp: validateCurrency_def split: option.split jval.split sum.split)

definition selection_errors :: "xerror set" where
  "selection_errors = {errInvalidBlockIdentifier, errInvalidBlockHash, errInvalidBlockIndex, errUnknownBlockIndex}"

definition view_errors :: "xerror set" where
  "view_errors = {errDatastore, errDatastoreConflict, errUnknownBlockIndex, errUnknownBlockHash, errInvalidBlockIdentifier}"

lemma getBlockID_answers [answers_intros]:
  "selection_errors \<subseteq> S \<Longrightarrow> answers S (getBlockID E s pid n)"
  by (auto simp: getBlockID_def selection_errors_def split: option.split sum.split intro!: answers_intros)

lemma view_errors_mem [simp]: "errDatastore \<in> view_errors" "errDatastoreConflict \<in> view_errors"
  by (simp_all add: view_errors_def)

lemma view_errors_plain [simp]: "e \<in> view_errors \<Longrightarrow> plain e = e"
  by (auto simp: view_errors_def)

lemma resolve_block_id_errors:
  "resolve_block_id B d bid = Stop err (Some x) \<Longrightarrow> x \<in> view_errors"
  "resolve_block_id B d bid = Go (Some x) bid' \<Longrightarrow> x \<in> view_errors"
  by (auto simp: resolve_block_id_def view_errors_def
      split: if_splits sum.splits berr.splits option.splits prod.splits)

lemma finish_view_answers [answers_intros]:
  "view_errors \<subseteq> S \<Longrightarrow> (\<And>x. xerr = Some x \<Longrightarrow> x \<in> view_errors) \<Longrightarrow> answers S (finish_view E err xerr bid blk)"
  by (auto simp: finish_view_def split: option.split)

lemma getBlockInfoRaw_answers [answers_intros]:
  "view_errors \<subseteq> S \<Longrightarrow> answers S (getBlockInfoRaw E B C s bid w)"
  unfolding getBlockInfoRaw_def
  by (auto split: resolved.split sum.split berr.split prod.split intro!: finish_view_answers
      dest: resolve_block_id_errors)

lemma getBlockInfo_at_answers [answers_intros]:
  "selection_errors \<union> view_errors \<subseteq> S \<Longrightarrow> answers S (getBlockInfo_at E B C \<sigma> pid w)"
  unfolding getBlockInfo_at_def by (auto simp: selection_errors_def intro!: answers_intros)

definition stored_errors :: "xerror set" where
  "stored_errors = {errDatastoreConsistency, errCurrencyNotDefined}"

lemma transform_loop_errors: "transform_loop E s xs ops = Err (XErr x) \<Longrightarrow> x = errCurrencyNotDefined"
  by (induction E s xs ops rule: transform_loop.induct)
    (auto simp: Let_def getCurrencyInfo_def split: res.splits option.splits)

lemma transformTransaction_answers [answers_intros]:
  "stored_errors \<subseteq> S \<Longrightarrow> answers S (consistency (transformTransaction E s src))"
  by (auto simp: transformTransaction_def consistency_def stored_errors_def res_simps answers_def
      split: sum.splits res.splits tx_error.splits dest: transform_loop_errors)

lemma find_transaction_answers [answers_intros]:
  "insert errInvalidTransactionHash stored_errors \<subseteq> S \<Longrightarrow> answers S (find_transaction E s hash srcs)"
  by (induction srcs) (auto intro!: answers_intros)

lemma balance_filter_answers [answers_intros]:
  "{errInvalidCurrency, errCurrencyNotDefined} \<subseteq> S \<Longrightarrow> answers S (balance_filter E s cs flt)"
  by (induction cs arbitrary: flt) (auto intro!: answers_intros)

lemma balance_loop_at_answers [answers_intros]:
  "{errDatastore, errCurrencyNotDefined} \<subseteq> S \<Longrightarrow> answers S (balance_loop_at E B \<sigma> i info acct filtered flt cs bs)"
  by (induction cs arbitrary: i bs) (auto simp: Let_def split: sum.split intro!: answers_intros)

definition block_errors :: "xerror set" where
  "block_errors = {errOfflineMode} \<union> selection_errors \<union> view_errors \<union> stored_errors"

definition balance_errors :: "xerror set" where
  "balance_errors = {errOfflineMode, errInvalidAccountAddress, errInvalidContractAddress, errInvalidCurrency,
     errCurrencyNotDefined} \<union> selection_errors \<union> view_errors"

lemma Block_at_answers: "answers block_errors (Block_at E B C offline \<sigma> pid)"
  unfolding Block_at_def block_errors_def by (auto intro!: answers_intros)

lemma BlockTransaction_at_answers:
  "answers (insert errInvalidTransactionHash block_errors) (BlockTransaction_at E B C offline \<sigma> bid txid)"
  unfolding BlockTransaction_at_def block_errors_def
  by (auto split: option.split sum.split intro!: answers_intros simp: selection_errors_def)

lemma getBalance_at_answers [answers_intros]:
  "balance_errors \<subseteq> S \<Longrightarrow> answers S (getBalance_at E B C \<sigma> pid acct currencies contracts)"
  unfolding getBalance_at_def by (auto simp: balance_errors_def intro!: answers_intros)

lemma AccountBalance_at_answers: "answers balance_errors (AccountBalance_at E B C offline \<sigma> account pid currencies)"
  unfolding AccountBalance_at_def
  by (auto simp: balance_errors_def split: option.split sum.split intro!: answers_intros)

lemma NetworkStatus_at_answers: "answers (insert errOfflineMode view_errors) (NetworkStatus_at E B C offline \<sigma> node)"
  unfolding NetworkStatus_at_def by (auto split: res.split option.split intro!: answers_intros)

section \<open>The construction routes\<close>

lemma decodeTransaction_answers [answers_intros]:
  "errInvalidTransactionPayload \<in> S \<Longrightarrow> answers S (decodeTransaction T data)"
  by (simp add: decodeTransaction_def split: option.split sum.split)

lemma decodeProtobuf_answers [answers_intros]: "errProtobuf \<in> S \<Longrightarrow> answers S (decodeProtobuf C md)"
  by (simp add: decodeProtobuf_def split: option.split sum.split jval.split)

lemma getPayer_answers [answers_intros]: "errInvalidPayerAddress \<in> S \<Longrightarrow> answers S (getPayer E md)"
  by (simp add: getPayer_def split: option.split sum.split jval.split)

lemma getContract_answers [answers_intros]:
  "{errInvalidContractAddress, errCurrencyNotDefined} \<subseteq> S \<Longrightarrow> answers S (getContract E s md)"
  by (auto simp: getContract_def split: option.split sum.split jval.split intro!: answers_intros)

lemma marshal_options_answers [answers_intros]: "errProtobuf \<in> S \<Longrightarrow> answers S (marshal_options C opts)"
  by (auto simp: marshal_options_def intro!: answers_intros)

lemma parsePayload_answers [answers_intros]:
  "{errInvalidTransactionPayload, errCurrencyNotDefined} \<subseteq> S \<Longrightarrow> answers S (parsePayload V E s p)"
  by (auto simp: parsePayload_def split: tx_payload.split intro!: answers_intros)

subsection \<open>Intents\<close>

definition intent_rejections :: "xerror set" where
  "intent_rejections = {errInvalidOpsIntent, errInvalidCurrency, errCurrencyNotDefined}"

lemma check_sub_account_answers [answers_intros]:
  "errInvalidOpsIntent \<in> S \<Longrightarrow> answers S (check_sub_account E c i account)"
  by (simp add: check_sub_account_def split: option.split sum.split)

lemma validate_op_answers [answers_intros]: "intent_rejections \<subseteq> S \<Longrightarrow> answers S (validate_op E s i cinfo op)"
  unfolding validate_op_def
  by (auto simp: intent_rejections_def split: option.split sum.split simp del: not_None_eq intro!: answers_intros)

lemma validate_loop_answers [answers_intros]: "intent_rejections \<subseteq> S \<Longrightarrow> answers S (validate_loop E s i cinfo ops)"
  by (induction ops arbitrary: i cinfo) (auto intro!: answers_intros)

lemma validateRelation_answers [answers_intros]: "errInvalidOpsIntent \<in> S \<Longrightarrow> answers S (validateRelation ops i j)"
  by (auto simp: validateRelation_def Let_def split: option.split intro!: answers_intros)

lemma validateOps_answers [answers_intros]: "intent_rejections \<subseteq> S \<Longrightarrow> answers S (validateOps E s ops)"
  unfolding validateOps_def
  by (auto simp: check_relation_def transfer_of_def Let_def intent_rejections_def
      split: option.split intro!: answers_intros)

subsection \<open>Nonces and signatures\<close>

lemma checkUnsignedTxHash_answers [answers_intros]: "errDatastore \<in> S \<Longrightarrow> answers S (checkUnsignedTxHash B s hash)"
  by (simp add: checkUnsignedTxHash_def split: sum.split berr.split)

definition nonce_errors :: "xerror set" where
  "nonce_errors = {errNonceGenerationFailed, errInvalidNonce, errInvalidConstructOptions, errDatastore}"

lemma nonce_taken_answers [answers_intros]: "nonce_errors \<subseteq> S \<Longrightarrow> answers S (nonce_taken E T B s opts)"
  by (auto simp: nonce_taken_def nonce_errors_def intro!: answers_intros)

lemma nonce_loop_answers [answers_intros]: "nonce_errors \<subseteq> S \<Longrightarrow> answers S (nonce_loop E T B s rand i n opts)"
  by (induction n arbitrary: i opts) (auto simp: nonce_errors_def split: sum.split intro!: answers_intros)

lemma choose_nonce_answers [answers_intros]: "nonce_errors \<subseteq> S \<Longrightarrow> answers S (choose_nonce E T B s rand opts)"
  unfolding choose_nonce_def by (auto simp: nonce_errors_def intro!: answers_intros)

lemma fill_gas_answers [answers_intros]: "answers S (fill_gas E price opts)"
  by (simp add: fill_gas_def Let_def)

lemma combine_signature_answers [answers_intros]:
  "{errInvalidPublicKey, errInvalidSignature} \<subseteq> S \<Longrightarrow> answers S (combine_signature T hash sig)"
  by (auto simp: combine_signature_def split: option.split intro!: answers_intros)

lemma parse_signer_answers [answers_intros]:
  "errInvalidTransactionPayload \<in> S \<Longrightarrow> answers S (parse_signer E T cinfo raw)"
  by (simp add: parse_signer_def split: sum.split)

section \<open>Every route\<close>

text \<open>The errors of a route; \<^verbatim>\<open>/network/list\<close> and \<^verbatim>\<open>/network/options\<close> answer none.\<close>

definition route_errors :: "string \<Rightarrow> xerror set" where
  "route_errors route =
     (if route = ''/account/balance'' then balance_errors
      else if route = ''/account/coins'' then {errOfflineMode, errNotImplemented}
      else if route = ''/block'' then block_errors
      else if route = ''/block/transaction'' then insert errInvalidTransactionHash block_errors
      else if route = ''/construction/combine'' then
        {errInvalidTransactionPayload, errInvalidSignature, errInvalidPublicKey, errInternal}
      else if route = ''/construction/derive'' then
        {errInvalidPublicKey, errInvalidContractAddress, errCurrencyNotDefined}
      else if route = ''/construction/hash'' then {errInvalidTransactionPayload}
      else if route = ''/construction/metadata'' then {errOfflineMode, errProtobuf} \<union> nonce_errors
      else if route = ''/construction/parse'' then
        {errInvalidTransactionPayload, errCurrencyNotDefined, errInternal}
      else if route = ''/construction/payloads'' then
        {errProtobuf, errInvalidConstructOptions} \<union> intent_rejections
      else if route = ''/construction/preprocess'' then
        {errInvalidRequestField, errInvalidGasLimit, errInvalidGasPrice, errInvalidNonce, errInvalidPayerAddress,
         errProtobuf} \<union> intent_rejections
      else if route = ''/construction/submit'' then
        {errOfflineMode, errInvalidTransactionPayload, errBroadcastFailed}
      else if route = ''/mempool'' then {errOfflineMode}
      else if route = ''/mempool/transaction'' then
        {errOfflineMode, errInvalidTransactionHash, errTransactionNotInMempool, errInvalidTransactionPayload,
         errCurrencyNotDefined}
      else if route = ''/network/status'' then insert errOfflineMode view_errors
      else {})"

lemmas error_groups = block_errors_def balance_errors_def selection_errors_def view_errors_def
  stored_errors_def nonce_errors_def intent_rejections_def

lemma route_errors_declared: "route_errors route \<subseteq> set error_decls"
  by (simp add: route_errors_def error_groups error_decls_def)

lemma account_routes:
  "answers (route_errors ''/account/balance'') (AccountBalance_at E B C offline \<sigma> account pid currencies)"
  "answers (route_errors ''/account/coins'') (AccountCoins offline)"
  by (simp_all add: route_errors_def AccountBalance_at_answers AccountCoins_def)

lemma block_routes:
  "answers (route_errors ''/block'') (Block_at E B C offline \<sigma> pid)"
  "answers (route_errors ''/block/transaction'') (BlockTransaction_at E B C offline \<sigma> bid txid)"
  "answers (route_errors ''/network/status'') (NetworkStatus_at E B C offline \<sigma> node)"
  by (simp_all add: route_errors_def Block_at_answers BlockTransaction_at_answers NetworkStatus_at_answers)

lemma ConstructionCombine_answers:
  "answers (route_errors ''/construction/combine'') (ConstructionCombine T raw sigs)"
  by (auto simp: route_errors_def ConstructionCombine_def intro!: answers_intros)

lemma ConstructionDerive_answers: "answers (route_errors ''/construction/derive'') (ConstructionDerive E T s key md)"
  by (auto simp: route_errors_def ConstructionDerive_def split: option.split intro!: answers_intros)

lemma ConstructionHash_answers: "answers (route_errors ''/construction/hash'') (ConstructionHash E T data)"
  by (auto simp: route_errors_def ConstructionHash_def intro!: answers_intros)

lemma ConstructionMetadata_answers:
  "pred_option (answers (route_errors ''/construction/metadata'')) (ConstructionMetadata E T C B N rand offline s options)"
proof -
  have "answers {errProtobuf} (decodeProtobuf C options)" by (rule decodeProtobuf_answers) simp
  then show ?thesis
    unfolding ConstructionMetadata_def
    by (auto simp: route_errors_def split: res.split option.split intro!: answers_intros)
qed

lemma ConstructionParse_answers:
  "answers (route_errors ''/construction/parse'') (ConstructionParse E V T s data is_signed)"
  unfolding ConstructionParse_def by (auto simp: route_errors_def split: option.split intro!: answers_intros)

lemma ConstructionPayloads_answers:
  "answers (route_errors ''/construction/payloads'') (ConstructionPayloads E T C s md ops)"
  unfolding ConstructionPayloads_def by (auto simp: route_errors_def Let_def intro!: answers_intros)

lemma ConstructionPreprocess_answers:
  "answers (route_errors ''/construction/preprocess'') (ConstructionPreprocess E C cast s max_fee multiplier md ops)"
  unfolding ConstructionPreprocess_def by (auto simp: route_errors_def intro!: answers_intros)

lemma ConstructionSubmit_answers:
  "answers (route_errors ''/construction/submit'') (ConstructionSubmit E T offline data)"
  unfolding ConstructionSubmit_def by (auto simp: route_errors_def split: option.split intro!: answers_intros)

lemma mempool_routes:
  "answers (route_errors ''/mempool'') (Mempool E pool offline)"
  "answers (route_errors ''/mempool/transaction'') (MempoolTransaction E V pool offline s ident)"
  unfolding Mempool_def MempoolTransaction_def
  by (auto simp: route_errors_def split: option.split sum.split intro!: answers_intros)

text \<open>C16: the errors of the API. Whatever stores a request sees and whatever the node, the database and
  the libraries answer, every failure of a route is, but for the cause attached to it, an error of
  the route, and all of these are declared by \<^verbatim>\<open>/network/options\<close>.\<close>

theorem answered_errors:
  "\<exists>reg. register_all empty_registry error_decls = Ok reg \<and>
     route_errors route \<subseteq> set (no_errors (NetworkOptions reg)) \<and>
     answers (route_errors ''/account/balance'') (AccountBalance_at E B C offline \<sigma> account pid currencies) \<and>
     answers (route_errors ''/account/coins'') (AccountCoins offline) \<and>
     answers (route_errors ''/block'') (Block_at E B C offline \<sigma> pid) \<and>
     answers (route_errors ''/block/transaction'') (BlockTransaction_at E B C offline \<sigma> bid txid) \<and>
     answers (route_errors ''/network/status'') (NetworkStatus_at E B C offline \<sigma> node) \<and>
     answers (route_errors ''/construction/combine'') (ConstructionCombine T data sigs) \<and>
     answers (route_errors ''/construction/derive'') (ConstructionDerive E T s key md) \<and>
     answers (route_errors ''/construction/hash'') (ConstructionHash E T data) \<and>
     pred_option (answers (route_errors ''/construction/metadata''))
       (ConstructionMetadata E T C B N rand offline s md) \<and>
     answers (route_errors ''/construction/parse'') (ConstructionParse E V T s data is_signed) \<and>
     answers (route_errors ''/construction/payloads'') (ConstructionPayloads E T C s md ops) \<and>
     answers (route_errors ''/construction/preprocess'') (ConstructionPreprocess E C cast s max_fee multiplier md ops) \<and>
     answers (route_errors ''/construction/submit'') (ConstructionSubmit E T offline data) \<and>
     answers (route_errors ''/mempool'') (Mempool E pool offline) \<and>
     answers (route_errors ''/mempool/transaction'') (MempoolTransaction E V pool offline s ident)"
proof -
  have "register_all empty_registry error_decls = Ok (empty_registry\<lparr>serverErrors := error_decls\<rparr>)"
    using register_all_plain [of error_decls empty_registry] error_decls_plain by (simp add: empty_registry_def)
  then show ?thesis
    using route_errors_declared
    by (intro exI [of _ "empty_registry\<lparr>serverErrors := error_decls\<rparr>"] conjI account_routes block_routes
        mempool_routes ConstructionCombine_answers ConstructionDerive_answers ConstructionHash_answers
        ConstructionMetadata_answers ConstructionParse_answers ConstructionPayloads_answers
        ConstructionPreprocess_answers ConstructionSubmit_answers) (simp_all add: NetworkOptions_def)
qed

end
