(* ===== verification/Block_Queries.thy ===== *)
theory Block_Queries
  imports Readers
begin

text \<open>
  A client's view of a block: what \<^verbatim>\<open>/block\<close> lists is what \<^verbatim>\<open>/block/transaction\<close> answers
  (src/services/block_service.go), also when the indexer has gone on in the meantime.
\<close>

section \<open>Looking a transaction up\<close>

lemma hex_inj: "env_ok E \<Longrightarrow> Uint256ToHexString E x = Uint256ToHexString E y \<longleftrightarrow> x = y"
  by (metis env_ok_def hex_decode_encode hex_ok_def option.inject rev_rev_ident)

lemma transformTransaction_hash:
  assumes "env_ok E" "consistency (transformTransaction E s src) = Ok r"
  shows "rt_hash r = Uint256ToHexString E (mt_hash src)"
proof -
  have "transformTransaction E s src = Ok r"
    using assms(2) by (simp add: consistency_def split: res.splits tx_error.splits)
  then show ?thesis
    by (auto simp: transformTransaction_def res_simps parse_hash_iff [OF assms(1)] split: sum.splits)
qed

text \<open>The loop of \<^verbatim>\<open>BlockTransaction\<close> is a search in the list that \<^verbatim>\<open>Block\<close> builds.\<close>

lemma find_transaction_listed:
  assumes "env_ok E"
  shows "map_res (\<lambda>src. consistency (transformTransaction E s src)) txs = Ok rs \<Longrightarrow>
    find_transaction E s x txs =
      (case find (\<lambda>r. rt_hash r = Uint256ToHexString E x) rs of
         None \<Rightarrow> Err errInvalidTransactionHash | Some r \<Rightarrow> Ok r)"
proof (induction txs arbitrary: rs)
  case (Cons tx txs)
  then obtain r rs' where "consistency (transformTransaction E s tx) = Ok r" "rs = r # rs'"
    "map_res (\<lambda>src. consistency (transformTransaction E s src)) txs = Ok rs'"
    by (auto simp: res_simps)
  then show ?case
    using Cons.IH transformTransaction_hash [OF assms] hex_inj [OF assms] by auto
qed simp

section \<open>A block that was served\<close>

lemma Block_from_chain:
  assumes "badger_ok B con" "env_ok E" "chain_ok MutHash ch" "synced E L MutHash C toks ch con n s"
    and "Block E B C False s pid = Ok blk"
  obtains h where "unat h < n"
    "rb_blockID blk = \<lparr>bi_index = uint h, bi_hash = Uint256ToHexString E (sb_Hash (ch_block ch h))\<rparr>"
    "map_res (\<lambda>src. consistency (transformTransaction E s src)) (mb_transactions (stored_block E L toks ch h)) =
       Ok (rb_transactions blk)"
proof -
  obtain info where info: "getBlockInfo E B C s pid True = Ok info" "rb_blockID blk = info_blockID info"
    "map_res (\<lambda>src. consistency (transformTransaction E s src)) (mb_transactions (info_block info)) = Ok (rb_transactions blk)"
    using assms(5) by (auto simp: Block_def res_simps)
  obtain h where "unat h < n" "info = info_of E h (sb_Hash (ch_block ch h)) (stored_block E L toks ch h)"
    using getBlockInfo_synced [OF assms(1-4), of pid True] info(1) by auto
  with info show thesis by (intro that) (simp_all add: info_of_def)
qed

text \<open>The identifier of an indexed block selects it.\<close>

lemma getBlockInfo_identified:
  assumes "badger_ok B con" "env_ok E" "chain_ok MutHash ch" "synced E L MutHash C toks ch con n s" "unat h < n"
  shows "getBlockInfo E B C s
      (Some \<lparr>pbi_index = Some (uint h), pbi_hash = Some (Uint256ToHexString E (sb_Hash (ch_block ch h)))\<rparr>) True =
    Ok (info_of E h (sb_Hash (ch_block ch h)) (stored_block E L toks ch h))"
proof -
  have hash: "is_hash (sb_Hash (ch_block ch h))" using assms(3) by (simp add: chain_ok_def)
  have stored: "block_at C (con (st_db s)) h (sb_Hash (ch_block ch h)) (stored_block E L toks ch h)"
    using assms(4,5) unfolding synced_def by blast
  have "n \<noteq> 0" using assms(5) by auto
  then have "\<not> getHeight s < h"
    using synced_next_height(2) [OF assms(4)] assms(5) by (simp add: word_less_nat_alt)
  moreover have "\<not> uint h < 0" "\<not> 4294967295 < uint h" "word_of_int (uint h) = h"
    using unsigned_less [where ?'a = int, of h] by simp_all
  moreover have "Uint256FromHexString E (Uint256ToHexString E (sb_Hash (ch_block ch h))) = Inr (sb_Hash (ch_block ch h))"
    using hash assms(2) by simp
  moreover have "empty_id\<lparr>bid_hash := x, bid_byHeight := True, bid_height := h\<rparr> = (id_of_height h)\<lparr>bid_hash := x\<rparr>" for x
    by (simp add: id_of_height_def empty_id_def)
  ultimately show ?thesis
    using getBlockInfoRaw_both [OF assms(1) stored hash, of E True]
    by (simp add: getBlockInfo_def getBlockID_def no_block_selected_def) (simp add: id_of_height_def)
qed

section \<open>Properties\<close>

text \<open>C12: what \<^verbatim>\<open>/block\<close> lists, \<^verbatim>\<open>/block/transaction\<close> answers. Once a client has received a block,
  however it selected it, a request for a transaction of this block is answered with the
  transaction that the block lists under its hash, and with an error exactly when the text
  is no hash or the block lists none, for as long as the indexer runs, fails and restarts, in
  rounds that \<open>serves\<close> admits.\<close>

theorem BlockTransaction_listed:
  assumes "badger_ok B con" "env_ok E" "evm_ok L" "codec_ok C" "chain_ok MutHash ch"
    and "\<forall>t\<in>set oep4. is_addr (tk_contract t)" "con d0 = Map.empty"
    and "NewStore E B (Inr d0) oep4 False current = Ok s0"
    and "(server_step E L MutHash B C (serves E L (make_tokens E oep4) ch) oep4)\<^sup>*\<^sup>* s0 s"
    and "(server_step E L MutHash B C (serves E L (make_tokens E oep4) ch) oep4)\<^sup>*\<^sup>* s t"
    and "Block E B C False s pid = Ok blk"
  shows "BlockTransaction E B C False t (Some (rb_blockID blk)) (Some hs) =
    (case Uint256FromHexString E hs of
       Inl err \<Rightarrow> Err errInvalidTransactionHash
     | Inr x \<Rightarrow>
         (case find (\<lambda>r. rt_hash r = Uint256ToHexString E x) (rb_transactions blk) of
            None \<Rightarrow> Err errInvalidTransactionHash
          | Some r \<Rightarrow> Ok r))"
proof -
  let ?toks = "make_tokens E oep4"
  have toks: "toks_ok ?toks" using toks_ok_make_tokens assms(2,6) .
  note steps = server_steps_synced [OF assms(1-3) toks assms(4,5)]
  obtain n where n: "synced E L MutHash C ?toks ch con n s"
    using steps [OF assms(9) NewStore_synced [OF assms(1,7,8)]] by blast
  obtain m where m: "n \<le> m" "synced E L MutHash C ?toks ch con m t" using steps [OF assms(10) n] by blast
  obtain h where h: "unat h < n"
    "rb_blockID blk = \<lparr>bi_index = uint h, bi_hash = Uint256ToHexString E (sb_Hash (ch_block ch h))\<rparr>"
    "map_res (\<lambda>src. consistency (transformTransaction E s src)) (mb_transactions (stored_block E L ?toks ch h)) =
       Ok (rb_transactions blk)"
    using Block_from_chain [OF assms(1,2,5) n assms(11)] by metis
  have "tokens t = tokens s" using n m(2) by (simp add: synced_def)
  then have "transformTransaction E t = transformTransaction E s" using transformTransaction_tokens by blast
  then have listed: "map_res (\<lambda>src. consistency (transformTransaction E t src))
      (mb_transactions (stored_block E L ?toks ch h)) = Ok (rb_transactions blk)"
    using h(3) by simp
  have "unat h < m" using h(1) m(1) by simp
  then show ?thesis
    using getBlockInfo_identified [OF assms(1,2,5) m(2)] find_transaction_listed [OF assms(2) listed] h(2)
    by (simp add: BlockTransaction_def info_of_def split: sum.split)
qed

text \<open>The block of the example chain, which holds one transaction.\<close>

theorem BlockTransaction_listed_witness:
  "\<exists>s blk r. Block env0 mem_badger codec1 False s (Some \<lparr>pbi_index = Some 0, pbi_hash = None\<rparr>) = Ok blk \<and>
    rb_transactions blk = [r] \<and>
    BlockTransaction env0 mem_badger codec1 False s (Some (rb_blockID blk))
      (Some (Uint256ToHexString env0 (stx_Hash tx0))) = Ok r"
proof (rule chain0_indexed)
  fix s
  assume s: "(server_step env0 evm0 mut_hash0 mem_badger codec1 (serves env0 evm0 (native_tokens env0) chain0) [])\<^sup>*\<^sup>* store1 s"
    "synced env0 evm0 mut_hash0 codec1 (native_tokens env0) chain0 map_of 1 s"
  let ?pid = "Some \<lparr>pbi_index = Some 0, pbi_hash = None\<rparr>"
  have one: "sb_Transactions (ch_block chain0 0) = [tx0]" by (simp add: chain0_def)
  have syn: "synced env0 evm0 mut_hash0 codec1 (make_tokens env0 []) chain0 map_of 1 s" using s(2) by simp
  have "\<exists>blk. Block env0 mem_badger codec1 False s (Some \<lparr>pbi_index = Some (uint (0 :: u32)), pbi_hash = None\<rparr>) = Ok blk \<and>
      map rt_hash (rb_transactions blk) = map (\<lambda>t. Uint256ToHexString env0 (stx_Hash t)) (sb_Transactions (ch_block chain0 0))"
    by (rule Block_synced [OF badger_ok_mem env_ok_env0 evm_ok_evm0 chain_ok_chain0 tx_hashes_ok_chain0 _ syn, of 0]) auto
  then obtain blk where blk: "Block env0 mem_badger codec1 False s ?pid = Ok blk"
    "map rt_hash (rb_transactions blk) = [Uint256ToHexString env0 (stx_Hash tx0)]"
    unfolding one by auto
  then obtain r where r: "rb_transactions blk = [r]" "rt_hash r = Uint256ToHexString env0 (stx_Hash tx0)" by auto
  have "is_hash (stx_Hash tx0)" by (simp add: tx0_def is_hash_def)
  then show ?thesis
    using BlockTransaction_listed [OF badger_ok_mem env_ok_env0 evm_ok_evm0 codec_ok_codec1 chain_ok_chain0 _ _
      store1_opened _ rtranclp.rtrancl_refl blk(1), of "Uint256ToHexString env0 (stx_Hash tx0)"] s(1) blk(1) r by auto
qed

end
