(* ===== verification/Lifecycle.thy ===== *)
theory Lifecycle
  imports Construction_Flow Sync
begin

text \<open>
  The life of a transfer: built by preprocess, metadata and payloads, signed by the client,
  combined, submitted, seen in the mempool, and indexed with its block
  (src/services/construction_service.go, mempool_service.go, store.go). The endpoints are called
  at different moments; what they share is the configured currencies.
\<close>

section \<open>Endpoints on another store\<close>

lemma parsePayload_tokens: "tokens t = tokens s \<Longrightarrow> parsePayload V E t p = parsePayload V E s p"
  by (simp add: parsePayload_def getCurrencyInfo_def split: tx_payload.split)

lemma ConstructionParse_tokens:
  assumes "tokens t = tokens s"
  shows "ConstructionParse E V T t data is_signed = ConstructionParse E V T s data is_signed"
  unfolding ConstructionParse_def parsePayload_tokens [OF assms] ..

lemma decode_same:
  "decodeTransaction T data = Ok t \<Longrightarrow> ConstructionHash E T data = Ok (Uint256ToHexString E (tx_Hash t))"
  by (simp add: ConstructionHash_def txhash2response_def)

lemma Submit_iff:
  "ConstructionSubmit E T offline data = Ok hash \<longleftrightarrow>
   \<not> offline \<and> (\<exists>t. decodeTransaction T data = Ok t \<and> AppendTxToPool T t = None \<and> hash = Uint256ToHexString E (tx_Hash t))"
  by (cases offline; cases "decodeTransaction T data"; cases "AppendTxToPool T (ok_val (decodeTransaction T data))")
    (auto simp: ConstructionSubmit_def txhash2response_def)

text \<open>What the mempool reports of a transaction that it holds.\<close>

lemma MempoolTransaction_held:
  assumes "env_ok E" "is_hash (tx_Hash t)" "GetTxFromPool pool (tx_Hash t) = Inr t"
    and "parsePayload V E s (tx_Payload t) = Ok (ops, info)"
  shows "MempoolTransaction E V pool False s (Some (Uint256ToHexString E (tx_Hash t))) =
    Ok \<lparr>rt_operations = ops, rt_hash = Uint256ToHexString E (tx_Hash t)\<rparr>"
  using assms by (simp add: MempoolTransaction_def)

section \<open>Nonces of indexed transactions\<close>

lemma choose_nonce_refused:
  assumes "co_nonce opts \<noteq> 0" "constructTransfer E T s opts = Ok t" "checkUnsignedTxHash B s (tx_Hash t) = Ok True"
  shows "choose_nonce E T B s rand opts = Err (wrapErr errInvalidNonce
    (Errorf ''a conflicting transaction hash already exists for nonce %d'' [ArgInt (uint (co_nonce opts))]))"
  using assms by (simp add: choose_nonce_def nonce_taken_def wrap_res_def)

lemma indexed_hash:
  assumes "badger_ok B con" "synced E L MutHash C toks ch con n s" "unat h < n"
    and "tx \<in> set (sb_Transactions (ch_block ch h))"
  shows "checkUnsignedTxHash B s (MutHash (unsigned_tx tx)) = Ok True"
proof -
  have "con (st_db s) (txnHashKey (MutHash (unsigned_tx tx))) = Some []"
    using assms(2-4) unfolding synced_def by blast
  then show ?thesis by (simp add: checkUnsignedTxHash_def badger_get [OF assms(1)])
qed

section \<open>Properties\<close>

text \<open>C5: the life of a transfer of a token that is not a WASM one, whose contract is not the nil
  address, to a recipient that is not the null address. When preprocess and metadata have answered
  for two operations that describe such a transfer, combine has accepted signatures for the transaction of payloads, and
  submit has accepted the result, then the hash submit answers is the one that
  \<^verbatim>\<open>/construction/hash\<close> answers and that every payload asked to be signed; parse names the keys that
  signed; and while the pool holds the transaction, \<^verbatim>\<open>/mempool/transaction\<close> reports, under this
  hash, operations that describe the very transfer of the start.\<close>

theorem transfer_lifecycle:
  assumes "env_ok E" "codec_ok C" "txlib_ok T" "calls_ok V T" "APPCALL V \<noteq> SYSCALL V" "toks_wf E (tokens s)"
    and "\<forall>data t. decodeTransaction T data = Ok t \<longrightarrow> is_hash (tx_Hash t)"
    and "validateOps E s ops = Ok x" "ti_to x \<noteq> nullAddr E"
    and "tokens s (ti_contract x) = Some info" "\<not> ci_wasm info" "ti_contract x \<noteq> nilAddr"
    and "ConstructionPreprocess E C cast s fee multiplier md ops = Ok options"
    and "ConstructionMetadata E T C B N rand False s options = Some (Ok metadata)"
    and "ConstructionPayloads E T C s metadata ops = Ok r"
    and "ConstructionCombine T (pl_unsigned r) sigs = Ok signed_tx"
    and "ConstructionSubmit E T False signed_tx = Ok hash"
    and "tokens s' = tokens s" "\<forall>t. decodeTransaction T signed_tx = Ok t \<longrightarrow> GetTxFromPool pool (tx_Hash t) = Inr t"
  shows "\<exists>parsed entry.
    ConstructionHash E T signed_tx = Ok hash \<and>
    map (\<lambda>p. Uint256ToHexString E (sp_bytes p)) (pl_payloads r) = replicate (length (pl_payloads r)) hash \<and>
    ConstructionParse E V T s' signed_tx True = Ok parsed \<and>
    map ai_address (pr_signers parsed) = map (\<lambda>sg. ToBase58 E (AddressFromPubKey T (signed_key sg))) sigs \<and>
    MempoolTransaction E V pool False s' (Some hash) = Ok entry \<and> rt_hash entry = hash \<and>
    rt_operations entry = pr_operations parsed \<and>
    validateOps E s (Some (map Some (rt_operations entry))) = Ok x"
proof (rule flow_payloads [OF assms(1-6,8-14)])
  fix t payer r'
  let ?ops = "appendOperations E [] x False"
  assume p: "ConstructionPayloads E T C s metadata ops = Ok r'" "pl_unsigned r' = hex_encode (Serialization T t)"
    "pl_payloads r' = map (\<lambda>a. \<lparr>sp_account = (native_account E x (ti_from x))\<lparr>ai_address := a\<rparr>, sp_bytes = tx_Hash t,
       sp_type = Ed25519\<rparr>) (ToBase58 E (ti_from x) # (if tx_Payer t \<noteq> ti_from x then [ToBase58 E (tx_Payer t)] else []))"
    and d: "decodeTransaction T (hex_encode (Serialization T t)) = Ok t"
    and parse: "parsePayload V E s (tx_Payload t) = Ok (?ops, info)"
    and unsigned: "\<And>data. decodeTransaction T data = Ok t \<Longrightarrow>
       \<exists>parsed. ConstructionParse E V T s data False = Ok parsed \<and> pr_operations parsed = ?ops"
    and valid: "validateOps E s (Some (map Some ?ops)) = Ok x"
  have r: "r' = r" using p(1) assms(15) by simp
  obtain parsed where parsed: "ConstructionParse E V T s (pl_unsigned r) False = Ok parsed" "pr_operations parsed = ?ops"
    using unsigned d p(2) r by metis
  obtain signers where signers: "ConstructionParse E V T s signed_tx True = Ok (parsed\<lparr>pr_signers := signers\<rparr>)"
    "map ai_address signers = map (\<lambda>sg. ToBase58 E (AddressFromPubKey T (signed_key sg))) sigs"
    using Parse_combined [OF assms(3,16) parsed(1)] by blast
  obtain t' where t': "decodeTransaction T signed_tx = Ok t'" "tx_Hash t' = tx_Hash t" "tx_Payload t' = tx_Payload t"
    using Combine_result [OF assms(3,16)] d p(2) r by (metis res.inject(1))
  have hash: "hash = Uint256ToHexString E (tx_Hash t)" using assms(17) t'(1,2) by (auto simp: Submit_iff)
  have "is_hash (tx_Hash t')" "GetTxFromPool pool (tx_Hash t') = Inr t'" using assms(7,19) t'(1) by blast+
  then have entry: "MempoolTransaction E V pool False s' (Some hash) = Ok \<lparr>rt_operations = ?ops, rt_hash = hash\<rparr>"
    using MempoolTransaction_held [OF assms(1), of t' pool V s' ?ops info] parse t'(2,3) hash
    by (simp add: parsePayload_tokens [OF assms(18)])
  have "map (\<lambda>p. Uint256ToHexString E (sp_bytes p)) (pl_payloads r) = replicate (length (pl_payloads r)) hash"
    using p(3) r hash by (simp add: comp_def)
  then show ?thesis
    using decode_same [OF t'(1)] t'(2) hash signers parsed(2) entry valid
    by (auto simp: ConstructionParse_tokens [OF assms(18)])
qed

text \<open>The run of the theory Construction_Flow, up to a pool that holds its transaction.\<close>

definition pool2 :: pool where
  "pool2 = \<lparr>GetTxnHashList = [hash2], GetTxFromPool = (\<lambda>h. if h = hash2 then Inr (imm0 signed2) else Inl ''unknown'')\<rparr>"

lemma decode_lib2_hash: "decodeTransaction lib2 data = Ok t \<Longrightarrow> is_hash (tx_Hash t)"
  by (auto simp: decodeTransaction_iff lib2_def txlib0_def imm0_def is_hash_def split: if_splits)

lemma signed2_decodes:
  "decodeTransaction lib2 (hex_encode (Serialization lib2 (imm0 signed2))) = Ok (imm0 signed2)"
  by (rule decode_serialized [OF lib2_ok(1), of signed2]) (simp add: lib2_def txlib0_def)

lemma payloads2: "\<exists>r. ConstructionPayloads env0 lib2 codec2 store2 (protobuf_map [2]) ops2 = Ok r \<and>
    pl_unsigned r = hex_encode (Serialization lib2 (imm0 unsigned2))"
proof -
  have "decodeProtobuf codec2 (protobuf_map [2]) = Ok opts_fin"
    by (simp add: decodeProtobuf_def protobuf_map_def md_get_def hex_decode_encode codec2_def del: hex_encode.simps)
  moreover have "options_for pay0 opts_fin" by (simp add: options_for_def opts_fin_def opts_req_def pay0_def)
  ultimately show ?thesis using Payloads_of_options [OF _ validate2 _ construct2] by simp
qed

theorem transfer_lifecycle_witness:
  "\<exists>entry. MempoolTransaction env0 vm0 pool2 False store2 (Some (Uint256ToHexString env0 hash2)) = Ok entry \<and>
     validateOps env0 store2 (Some (map Some (rt_operations entry))) = Ok pay0"
proof -
  obtain r where r: "ConstructionPayloads env0 lib2 codec2 store2 (protobuf_map [2]) ops2 = Ok r"
    "pl_unsigned r = hex_encode (Serialization lib2 (imm0 unsigned2))" using payloads2 by blast
  have combine: "ConstructionCombine lib2 (pl_unsigned r) [Some sign2] = Ok (hex_encode (Serialization lib2 (imm0 signed2)))"
    using combine2(1) r(2) by simp
  have hash: "tx_Hash (imm0 signed2) = hash2" by (simp add: imm0_def signed2_def unsigned2_def hash2_def)
  have "AppendTxToPool lib2 (imm0 signed2) = None" by (simp add: lib2_def txlib0_def)
  then have submit: "ConstructionSubmit env0 lib2 False (hex_encode (Serialization lib2 (imm0 signed2))) =
      Ok (Uint256ToHexString env0 hash2)"
    using signed2_decodes hash by (simp add: Submit_iff)
  have pool: "\<forall>t. decodeTransaction lib2 (hex_encode (Serialization lib2 (imm0 signed2))) = Ok t \<longrightarrow>
      GetTxFromPool pool2 (tx_Hash t) = Inr t"
    using signed2_decodes hash by (simp add: pool2_def)
  have pay: "ti_contract pay0 = ongAddr env0" "ti_to pay0 \<noteq> nullAddr env0" using alice_bob by (simp_all add: pay0_def)
  have vm: "APPCALL vm0 \<noteq> SYSCALL vm0" by simp
  have hashes: "\<forall>data t. decodeTransaction lib2 data = Ok t \<longrightarrow> is_hash (tx_Hash t)" using decode_lib2_hash by blast
  have token: "tokens store2 (ti_contract pay0) = Some (native_currency env0 (ongAddr env0) 18 ''ONG'')"
    "ti_contract pay0 \<noteq> nilAddr" using store2_tokens(2) native_ong(2) pay(1) by simp_all
  show ?thesis
    using transfer_lifecycle [OF env_ok_env0 codec_ok_codec2 lib2_ok vm store2_tokens(1) hashes validate2 pay(2)
        token(1) native_ong(1) token(2) preprocess2 metadata2 r(1) combine submit refl pool] by blast
qed

text \<open>C13: no transfer is built twice. Once the block of a transaction is indexed, metadata refuses the
  options of this transaction, whose nonce, gas and payer give its unsigned hash, and says so
  with the error for nonces, for as long as the indexer runs, fails and restarts, in rounds that
  \<open>serves\<close> admits.\<close>

theorem indexed_nonce_refused:
  assumes "badger_ok B con" "env_ok E" "evm_ok L" "codec_ok C" "chain_ok MutHash ch"
    and "\<forall>t\<in>set oep4. is_addr (tk_contract t)" "con d0 = Map.empty"
    and "NewStore E B (Inr d0) oep4 False current = Ok s0"
    and "(server_step E L MutHash B C (serves E L (make_tokens E oep4) ch) oep4)\<^sup>*\<^sup>* s0 s"
    and "heightIndexed s = Some i" "uint h \<le> i" "tx \<in> set (sb_Transactions (ch_block ch h))"
    and "decodeProtobuf C' options = Ok opts" "co_nonce opts \<noteq> 0" "getGasPrice N = Some price" "fill_gas E price opts = Ok opts'"
    and "constructTransfer E T s opts' = Ok t" "tx_Hash t = MutHash (unsigned_tx tx)"
  shows "ConstructionMetadata E T C' B N rand False s options = Some (Err (wrapErr errInvalidNonce
    (Errorf ''a conflicting transaction hash already exists for nonce %d'' [ArgInt (uint (co_nonce opts))])))"
proof -
  have toks: "toks_ok (make_tokens E oep4)" using toks_ok_make_tokens assms(2,6) .
  obtain n where n: "synced E L MutHash C (make_tokens E oep4) ch con n s"
    using server_steps_synced [OF assms(1-3) toks assms(4,5,9) NewStore_synced [OF assms(1,7,8)]] by blast
  have "checkUnsignedTxHash B s (tx_Hash t) = Ok True"
    unfolding assms(18) by (rule indexed_hash [OF assms(1) n synced_heights [OF n assms(10,11)] assms(12)])
  moreover have "co_nonce opts' = co_nonce opts" using fill_gas_result(6) [OF assms(16)] .
  ultimately show ?thesis
    using choose_nonce_refused [of opts', OF _ assms(17), where rand = rand] assms(13-16) by (simp add: ConstructionMetadata_def)
qed

text \<open>A transfer with the nonce of the transaction of the example chain.\<close>

definition opts3 :: construct_options where
  "opts3 = opts_fin\<lparr>co_nonce := 1\<rparr>"

definition unsigned3 :: mtxn where
  "unsigned3 = unsigned2\<lparr>ct_Nonce := 1\<rparr>"

theorem indexed_nonce_refused_witness:
  "\<exists>s e. (server_step env0 evm0 mut_hash0 mem_badger codec1 (serves env0 evm0 (make_tokens env0 []) chain0) [])\<^sup>*\<^sup>* store1 s \<and>
    ConstructionMetadata env0 (txlib0 [unsigned3]) (codec2\<lparr>UnmarshalOptions := \<lambda>bs. Inr opts3\<rparr>) mem_badger gas_node2
      (\<lambda>i. Inl ''no entropy'') False s (protobuf_map [3]) = Some (Err e) \<and> err_code e = 410"
proof (rule chain0_indexed)
  fix s
  assume s: "(server_step env0 evm0 mut_hash0 mem_badger codec1 (serves env0 evm0 (native_tokens env0) chain0) [])\<^sup>*\<^sup>* store1 s"
    "synced env0 evm0 mut_hash0 codec1 (native_tokens env0) chain0 map_of 1 s"
  let ?rand = "\<lambda>i. Inl ''no entropy''" and ?T = "txlib0 [unsigned3]" and ?C = "codec2\<lparr>UnmarshalOptions := \<lambda>bs. Inr opts3\<rparr>"
  have i: "heightIndexed s = Some 0" and toks: "tokens s = tokens store2" using s(2) by (simp_all add: synced_def store2_def)
  have decode: "decodeProtobuf ?C (protobuf_map [3]) = Ok opts3"
    by (simp add: decodeProtobuf_def protobuf_map_def md_get_def hex_decode_encode del: hex_encode.simps)
  have fill: "fill_gas env0 (Ok 3000) opts3 = Ok opts3"
    by (simp add: fill_gas_def minGasLimit_def opts3_def opts_fin_def opts_req_def Let_def defaultGasPrice_def)
  have "length (big_bytes 70) < 2 ^ 60" by (simp add: big_bytes_def be_bytes.simps)
  then have construct: "constructTransfer env0 ?T s opts3 = Ok (imm0 unsigned3)"
    using store2_tokens(2) native_ong alice_bob toks
    by (simp add: constructTransfer_iff opts3_def opts_fin_def opts_req_def invoke_code_def txlib0_def build0_def
        big_set_bytes_big_bytes unsigned3_def unsigned2_def)
  have tx: "tx0 \<in> set (sb_Transactions (ch_block chain0 0))" by (simp add: chain0_def)
  have hash: "tx_Hash (imm0 unsigned3) = mut_hash0 (unsigned_tx tx0)"
    by (simp add: imm0_def unsigned3_def unsigned2_def mut_hash0_def unsigned_tx_def tx0_def)
  have "co_nonce opts3 \<noteq> 0" by (simp add: opts3_def)
  then have "\<exists>e. ConstructionMetadata env0 ?T ?C mem_badger gas_node2 ?rand False s (protobuf_map [3]) = Some (Err e) \<and>
      err_code e = 410"
    using indexed_nonce_refused [OF badger_ok_mem env_ok_env0 evm_ok_evm0 codec_ok_codec1 chain_ok_chain0 _ _
      store1_opened _ i _ tx decode _ price_gas_node2 fill construct hash, where rand = ?rand] s(1)
    by (simp add: errInvalidNonce_def mk_error_def)
  then show ?thesis using s(1) by auto
qed

end
