(* ===== verification/Interrupts.thy ===== *)
theory Interrupts
  imports Startup "HOL-Library.Sublist"
begin

text \<open>
  A signal during the start (src/main.go with src/process/process.go). The goroutine that receives
  signals runs beside the start, so an interrupt or a SIGTERM runs the handlers that the start has
  registered up to some point of its trace. The two calls of \<^verbatim>\<open>SetExitHandler\<close> of an online server
  are apart: between them the handler that waits for the indexer is registered, and the one that
  cancels the indexer is not. The properties are about the exit, which works on a copy of the
  registry; what the start still does beside it until the process ends is left aside.
\<close>

section \<open>The handlers of a part of the trace\<close>

lemma handlers_of_prefix: "prefix tr tr' \<Longrightarrow> prefix (handlers_of tr) (handlers_of tr')"
  by (auto simp: prefix_def handlers_of_def)

definition start_handlers :: "handler list list" where
  "start_handlers =
     [[], [Close_ledger], [Close_store], [Close_ledger, Wait_and_close_store],
      [Close_ledger, Wait_and_close_store, Cancel_indexer], run_handlers Offline, run_handlers Online]"

lemma handlers_of_start:
  assumes "prefix tr (fst (run E B H))"
  shows "handlers_of tr \<in> set start_handlers"
  using handlers_of_prefix [OF assms] handlers_of_run [of E B H]
  by (auto simp: start_handlers_def run_handlers_def initLedger_handlers_def initServer_handlers_def
      prefix_Cons)

definition unguarded :: "handler list \<Rightarrow> bool" where
  "unguarded hs \<longleftrightarrow> Wait_and_close_store \<in> set hs \<and> Cancel_indexer \<notin> set hs"

lemma guarded_inv:
  assumes "hs \<in> set start_handlers" "\<not> unguarded hs"
  shows "online_inv (exit_from hs) \<or> other_inv (exit_from hs)"
  using assms by (intro exit_from_inv) (auto simp: start_handlers_def unguarded_def)

text \<open>Without its cancellation the indexer does not return, and the handler that waits for it stays.\<close>

interpretation uncancelled: step_invariant "exit_step by_indexer"
  "\<lambda>st. unguarded (todo st) \<and> \<not> cancelled st \<and> \<not> done_sent st" for by_indexer
proof unfold_locales
  fix s t :: exit_state
  assume "exit_step by_indexer s t" "unguarded (todo s) \<and> \<not> cancelled s \<and> \<not> done_sent s"
  then show "unguarded (todo t) \<and> \<not> cancelled t \<and> \<not> done_sent t"
    by (elim exit_stepE) (auto simp: unguarded_def)
qed

text \<open>Handlers run in order, and the one that waits has run only when the indexer has returned.\<close>

definition order_inv :: "handler list \<Rightarrow> exit_state \<Rightarrow> bool" where
  "order_inv hs st \<longleftrightarrow>
     suffix (todo st) hs \<and> (done_sent st \<longrightarrow> indexer_returned st) \<and>
     (Wait_and_close_store \<in> set hs \<longrightarrow> Wait_and_close_store \<in> set (todo st) \<or> indexer_returned st)"

interpretation ordered: step_invariant "exit_step by_indexer" "order_inv hs" for by_indexer hs
proof unfold_locales
  fix s t :: exit_state
  assume "exit_step by_indexer s t" "order_inv hs s"
  then show "order_inv hs t"
    by (elim exit_stepE) (auto simp: order_inv_def dest: suffix_ConsD)
qed

lemma exit_from_fields:
  "todo (exit_from hs) = rev hs" "\<not> cancelled (exit_from hs)" "\<not> done_sent (exit_from hs)"
  by (simp_all add: exit_from_def registered_def fatal_signal_def comp_def concat_map_singleton)

lemma ledger_first: "hs \<in> set start_handlers \<Longrightarrow> Close_ledger \<in> set hs \<Longrightarrow> hd hs = Close_ledger"
  by (auto simp: start_handlers_def run_handlers_def initLedger_handlers_def initServer_handlers_def)

lemma suffix_without_last: "suffix ys (rev xs) \<Longrightarrow> xs \<noteq> [] \<Longrightarrow> hd xs \<notin> set ys \<Longrightarrow> ys = []"
  by (cases xs; cases ys rule: rev_cases) (auto simp: suffix_def)

section \<open>Properties\<close>

text \<open>C15: an interrupt or a SIGTERM at any moment of the start. The exit completes unless the signal
  arrives between the registration of the handler that waits for the indexer and that of the
  handler that cancels it: then no exit completes and the process hangs. Wherever it
  arrives, the data store of an online server is closed only after the indexer has returned, and
  the ledger is closed last.\<close>

theorem interrupted_start:
  assumes "prefix tr (fst (run E B H))"
  shows "((\<exists>st. (exit_step False)\<^sup>*\<^sup>* (exit_from (handlers_of tr)) st \<and> todo st = []) \<longleftrightarrow>
      \<not> (Wait_and_close_store \<in> set (handlers_of tr) \<and> Cancel_indexer \<notin> set (handlers_of tr))) \<and>
    (\<forall>st. (exit_step False)\<^sup>*\<^sup>* (exit_from (handlers_of tr)) st \<longrightarrow>
       (Wait_and_close_store \<in> set (handlers_of tr) \<longrightarrow> Wait_and_close_store \<notin> set (todo st) \<longrightarrow> indexer_returned st) \<and>
       (Close_ledger \<in> set (handlers_of tr) \<longrightarrow> Close_ledger \<notin> set (todo st) \<longrightarrow> todo st = []))"
proof (intro conjI allI impI)
  let ?hs = "handlers_of tr"
  note hs = handlers_of_start [OF assms]
  show "(\<exists>st. (exit_step False)\<^sup>*\<^sup>* (exit_from ?hs) st \<and> todo st = []) \<longleftrightarrow>
      \<not> (Wait_and_close_store \<in> set ?hs \<and> Cancel_indexer \<notin> set ?hs)"
  proof (cases "unguarded ?hs")
    case True
    then have start: "unguarded (todo (exit_from ?hs)) \<and> \<not> cancelled (exit_from ?hs) \<and> \<not> done_sent (exit_from ?hs)"
      by (simp add: exit_from_fields unguarded_def)
    have "todo st \<noteq> []" if "(exit_step False)\<^sup>*\<^sup>* (exit_from ?hs) st" for st
      using uncancelled.reached [OF that start] by (auto simp: unguarded_def)
    then show ?thesis using True by (auto simp: unguarded_def)
  next
    case False
    then show ?thesis
      using guarded_inv [OF hs False] online.reaches_end other.reaches_end unfolding unguarded_def by blast
  qed
  fix st assume reach: "(exit_step False)\<^sup>*\<^sup>* (exit_from ?hs) st"
  have "order_inv (rev ?hs) (exit_from ?hs)" by (simp add: order_inv_def exit_from_fields)
  then have st: "order_inv (rev ?hs) st" using ordered.reached [OF reach] by blast
  show "indexer_returned st" if "Wait_and_close_store \<in> set ?hs" "Wait_and_close_store \<notin> set (todo st)"
    using st that by (simp add: order_inv_def)
  show "todo st = []" if "Close_ledger \<in> set ?hs" "Close_ledger \<notin> set (todo st)"
    using st that suffix_without_last [of "todo st" ?hs] ledger_first [OF hs] by (cases ?hs) (auto simp: order_inv_def)
qed

text \<open>The moment before the cancellation is registered, at a host where every call succeeds.\<close>

theorem interrupted_start_witness:
  "\<exists>tr. prefix tr (fst (run env0 mem_badger (host0 False False))) \<and> last tr = Set_handler Wait_and_close_store \<and>
     (\<nexists>st. (exit_step False)\<^sup>*\<^sup>* (exit_from (handlers_of tr)) st \<and> todo st = [])"
proof -
  have h: "host_mode (host0 False False) = Online" by (simp add: host_mode_def run_mode_def host0_def)
  have store: "initStore env0 mem_badger (Inr []) (json1\<lparr>waitTime := 2 * second\<rparr>) False 0 = Ok store1"
    using store_host0 [of False False False] by (simp add: host0_def)
  let ?tr = "[Set_global (Disable_log_file True), Init_log 1, Init_eventbus None, Init_node_log 1 None,
    Raise_open_files 4096, Init_events, Set_global (Blockheight_add_decimals_mainnet 0), Open Ledger,
    Set_handler Close_ledger, Set_global Def_ledger, Set_global (Disable_sync_verify_tx False),
    Start_txpool False False, Set_global Txn_pool_pid, Set_global Tx_pool_service, Start_p2p,
    Set_global Txpool_network, Set_global Net_server, Wait_for_peers, Open Data_store, Set_handler Wait_and_close_store]"
  have "prefix ?tr (fst (run env0 mem_badger (host0 False False)))"
    unfolding run_def json1_accepted h mode.case runOnline_def initServer_def open_store_def
    by (simp add: store then_traced_def do_action_def return_traced_def lift_res_def must_def initLog_def setMaxOpenFiles_def
        initNodeConfig_def initLedger_def log_if_def initTxPool_def initP2PNode_def serve_http_def Router_def host0_def)
  moreover from interrupted_start [OF this]
  have "\<nexists>st. (exit_step False)\<^sup>*\<^sup>* (exit_from (handlers_of ?tr)) st \<and> todo st = []"
    by (simp add: handlers_of_def)
  ultimately show ?thesis by (intro exI [of _ ?tr]) simp
qed

end
