(* ===== verification/App.thy ===== *)
theory App
  imports Startup
begin

text \<open>
  The command line application around the start (src/main.go): the flags, the application that
  \<^verbatim>\<open>setupApp\<close> builds and the help group it overwrites, \<^verbatim>\<open>main\<close>, the ticker of an online server, what the
  exit handlers log, and the versions (src/version/version.go). Flags that the node's package
  \<^verbatim>\<open>utils\<close> declares are named by their variable; the library's parsing of the command line is
  an argument.
\<close>

section \<open>Versions\<close>

definition version_Node :: string where
  "version_Node = ''v1.14.2''"

definition version_Rosetta :: string where
  "version_Rosetta = ''1.14''"

section \<open>Flags\<close>

datatype cli_flag =
    BoolFlag string string  \<comment> \<open>name, usage\<close>
  | StringFlag string string string  \<comment> \<open>name, default, usage\<close>
  | Utils string

definition offlineFlag :: cli_flag where
  "offlineFlag = BoolFlag ''offline'' ''Run the Rosetta server in offline mode''"

definition serverConfigFlag :: cli_flag where
  "serverConfigFlag =
     StringFlag ''server-config'' ''./server-config.json'' ''Path to the config `<file>` for this Rosetta server''"

definition validateStoreFlag :: cli_flag where
  "validateStoreFlag =
     BoolFlag ''validate-store'' ''Validate the indexed data in the Rosetta server's internal data store''"

text \<open>\<^verbatim>\<open>utils.GetFlagName\<close> and \<^verbatim>\<open>ctx.GlobalBool\<close> are arguments.\<close>

definition cliBool :: "(cli_flag \<Rightarrow> string) \<Rightarrow> (string \<Rightarrow> bool) \<Rightarrow> cli_flag \<Rightarrow> bool" where
  "cliBool GetFlagName GlobalBool flag = GlobalBool (GetFlagName flag)"

text \<open>The mode that \<^verbatim>\<open>run\<close> takes from the flags.\<close>

definition cli_mode :: "(cli_flag \<Rightarrow> string) \<Rightarrow> (string \<Rightarrow> bool) \<Rightarrow> mode" where
  "cli_mode GetFlagName GlobalBool =
     run_mode (cliBool GetFlagName GlobalBool validateStoreFlag) (cliBool GetFlagName GlobalBool offlineFlag)"

section \<open>The application\<close>

text \<open>
  What is set of \<^verbatim>\<open>cli.App\<close>, besides its action, which is \<^verbatim>\<open>run\<close>. \<^verbatim>\<open>Before\<close> is given the number of
  processors; it sets the number of threads and reports no error.
\<close>

record cli_app =
  app_Before :: "nat \<Rightarrow> nat \<times> string option"
  app_Copyright :: string
  app_Usage :: string
  app_Version :: string
  app_Flags :: "cli_flag list"

record flag_group =
  grp_Name :: string
  grp_Flags :: "cli_flag list"

definition server_flags :: "cli_flag list" where
  "server_flags = [serverConfigFlag, offlineFlag, validateStoreFlag]"

text \<open>\<open>groups\<close> is \<^verbatim>\<open>cmd.AppHelpFlagGroups\<close>; the index of its last group but one is not checked.\<close>

definition setupApp :: "flag_group list \<Rightarrow> (go_error, cli_app \<times> flag_group list) res" where
  "setupApp groups =
     (let app =
        \<lparr>app_Before = (\<lambda>NumCPU. (NumCPU, None)), app_Copyright = ''Copyright (c) The Ontology Authors'', app_Usage = ''Ontology Rosetta Server'',
         app_Version = ''Ontology Rosetta Server: '' @ version_Rosetta @ '', Ontology Node: '' @ version_Node,
         app_Flags = server_flags @
           map Utils [''ConfigFlag'', ''DataDirFlag'', ''DisableLogFileFlag'', ''LogDirFlag'', ''LogLevelFlag'',
             ''WasmVerifyMethodFlag'', ''DisableBroadcastNetTxFlag'', ''DisableSyncVerifyTxFlag'', ''GasLimitFlag'',
             ''GasPriceFlag'', ''TxpoolPreExecDisableFlag'', ''MaxConnInBoundFlag'',
             ''MaxConnInBoundForSingleIPFlag'', ''MaxConnOutBoundFlag'', ''NetworkIdFlag'', ''NodePortFlag'',
             ''ReservedPeersFileFlag'', ''ReservedPeersOnlyFlag'']\<rparr>;
          idx = int (length groups) - 2
      in if idx < 0 then Panic
         else
           (let group = groups ! nat idx;
                group = group\<lparr>grp_Name := ''ROSETTA SERVER'', grp_Flags := server_flags\<rparr>
            in Ok (app, groups[nat idx := group])))"

text \<open>\<^verbatim>\<open>main\<close>: the message it prints and the code it exits with, if the library reports an error.\<close>

definition main ::
  "flag_group list \<Rightarrow> (cli_app \<Rightarrow> string list \<Rightarrow> string option) \<Rightarrow> string list \<Rightarrow> (go_error, (string \<times> int) option) res" where
  "main groups Run args =
     bind_res (setupApp groups) (\<lambda>(app, groups').
       case Run app args of None \<Rightarrow> Ok None | Some err \<Rightarrow> Ok (Some (err, 1)))"

text \<open>One tick of \<^verbatim>\<open>runOnline\<close>.\<close>

datatype tick_action = Log_height u32 | CheckRotateLogFile

definition tick :: "bool \<Rightarrow> u32 \<Rightarrow> tick_action list" where
  "tick disable_log_file height = Log_height height # (if disable_log_file then [] else [CheckRotateLogFile])"

section \<open>The log of an exit\<close>

text \<open>How the closing calls of the handlers end: the error of each, if any.\<close>

record 'db closing =
  cl_ledger :: "string option"
  cl_badger :: "'db \<Rightarrow> string option"
  cl_http :: "string option"

datatype exit_line = Info string | Error_line string string

fun handler_log :: "'db closing \<Rightarrow> 'db option \<Rightarrow> handler \<Rightarrow> exit_line list" where
  "handler_log K db Close_ledger =
     Info ''Closing ledger'' #
     (case cl_ledger K of None \<Rightarrow> [] | Some err \<Rightarrow> [Error_line ''Failed to close ledger: %s'' err])"
| "handler_log K db Wait_and_close_store = map Info (fst (Store_Close (cl_badger K) db))"
| "handler_log K db Close_store = map Info (fst (Store_Close (cl_badger K) db))"
| "handler_log K db Cancel_indexer = []"
| "handler_log K db Shutdown_http =
     Info ''Shutting down Rosetta HTTP Server gracefully'' #
     (case cl_http K of None \<Rightarrow> [] | Some err \<Rightarrow> [Error_line ''Failed to shutdown Rosetta HTTP Server gracefully: %s'' err])"

definition exit_log :: "'db closing \<Rightarrow> 'db option \<Rightarrow> mode \<Rightarrow> exit_line list" where
  "exit_log K db mode = concat (map (handler_log K db) (todo (exit_start mode)))"

section \<open>Lemmas\<close>

text \<open>Without two help groups the program cannot start; with them it replaces the last but one.\<close>

lemma setupApp_groups:
  "setupApp groups = Panic \<longleftrightarrow> length groups < 2"
  "setupApp (gs @ [g, h]) = Ok (app, groups') \<Longrightarrow> \<exists>g'. groups' = gs @ [g', h] \<and> grp_Flags g' = server_flags"
  by (auto simp: setupApp_def Let_def nth_append list_update_append split: if_splits)

text \<open>An error of badger when the store is closed is dropped, unlike the others.\<close>

lemma exit_log_store_error: "exit_log (K\<lparr>cl_badger := f\<rparr>) db mode = exit_log K db mode"
proof -
  have "handler_log (K\<lparr>cl_badger := f\<rparr>) db = handler_log K db"
    by (rule ext, rename_tac h, case_tac h) (auto simp: Store_Close_def split: option.split)
  then show ?thesis by (simp add: exit_log_def)
qed

lemma exit_log_online:
  "exit_log \<lparr>cl_ledger = None, cl_badger = (\<lambda>d. None), cl_http = None\<rparr> (Some d) Online =
     [Info ''Shutting down Rosetta HTTP Server gracefully'', Info ''Closing internal data store'', Info ''Closing ledger'']"
  by (simp add: exit_log_def exit_start_todo Store_Close_def)

end
