(* ===== verification/Spec2Isabelle.thy ===== *)
theory Spec2Isabelle
  imports Lexinum Errors Ontology Keys Model Badger Store History Lookup Events Indexer Sync Operations
    Payload Intent Request_Fields Construction Construction_Flow Validate Format Shutdown Server_Config Logging
    Readers Startup Tools Answers Block_Queries Lifecycle Interrupts App
begin

text \<open>
  Verification development of \<^verbatim>\<open>ontology-rosetta\<close>, a Rosetta API server for the Ontology chain. The
  program polls an Ontology node for blocks, decodes their transfer events, keeps every balance
  at every height in a key-value database, and serves blocks, balances and the construction of
  transfers over the Rosetta API.

  The development is a shallow embedding: Go functions are HOL functions, structs are records,
  \<^verbatim>\<open>uint32\<close> and \<^verbatim>\<open>uint64\<close> are words, \<^verbatim>\<open>big.Int\<close> is \<^verbatim>\<open>int\<close>, byte slices are lists of bytes, and a
  function that returns an error has the result type \<open>res\<close> with the cases \<open>Ok\<close>, \<open>Err\<close> and \<open>Panic\<close>
  (a nil dereference, an index out of range, an explicit panic, or a fatal log message of the
  indexer that does not return). State is passed explicitly. What is not in this repository is an argument: the
  database (the record of the theory Badger, with an association list as its instance), the address and hash library (\<open>env\<close>), the protobuf codec (\<open>codec\<close>), the EVM log
  library (\<open>evm_lib\<close>), the node (\<open>node\<close>, \<open>gas_node\<close>, \<open>ledger\<close>, \<open>pool\<close>), the stack machine
  (\<open>neovm\<close>) and the transaction library (\<open>txlib\<close>). The hypotheses \<open>badger_ok\<close>, \<open>env_ok\<close>, \<open>codec_ok\<close>,
  \<open>evm_ok\<close>, \<open>txlib_ok\<close>, \<open>calls_ok\<close> and \<open>cast_ok\<close> state their documented behaviour, and each has a
  concrete instance in the witnesses. What the properties about indexed chains ask of the nodes is
  \<open>serves\<close> (Sync): every round sees a node that answers, up to its latest height, with blocks and
  events of one chain or with errors. One clause of it is about the process: no block is stored
  over a \<^verbatim>\<open>log.Fatalf\<close> that returned. \<^verbatim>\<open>log.Fatalf\<close> calls \<^verbatim>\<open>process.Exit\<close>, which returns at once when an
  exit is under way, and the indexer then stores a block without its events or with a negative
  amount; the indexer is modelled with this case (\<open>nd_exiting\<close>), the clause keeps it out of the
  properties about chains, and a property of Sync of its own states what it does.

  Foundations.
  \<^item> Prelude: bytes, results, and the parts of Go's standard library that are used (big-endian
    integers, hexadecimal and decimal strings, \<^verbatim>\<open>copy\<close>, \<^verbatim>\<open>bytes.Compare\<close>); the locales of step
    relations with an invariant and of those that end.
  \<^item> Errors (src/services/errors.go): the registry of API errors and its initialisation.
  \<^item> Ontology (the addresses of src/services/services.go) and Model (src/model/model.proto and the
    records of src/services/services.go).

  Storage and indexing (src/services/store.go).
  \<^item> Lexinum (src/lexinum/lexinum.go): the order-preserving encoding of heights. It preserves and
    reflects the order, is read back, returns although \<open>pow\<close> wraps around, and the decoder never
    indexes out of range.
  \<^item> Keys: the keys of the database, over a locale of prefix codes; they are injective and sort by account, contract and height.
  \<^item> Badger, Store, History, Lookup: the operations of \<^verbatim>\<open>Store\<close>, the abstract ledger (the history of
    an account and a contract as a map from heights to balances) and the proof that \<^verbatim>\<open>setBlock\<close>
    posts to it and the lookups read it.
  \<^item> Events, Indexer, Sync: the decoding of events, the differences of a block, \<^verbatim>\<open>IndexBlocks\<close> as a
    step relation over rounds, restarts and cancellations, and the invariant that the stored
    balances are the sums of the stored transfers, where these sums are never negative. The inner loop over the heights is a
    \<open>partial_function\<close>; that a round returns is part of the theorem on catching up.
  \<^item> Validate (\<^verbatim>\<open>Store.Validate\<close> and src/chain/chain.go): validation passes exactly when the latest
    stored balances are those of the chain.

  The data API.
  \<^item> Operations (src/services/block_service.go, account_service.go, network_service.go): the
    responses; their operations reconcile with the balances and are well-typed, and the only
    request alone on a store that panics is a status request of a server without P2P server.
  \<^item> Readers: requests beside the indexer. An endpoint reads the heights and the database several
    times; the store that each read sees is a state of a step relation that commits a block, then
    publishes its heights. Balances and blocks are those of a request that runs alone at one of
    its first reads; \<^verbatim>\<open>/network/status\<close> panics when it reads between the commit and the publication
    of the first block.
  \<^item> Block_Queries: what \<^verbatim>\<open>/block\<close> lists, \<^verbatim>\<open>/block/transaction\<close> answers, also later.
  \<^item> Answers: for every route, data and construction, the errors it can answer; all are declared by
    \<^verbatim>\<open>/network/options\<close>. The rules that collect them follow the structure of the handlers.

  The construction API (src/services/construction_service.go, mempool_service.go).
  \<^item> Payload (src/chain/payload.go): reading the transfers of a transaction from its code; the parser
    agrees with a relational meaning of calls.
  \<^item> Intent: \<^verbatim>\<open>validateOps\<close> accepts exactly the transfer intents.
  \<^item> Request_Fields: the metadata fields and \<^verbatim>\<open>getGasPrice\<close>, whose unsigned loop is a
    \<open>partial_function\<close> because on some chains it does not end.
  \<^item> Construction, Construction_Flow: the endpoints, and that a transfer (not of a WASM token, and
    not to the null address) keeps its meaning from preprocess to parse, that combine only answers with verified signatures, and when it panics.
  \<^item> Lifecycle: a transfer from preprocess over submit to the mempool, under one hash, and that
    metadata refuses the options of a transaction that is indexed.

  The process.
  \<^item> Format (src/model/transform.go) and Logging (src/log/log.go): renderings and log lines.
  \<^item> Shutdown (src/process/process.go): exits and signals as a machine over events, with the
    invariant that relates what has run to what was registered.
  \<^item> Server_Config (src/main.go): the configuration, the store it opens, and the handlers of an
    exit: all of them run, unless the indexer is itself the goroutine that exits.
  \<^item> Startup (src/main.go from \<^verbatim>\<open>run\<close> on, \<^verbatim>\<open>Router\<close> of src/services/services.go): the start as a trace of what
    it opens, registers and starts, for every failure of the calls into other packages (the
    record \<open>host\<close>); \<open>summary\<close> abstracts a trace to its handlers, resources and result, and the
    properties are about summaries: an exit at any point releases what was opened.
  \<^item> Interrupts: a signal at any point of that trace; App: the flags, \<^verbatim>\<open>setupApp\<close> and \<^verbatim>\<open>main\<close>, the ticker, and
    what the handlers log.
  \<^item> Tools (src/cmd/genaccount, src/cmd/signtx): the keys and signatures they make are accepted by
    the construction endpoints; the curve is the record \<open>ed25519\<close> with the law \<open>ed25519_ok\<close>.

  The last section puts the parts together: what a server answers that has started with a
  configuration, indexed a chain and is asked while it indexes.

  Bounds. Loops over lists are structurally recursive. The loop of random nonces is bounded by
  100 as in the code. Heights are 32-bit words throughout; the indexer's theorems hold up to the
  greatest height but one, where the unsigned loop counter would wrap around, as their
  hypotheses say.

  What the model shows about the code beyond its correctness is in lemmas and properties of
  the theories: a duplicate error code is not detected (Errors), an overdraft is stored as its
  absolute value (Lookup), a validation run on a chain of one block never exits early (Sync), the
  search for a gas price may not end, or panics if the node answers nil above its tip (Request_Fields), metadata may answer with a nonce that is
  taken and combine may panic (Construction_Flow), handlers may run twice and a second exit
  returns (Shutdown), so that a block may be stored without its events for good (Sync), an exit from
  within the indexer hangs (Server_Config), a status request panics in
  the middle of the first block and on a solo network (Readers, Operations), a signal between two registrations of the start hangs
  (Interrupts), a validation run never closes its store
  (Startup), and signtx crashes on a key that is not a seed (Tools).

  Not modelled. The generated protobuf code; the HTTP router and asserter of the Rosetta SDK, which
  only call the handlers; the parsing of the command line; the text of log messages outside of
  src/log, but for what the exit handlers print. What is left in src/ are imports and calls of other
  packages without a decision of its own.
\<close>

section \<open>The whole server\<close>

text \<open>C2: from the start to the answer. If the server starts online on an empty data store, with whatever
  configuration it accepts, and then indexes from nodes that serve one chain, through failed
  rounds, stops and restarts, but without storing a block over a \<^verbatim>\<open>log.Fatalf\<close> that returned
  during an exit, then \<^verbatim>\<open>/block\<close> answers for every height indexed so far, also while the
  indexer goes on between the reads of the request: with the block of the chain, its
  transactions in order, and operations that add up, for every account and every currency of
  the configuration, to the transfers of the block.\<close>

theorem server_answers:
  assumes "badger_ok B con" "env_ok E" "evm_ok L" "codec_ok C" "chain_ok MutHash ch" "tx_hashes_ok ch"
    and "unmarshal_ok (h_unmarshal H)" "initServerConfig E (h_config_file H) (h_unmarshal H) = Ok scfg"
    and "host_mode H = Online" "h_badger_open H = Inr d0" "con d0 = Map.empty" "snd (run E B H) = Ok s0"
    and "(server_step E L MutHash B C (serves E L (tokens s0) ch) (sc_tokens scfg))\<^sup>*\<^sup>* s0 s"
    and "reads E L MutHash B C (serves E L (tokens s0) ch) s \<sigma>" "heightIndexed s = Some i" "uint h \<le> i"
  shows "\<exists>blk. Block_at E B C False \<sigma> (Some \<lparr>pbi_index = Some (uint h), pbi_hash = None\<rparr>) = Ok blk \<and>
    rb_blockID blk = \<lparr>bi_index = uint h, bi_hash = Uint256ToHexString E (sb_Hash (ch_block ch h))\<rparr> \<and>
    map rt_hash (rb_transactions blk) = map (\<lambda>t. Uint256ToHexString E (stx_Hash t)) (sb_Transactions (ch_block ch h)) \<and>
    (\<forall>a c. is_addr a \<longrightarrow> tokens s0 c \<noteq> None \<longrightarrow>
       rblock_delta E (tokens s0) c a (rb_transactions blk) =
         block_delta E (mb_transactions (stored_block E L (tokens s0) ch h)) c a)"
proof -
  let ?pid = "Some \<lparr>pbi_index = Some (uint h), pbi_hash = None\<rparr>"
  note started = started_store [OF assms(2,7,8,12)]
  have new: "NewStore E B (Inr d0) (sc_tokens scfg) False (h_current_height H) = Ok s0"
    using started(1) assms(9,10) by simp
  have toks: "tokens s0 = make_tokens E (sc_tokens scfg)" using NewStore_tokens [OF new] .
  obtain k n where r: "indexing E L MutHash B C (tokens s0) ch con" "mono k" "mono n"
    "\<And>i. seen E L MutHash C (tokens s0) ch con (k i) (n i) (\<sigma> i)" "k 0 \<noteq> 0" "unat h < k 0"
    using running_reads [OF assms(1-5) started(2) assms(11) new assms(13,14) [unfolded toks]] assms(15,16)
    unfolding toks by (metis option.discI)
  obtain j where j: "Block_at E B C False \<sigma> ?pid = Block E B C False (\<sigma> j) ?pid"
    using Block_at_eq [where \<sigma> = \<sigma> and pid = ?pid, OF r(1-5)] by blast
  have "unat h < k j" using r(6) monoD [OF r(2), of 0 j] by simp
  then have served: "Block_at E B C False \<sigma> ?pid = Block E B C False (\<sigma> j\<lparr>heightIndexed := heights_of (n j)\<rparr>) ?pid"
    using j seen_Block [OF r(1,4)] by simp
  have "unat h < n j" using \<open>unat h < k j\<close> r(4) [of j] by (simp add: seen_def)
  from Block_synced [OF assms(1-3,5,6) started(2) seen_raw_synced [OF r(4) [of j], unfolded toks] this] show ?thesis
    unfolding served toks by fastforce
qed

text \<open>A host where every call succeeds, and the example chain.\<close>

theorem server_answers_witness:
  "\<exists>s blk. (server_step env0 evm0 mut_hash0 mem_badger codec1 (serves env0 evm0 (tokens store1) chain0) [])\<^sup>*\<^sup>* store1 s \<and>
    snd (run env0 mem_badger (host0 False False)) = Ok store1 \<and>
    Block_at env0 mem_badger codec1 False (\<lambda>i. s) (Some \<lparr>pbi_index = Some 0, pbi_hash = None\<rparr>) = Ok blk \<and>
    bi_hash (rb_blockID blk) = Uint256ToHexString env0 (sb_Hash (ch_block chain0 0))"
proof (rule chain0_indexed)
  fix s
  assume s: "(server_step env0 evm0 mut_hash0 mem_badger codec1 (serves env0 evm0 (native_tokens env0) chain0) [])\<^sup>*\<^sup>* store1 s"
    "synced env0 evm0 mut_hash0 codec1 (native_tokens env0) chain0 map_of 1 s"
  have toks: "tokens store1 = native_tokens env0" by (simp add: store1_def)
  have i: "heightIndexed s = Some 0" using s(2) by (simp add: synced_def)
  have r: "reads env0 evm0 mut_hash0 mem_badger codec1 (serves env0 evm0 (tokens store1) chain0) s (\<lambda>i. s)"
    unfolding reads_def by (intro exI [of _ "\<lambda>i. (s, None, next_height s)"]) simp
  have H: "unmarshal_ok (h_unmarshal (host0 False False))" "host_mode (host0 False False) = Online"
    "h_badger_open (host0 False False) = Inr []" "sc_tokens (json1\<lparr>waitTime := 2 * second\<rparr>) = []"
    by (simp_all add: unmarshal_ok_def host_mode_def run_mode_def host0_def json1_def)
  show ?thesis
    using server_answers [OF badger_ok_mem env_ok_env0 evm_ok_evm0 codec_ok_codec1 chain_ok_chain0 tx_hashes_ok_chain0
        H(1) json1_accepted H(2,3) _ run_host0 _ r i, of 0] s(1) run_host0 by (fastforce simp: H(4) toks)
qed

end
